(* ===== verification/Prelude.thy ===== *)
theory Prelude
  imports Main "HOL-Library.Word"
begin

text \<open>
  Shared material of the development: the machine types of the firmware (an ESP32, where
  \<open>size_t\<close> is 32 bits wide and plain \<open>char\<close> is unsigned), the \<open>esp_err_t\<close> results, the C string
  helpers the sources use, machines that emit outputs, and the generic lemmas on lists and words
  the components share.
\<close>

unbundle bit_operations_syntax

named_theorems model_simps \<open>equations that evaluate the model's small helper functions\<close>
named_theorems frame_rules \<open>fields that an operation leaves unchanged\<close>

section \<open>Machine types and results\<close>

type_synonym u8 = "8 word"
type_synonym u16 = "16 word"
type_synonym u32 = "32 word"
type_synonym bytes = "u8 list"

datatype esp_err =
    ESP_OK | ESP_FAIL | ESP_ERR_NO_MEM | ESP_ERR_INVALID_ARG | ESP_ERR_INVALID_STATE
  | ESP_ERR_INVALID_SIZE | ESP_ERR_NOT_FOUND | ESP_ERR_NOT_SUPPORTED | ESP_ERR_TIMEOUT
  | ESP_ERR_INVALID_RESPONSE

text \<open>A C character constant as the byte it is, and a string literal as its bytes.\<close>

definition byte_of :: "char \<Rightarrow> u8" where
  [model_simps]: "byte_of c = of_char c"

definition bytes_of :: "string \<Rightarrow> bytes" where
  [model_simps]: "bytes_of s = map byte_of s"

definition chars_of :: "bytes \<Rightarrow> string" where
  "chars_of bs = map (\<lambda>b. char_of (unat b)) bs"

lemma length_bytes_of [simp]: "length (bytes_of s) = length s"
  by (simp add: bytes_of_def)

lemma bytes_of_append [simp]: "bytes_of (s @ t) = bytes_of s @ bytes_of t"
  by (simp add: bytes_of_def)

lemma chars_of_bytes_of [simp]: "chars_of (bytes_of s) = s"
proof (induction s)
  case Nil
  then show ?case by (simp add: chars_of_def bytes_of_def)
next
  case (Cons c s)
  have "unat (of_char c :: u8) = of_char c"
    by (cases c) (simp add: of_char_Char)
  then have "char_of (unat (byte_of c)) = c"
    by (simp add: byte_of_def)
  with Cons.IH show ?case by (simp add: chars_of_def bytes_of_def)
qed

section \<open>Bytes of a wider word\<close>

definition hi8 :: "u16 \<Rightarrow> u8" where
  "hi8 w = ucast (drop_bit 8 w)"

definition lo8 :: "u16 \<Rightarrow> u8" where
  "lo8 w = ucast (w AND 0xFF)"

definition join8 :: "u8 \<Rightarrow> u8 \<Rightarrow> u16" where
  "join8 h l = push_bit 8 (ucast h) OR ucast l"

lemma and_255: "w AND 0xFF = take_bit 8 (w :: 'a :: len word)"
  by (simp add: take_bit_eq_mask mask_eq_exp_minus_1)

lemma bit_u8_high [simp]: "8 \<le> n \<Longrightarrow> \<not> bit (b :: u8) n"
  by (auto dest: bit_imp_le_length)

lemma join8_hi_lo [simp]: "join8 (hi8 w) (lo8 w) = w"
  by (rule bit_word_eqI) (auto simp: join8_def hi8_def lo8_def and_255 bit_simps)

lemma hi8_join8 [simp]: "hi8 (join8 h l) = h"
  by (rule bit_word_eqI) (auto simp: join8_def hi8_def bit_simps)

lemma lo8_join8 [simp]: "lo8 (join8 h l) = l"
  by (rule bit_word_eqI) (auto simp: join8_def lo8_def and_255 bit_simps)

lemma take_bit_word_small: "unat (a :: 'a :: len word) < 2 ^ n \<Longrightarrow> take_bit n a = a"
  by (simp add: word_unat_eq_iff unsigned_take_bit_eq take_bit_nat_eq_self)

section \<open>Exclusive-or sums\<close>

definition xor_sum :: "bytes \<Rightarrow> u8" where
  "xor_sum bs = fold (XOR) bs 0"

lemma fold_xor: "fold (XOR) bs (c :: u8) = c XOR fold (XOR) bs 0"
proof (induction bs arbitrary: c)
  case Nil
  then show ?case by simp
next
  case (Cons b bs)
  have "fold (XOR) (b # bs) c = (b XOR c) XOR fold (XOR) bs 0"
    using Cons.IH [of "b XOR c"] by simp
  moreover have "fold (XOR) (b # bs) 0 = b XOR fold (XOR) bs 0"
    using Cons.IH [of b] by simp
  ultimately show ?case by (simp add: ac_simps)
qed

lemma xor_sum_Nil [simp]: "xor_sum [] = 0"
  by (simp add: xor_sum_def)

lemma xor_sum_Cons [simp]: "xor_sum (b # bs) = b XOR xor_sum bs"
  by (simp add: xor_sum_def fold_xor [of bs b])

lemma xor_sum_append [simp]: "xor_sum (as @ bs) = xor_sum as XOR xor_sum bs"
  by (induction as) (simp_all add: ac_simps)

lemma xor_cancel_left: "(a :: u8) XOR b = a XOR c \<longleftrightarrow> b = c"
  by (metis xor.assoc xor_self_eq xor.left_neutral)

lemma xor_sum_update:
  assumes "i < length bs"
  shows "xor_sum (bs[i := b]) = xor_sum bs \<longleftrightarrow> b = bs ! i"
proof -
  have split: "bs = take i bs @ bs ! i # drop (Suc i) bs"
    using assms by (rule id_take_nth_drop)
  have upd: "bs[i := b] = take i bs @ b # drop (Suc i) bs"
    using assms by (rule upd_conv_take_nth_drop)
  have "xor_sum (bs[i := b]) = xor_sum bs \<longleftrightarrow>
      b XOR xor_sum (drop (Suc i) bs) = bs ! i XOR xor_sum (drop (Suc i) bs)"
    by (subst upd, subst split) (simp add: xor_cancel_left)
  also have "\<dots> \<longleftrightarrow> b = bs ! i"
    by (metis xor_cancel_left xor.commute)
  finally show ?thesis .
qed

section \<open>C strings\<close>

text \<open>
  A C string is modelled by its characters up to the terminator. \<open>snprintf(out, n, "%s", s)\<close> and
  \<open>strncpy\<close> followed by a terminator both keep the first \<open>n - 1\<close> characters.
\<close>

definition cstr :: "bytes \<Rightarrow> bytes" where
  "cstr bs = takeWhile (\<lambda>b. b \<noteq> 0) bs"

definition c_copy :: "nat \<Rightarrow> string \<Rightarrow> string" where
  [model_simps]: "c_copy n s = take (n - 1) s"

definition strneq :: "nat \<Rightarrow> string \<Rightarrow> string \<Rightarrow> bool" where
  [model_simps]: "strneq n s t \<longleftrightarrow> take n s = take n t"

definition c_lower :: "char \<Rightarrow> char" where
  "c_lower c = (let n = of_char c :: nat in if 65 \<le> n \<and> n \<le> 90 then char_of (n + 32) else c)"

definition strcaseeq :: "string \<Rightarrow> string \<Rightarrow> bool" where
  "strcaseeq s t \<longleftrightarrow> map c_lower s = map c_lower t"

definition isspace :: "char \<Rightarrow> bool" where
  "isspace c \<longleftrightarrow> (let n = of_char c :: nat in n = 32 \<or> 9 \<le> n \<and> n \<le> 13)"

definition isprint_byte :: "u8 \<Rightarrow> bool" where
  "isprint_byte b \<longleftrightarrow> 32 \<le> b \<and> b \<le> 126"

definition isxdigit :: "char \<Rightarrow> bool" where
  "isxdigit c \<longleftrightarrow> (let n = of_char c :: nat in
     48 \<le> n \<and> n \<le> 57 \<or> 65 \<le> n \<and> n \<le> 70 \<or> 97 \<le> n \<and> n \<le> 102)"

text \<open>Numbers as \<open>printf\<close> writes them in decimal.\<close>

definition digit_char :: "nat \<Rightarrow> char" where
  "digit_char n = char_of (if n < 10 then 48 + n else 87 + n)"

fun dec_str :: "nat \<Rightarrow> string" where
  "dec_str n = (if n < 10 then [digit_char n] else dec_str (n div 10) @ [digit_char (n mod 10)])"

declare dec_str.simps [simp del]

text \<open>\<open>strstr\<close>: the index of the first occurrence in a string without its terminator.\<close>

fun strstr :: "'a list \<Rightarrow> 'a list \<Rightarrow> nat option" where
  "strstr needle [] = (if needle = [] then Some 0 else None)"
| "strstr needle (h # hs) =
     (if take (length needle) (h # hs) = needle then Some 0 else map_option Suc (strstr needle hs))"

lemma length_c_copy [simp]: "length (c_copy n s) = min (length s) (n - 1)"
  by (simp add: c_copy_def)

lemma c_copy_id: "length s < n \<Longrightarrow> c_copy n s = s"
  by (simp add: c_copy_def)

lemma strcaseeq_refl [simp]: "strcaseeq s s"
  by (simp add: strcaseeq_def)

lemma strstr_skip:
  assumes "\<And>i. i < length pre \<Longrightarrow> take (length needle) (drop i (pre @ needle @ post)) \<noteq> needle"
  shows "strstr needle (pre @ needle @ post) = Some (length pre)"
  using assms
proof (induction pre)
  case Nil
  have "take (length needle) (needle @ post) = needle" by simp
  then show ?case by (cases "needle @ post") (auto simp del: append_eq_conv_conj)
next
  case (Cons h pre)
  have "strstr needle (pre @ needle @ post) = Some (length pre)"
    using Cons.prems [of "Suc i" for i] by (intro Cons.IH) fastforce
  moreover have "take (length needle) (h # pre @ needle @ post) \<noteq> needle"
    using Cons.prems [of 0] by simp
  ultimately show ?case by simp
qed

lemma strstr_head_free:
  assumes "needle = h # ht" "h \<notin> set pre"
  shows "strstr needle (pre @ needle @ post) = Some (length pre)"
proof (rule strstr_skip)
  fix i assume i: "i < length pre"
  then have "drop i (pre @ needle @ post) = pre ! i # drop (Suc i) pre @ needle @ post"
    by (simp add: Cons_nth_drop_Suc)
  moreover have "pre ! i \<noteq> h" using assms(2) i nth_mem by metis
  ultimately show "take (length needle) (drop i (pre @ needle @ post)) \<noteq> needle"
    using assms(1) by simp
qed

section \<open>Machines that emit outputs\<close>

text \<open>
  A component that consumes one input at a time is a step function returning the next state and
  the outputs of the step; \<open>run_out\<close> feeds it a list of inputs.
\<close>

fun run_out :: "('s \<Rightarrow> 'e \<Rightarrow> 's \<times> 'o list) \<Rightarrow> 's \<Rightarrow> 'e list \<Rightarrow> 's \<times> 'o list" where
  "run_out f s [] = (s, [])"
| "run_out f s (e # es) =
     (let (s1, os1) = f s e; (s2, os2) = run_out f s1 es in (s2, os1 @ os2))"

lemma run_out_append:
  "run_out f s (es @ fs) =
     (let (s1, os1) = run_out f s es; (s2, os2) = run_out f s1 fs in (s2, os1 @ os2))"
  by (induction es arbitrary: s) (simp_all add: Let_def split: prod.splits)

text \<open>The contract several components share: every step keeps an invariant.\<close>

locale invariant_machine =
  fixes step :: "'s \<Rightarrow> 'e \<Rightarrow> 's \<times> 'o list"
    and inv :: "'s \<Rightarrow> bool"
  assumes step_inv: "inv s \<Longrightarrow> inv (fst (step s e))"
begin

lemma run_inv: "inv s \<Longrightarrow> inv (fst (run_out step s es))"
proof (induction es arbitrary: s)
  case Nil
  then show ?case by simp
next
  case (Cons e es)
  from Cons.prems have "inv (fst (step s e))" by (rule step_inv)
  then have "inv (fst (run_out step (fst (step s e)) es))" by (rule Cons.IH)
  then show ?case by (cases "step s e") (simp add: Let_def case_prod_beta)
qed

text \<open>The invariant holds at every prefix of the run, not only at its end.\<close>

lemma run_prefix_inv: "inv s \<Longrightarrow> inv (fst (run_out step s (take n es)))"
  by (rule run_inv)

end

text \<open>
  The same for a step that may access memory out of bounds: \<open>None\<close> is undefined behaviour,
  after which nothing more is claimed of the run.
\<close>

fun run_opt :: "('s \<Rightarrow> 'e \<Rightarrow> ('s \<times> 'o list) option) \<Rightarrow> 's \<Rightarrow> 'e list \<Rightarrow> ('s \<times> 'o list) option" where
  "run_opt f s [] = Some (s, [])"
| "run_opt f s (e # es) =
     (case f s e of None \<Rightarrow> None
      | Some (s1, os1) \<Rightarrow>
          (case run_opt f s1 es of None \<Rightarrow> None | Some (s2, os2) \<Rightarrow> Some (s2, os1 @ os2)))"

lemma run_opt_append:
  "run_opt f s (es @ fs) =
     (case run_opt f s es of None \<Rightarrow> None
      | Some (s1, os1) \<Rightarrow>
          (case run_opt f s1 fs of None \<Rightarrow> None | Some (s2, os2) \<Rightarrow> Some (s2, os1 @ os2)))"
  by (induction es arbitrary: s) (auto split: option.splits)

lemma run_opt_appendI:
  "run_opt f s es = Some (s1, os1) \<Longrightarrow> run_opt f s1 fs = Some (s2, os2) \<Longrightarrow>
     run_opt f s (es @ fs) = Some (s2, os1 @ os2)"
  by (simp add: run_opt_append)

lemma run_opt_total: "run_opt (\<lambda>s e. Some (f s e)) s es = Some (run_out f s es)"
  by (induction es arbitrary: s) (auto simp: Let_def split: prod.splits)

locale partial_machine =
  fixes pstep :: "'s \<Rightarrow> 'e \<Rightarrow> ('s \<times> 'o list) option"
    and pinv :: "'s \<Rightarrow> bool"
  assumes pstep_inv: "pinv s \<Longrightarrow> pstep s e = Some (s', os) \<Longrightarrow> pinv s'"
begin

lemma prun_inv: "pinv s \<Longrightarrow> run_opt pstep s es = Some (s', os) \<Longrightarrow> pinv s'"
proof (induction es arbitrary: s os)
  case Nil
  then show ?case by simp
next
  case (Cons e es)
  from Cons.prems(2) obtain s1 os1 os2 where "pstep s e = Some (s1, os1)"
    and "run_opt pstep s1 es = Some (s', os2)"
    by (auto split: option.splits)
  then show ?case using Cons.prems(1) Cons.IH pstep_inv by blast
qed

end

sublocale invariant_machine \<subseteq> partial_machine "\<lambda>s e. Some (step s e)" inv
  by unfold_locales (metis fst_conv option.inject step_inv)

text \<open>
  A message format read by such a machine: from a \<open>ready\<close> state the encoding of one acceptable
  message is consumed whole, delivers exactly that message and leaves the machine ready.
\<close>

locale frame_codec =
  fixes cstep :: "'s \<Rightarrow> 'b \<Rightarrow> ('s \<times> 'm list) option"
    and enc :: "'m \<Rightarrow> 'b list"
    and ready :: "'s \<Rightarrow> bool"
    and ok :: "'m \<Rightarrow> bool"
  assumes enc_run: "ready s \<Longrightarrow> ok m \<Longrightarrow> \<exists>s'. run_opt cstep s (enc m) = Some (s', [m]) \<and> ready s'"
begin

lemma stream_run:
  "ready s \<Longrightarrow> \<forall>m \<in> set ms. ok m \<Longrightarrow>
     \<exists>s'. run_opt cstep s (concat (map enc ms)) = Some (s', ms) \<and> ready s'"
proof (induction ms arbitrary: s)
  case Nil
  then show ?case by simp
next
  case (Cons m ms)
  obtain s1 where s1: "run_opt cstep s (enc m) = Some (s1, [m])" "ready s1"
    using enc_run [of s m] Cons.prems by auto
  obtain s2 where "run_opt cstep s1 (concat (map enc ms)) = Some (s2, ms)" "ready s2"
    using Cons.IH [OF s1(2)] Cons.prems by auto
  with s1 show ?case by (auto intro!: exI [of _ s2] simp: run_opt_append)
qed

text \<open>So two streams with the same bytes carry the same messages.\<close>

lemma stream_inj:
  assumes "ready s" "\<forall>m \<in> set ms. ok m" "\<forall>m \<in> set ns. ok m"
    and "concat (map enc ms) = concat (map enc ns)"
  shows "ms = ns"
proof -
  obtain s1 where s1: "run_opt cstep s (concat (map enc ms)) = Some (s1, ms)"
    using stream_run [OF assms(1,2)] by blast
  obtain s2 where s2: "run_opt cstep s (concat (map enc ns)) = Some (s2, ns)"
    using stream_run [OF assms(1,3)] by blast
  have "Some (s1, ms) = Some (s2, ns)"
    by (rule trans [OF s1 [symmetric]]) (subst assms(4), rule s2)
  then show ?thesis by blast
qed

end

section \<open>Byte readers\<close>

text \<open>
  The loop \<open>while ((n = read(ctx, buf, sizeof(buf))) > 0) process(buf, n)\<close> that the converters
  and the upload task share. It need not end for an arbitrary reader, so its result is an option;
  a reader that hands out a finite rest in non-empty pieces makes it end.
\<close>

partial_function (option) read_loop ::
    "('r \<Rightarrow> nat \<Rightarrow> bytes \<times> 'r) \<Rightarrow> nat \<Rightarrow> ('s \<Rightarrow> bytes \<Rightarrow> 's) \<Rightarrow> 'r \<Rightarrow> 's \<Rightarrow> ('r \<times> 's) option" where
  "read_loop rd n f r s =
     (if fst (rd r n) = [] then Some (snd (rd r n), s)
      else read_loop rd n f (snd (rd r n)) (f s (fst (rd r n))))"

locale byte_reader =
  fixes rd :: "'r \<Rightarrow> nat \<Rightarrow> bytes \<times> 'r"
    and rest :: "'r \<Rightarrow> bytes"
    and rok :: "'r \<Rightarrow> bool"
  assumes rd_split: "rok r \<Longrightarrow> rest r = fst (rd r n) @ rest (snd (rd r n))"
    and rd_ok: "rok r \<Longrightarrow> rok (snd (rd r n))"
    and rd_bound: "rok r \<Longrightarrow> length (fst (rd r n)) \<le> n"
    and rd_progress: "rok r \<Longrightarrow> 0 < n \<Longrightarrow> fst (rd r n) = [] \<Longrightarrow> rest r = []"
begin

text \<open>
  The loop ends, and when the processing step does not care how the bytes are cut it has seen
  exactly the rest of the reader.
\<close>

lemma read_loop_fold:
  assumes "rok r" "0 < n" and "\<And>s. f s [] = s" and "\<And>s xs ys. f (f s xs) ys = f s (xs @ ys)"
  shows "\<exists>r'. read_loop rd n f r s = Some (r', f s (rest r)) \<and> rest r' = []"
  using assms(1)
proof (induction "length (rest r)" arbitrary: r s rule: less_induct)
  case less
  let ?bs = "fst (rd r n)" and ?r = "snd (rd r n)"
  have split: "rest r = ?bs @ rest ?r" by (rule rd_split [OF less.prems])
  show ?case
  proof (cases "?bs = []")
    case True
    then have "rest r = []" "rest ?r = []" using rd_progress [OF less.prems assms(2)] split by auto
    with True show ?thesis by (subst read_loop.simps) (simp add: assms(3))
  next
    case False
    then have "length (rest ?r) < length (rest r)" by (subst split) simp
    from less.hyps [OF this rd_ok [OF less.prems], of "f s ?bs"] obtain r' where
      "read_loop rd n f ?r (f s ?bs) = Some (r', f (f s ?bs) (rest ?r))" "rest r' = []" by blast
    moreover have "f (f s ?bs) (rest ?r) = f s (rest r)"
      unfolding assms(4) split [symmetric] by simp
    ultimately show ?thesis using False by (subst read_loop.simps) simp
  qed
qed

end

section \<open>Lists\<close>

lemma list_update_take_drop:
  "i < length xs \<Longrightarrow> take (Suc i) (xs[i := x]) = take i xs @ [x]"
  by (simp add: take_Suc_conv_app_nth)

lemma unat_of_nat_small: "n < 2 ^ LENGTH('a) \<Longrightarrow> unat (of_nat n :: 'a :: len word) = n"
  by (simp add: unat_of_nat take_bit_nat_eq_self)

lemma unat_u8_lt [simp]: "unat (b :: u8) < 256"
  using unsigned_less [of b, where ?'a = nat] by simp


text \<open>Writing a block into a byte array that grows as needed, the gap filled with zero.\<close>

definition write_at :: "bytes \<Rightarrow> nat \<Rightarrow> bytes \<Rightarrow> bytes" where
  "write_at d off ds = take off d @ replicate (off - length d) 0 @ ds @ drop (off + length ds) d"

lemma length_write_at [simp]: "length (write_at d off ds) = max (length d) (off + length ds)"
  by (auto simp: write_at_def)

lemma nth_write_at:
  "i < length (write_at d off ds) \<Longrightarrow> write_at d off ds ! i =
     (if off \<le> i \<and> i < off + length ds then ds ! (i - off)
      else if i < length d then d ! i else 0)"
  by (auto simp: write_at_def nth_append min_def)

end
