(* ===== verification/Packet.thy ===== *)
theory Packet
  imports Prelude
begin

text \<open>
  The product packet that carries every BLE command (\<open>packet.h\<close>, \<open>packet.c\<close>): the receiving state
  machine \<open>ProductPacket_ParserPacket\<close>, the sender \<open>ProductPacket_PacketSendByUART\<close>, and the two
  functions of \<open>ble_gatt_server.c\<close> at either end, which hand a parsed packet to the command
  handler and a response to the sender. A write past the 200 byte receive buffer is \<open>None\<close>.
\<close>

section \<open>Data\<close>

datatype product_status =
    PRODUCT_STATUS_STX_U | PRODUCT_STATUS_STX_L | PRODUCT_STATUS_LEN | PRODUCT_STATUS_DATA
  | PRODUCT_STATUS_CRC | PRODUCT_STATUS_ETX | PRODUCT_STATUS_MAX

definition PRODUCT_STX_UPPER :: u8 where [model_simps]: "PRODUCT_STX_UPPER = 0xFF"
definition PRODUCT_STX_LOWER :: u8 where [model_simps]: "PRODUCT_STX_LOWER = 0xFE"
definition PRODUCT_ETX :: u8 where [model_simps]: "PRODUCT_ETX = 0x03"
definition PRODUCT_COMM_BUFF_SIZE :: nat where [model_simps]: "PRODUCT_COMM_BUFF_SIZE = 200"

record product_packet =
  rBuff :: bytes
  Status :: product_status
  Length :: u8
  rCount :: u8
  Crc :: u8

section \<open>Operations\<close>

definition ProductPacket_Init :: product_packet where
  "ProductPacket_Init = \<lparr>rBuff = replicate PRODUCT_COMM_BUFF_SIZE 0, Status = PRODUCT_STATUS_STX_U,
     Length = 0, rCount = 0, Crc = 0\<rparr>"

text \<open>
  One received byte. The flag of the result says that \<open>pf_parsing\<close> was called on the packet.
\<close>

definition ProductPacket_ParserPacket :: "product_packet \<Rightarrow> u8 \<Rightarrow> (product_packet \<times> bool) option" where
  "ProductPacket_ParserPacket p rData =
     (case Status p of
        PRODUCT_STATUS_STX_U \<Rightarrow>
          Some (if rData = PRODUCT_STX_UPPER then p\<lparr>Status := PRODUCT_STATUS_STX_L\<rparr> else p, False)
      | PRODUCT_STATUS_STX_L \<Rightarrow>
          Some (if rData = PRODUCT_STX_LOWER then p\<lparr>Status := PRODUCT_STATUS_LEN\<rparr>
                else p\<lparr>Status := PRODUCT_STATUS_STX_L\<rparr>, False)
      | PRODUCT_STATUS_LEN \<Rightarrow>
          Some (p\<lparr>Length := rData, rBuff := replicate PRODUCT_COMM_BUFF_SIZE 0, rCount := 0,
                  Crc := 0, Status := PRODUCT_STATUS_DATA\<rparr>, False)
      | PRODUCT_STATUS_DATA \<Rightarrow>
          (if PRODUCT_COMM_BUFF_SIZE \<le> unat (rCount p) then None
           else let p1 = p\<lparr>rBuff := (rBuff p)[unat (rCount p) := rData],
                           rCount := rCount p + 1, Crc := Crc p XOR rData\<rparr>
                in Some (if Length p1 \<le> rCount p1 then p1\<lparr>Status := PRODUCT_STATUS_CRC\<rparr> else p1,
                         False))
      | PRODUCT_STATUS_CRC \<Rightarrow>
          Some (if Crc p = rData then p\<lparr>Status := PRODUCT_STATUS_ETX\<rparr>
                else p\<lparr>Status := PRODUCT_STATUS_STX_U\<rparr>, False)
      | PRODUCT_STATUS_ETX \<Rightarrow> Some (p\<lparr>Status := PRODUCT_STATUS_STX_U\<rparr>, rData = PRODUCT_ETX)
      | PRODUCT_STATUS_MAX \<Rightarrow> Some (p\<lparr>Status := PRODUCT_STATUS_STX_U\<rparr>, False))"

text \<open>The callback: the command word and the payload of a packet, handed to the command handler.\<close>

definition ble_parsing_packet :: "product_packet \<Rightarrow> (u16 \<times> bytes) list" where
  "ble_parsing_packet p =
     (if Length p < 2 then []
      else [(join8 (rBuff p ! 0) (rBuff p ! 1), take (unat (Length p) - 2) (drop 2 (rBuff p)))])"

text \<open>Parser and callback together, and the GATT handler, whose write branch feeds at most 512 bytes
  of a written value to the parser.\<close>

definition packet_step :: "product_packet \<Rightarrow> u8 \<Rightarrow> (product_packet \<times> (u16 \<times> bytes) list) option" where
  "packet_step p b =
     (case ProductPacket_ParserPacket p b of None \<Rightarrow> None
      | Some (p', called) \<Rightarrow> Some (p', if called then ble_parsing_packet p' else []))"

datatype gatt_op =
    BLE_GATT_ACCESS_OP_READ_CHR | BLE_GATT_ACCESS_OP_WRITE_CHR | BLE_GATT_ACCESS_OP_OTHER

definition ble_svc_gatt_handler ::
    "gatt_op \<Rightarrow> product_packet \<Rightarrow> bytes \<Rightarrow> (product_packet \<times> (u16 \<times> bytes) list) option" where
  "ble_svc_gatt_handler oper p om =
     (case oper of
        BLE_GATT_ACCESS_OP_WRITE_CHR \<Rightarrow> run_opt packet_step p (take 512 om)
      | _ \<Rightarrow> Some (p, []))"

text \<open>The sender; \<open>malloc_ok\<close> says whether the packet buffer could be allocated.\<close>

definition ProductPacket_PacketSendByUART :: "bool \<Rightarrow> u16 \<Rightarrow> bytes \<Rightarrow> u8 \<Rightarrow> bytes option" where
  "ProductPacket_PacketSendByUART malloc_ok cmd buff sz =
     (if \<not> malloc_ok then None
      else let data = take (unat sz) buff;
               crc = fold (\<lambda>b c. c XOR b) data (hi8 cmd XOR lo8 cmd)
           in Some ([PRODUCT_STX_UPPER, PRODUCT_STX_LOWER, sz + 2, hi8 cmd, lo8 cmd] @ data @
                    [crc, PRODUCT_ETX]))"

definition ble_gatt_server_send_packet :: "bool \<Rightarrow> u16 \<Rightarrow> bytes \<Rightarrow> bytes option" where
  "ble_gatt_server_send_packet malloc_ok cmd payload =
     ProductPacket_PacketSendByUART malloc_ok cmd payload (of_nat (length payload))"

text \<open>Every open connection is notified.\<close>

definition ble_send_package :: "u16 list \<Rightarrow> bytes \<Rightarrow> (u16 \<times> bytes) list" where
  "ble_send_package handles pbuff = map (\<lambda>h. (h, pbuff)) (filter (\<lambda>h. h \<noteq> 0) handles)"

section \<open>The receiver, phase by phase\<close>

definition packet_wf :: "product_packet \<Rightarrow> bool" where
  "packet_wf p \<longleftrightarrow> length (rBuff p) = PRODUCT_COMM_BUFF_SIZE"

definition packet_ready :: "product_packet \<Rightarrow> bool" where
  "packet_ready p \<longleftrightarrow> packet_wf p \<and> Status p = PRODUCT_STATUS_STX_U"

lemmas packet_step_defs = packet_step_def ProductPacket_ParserPacket_def Let_def

lemma packet_step_wf: "packet_wf p \<Longrightarrow> packet_step p b = Some (p', os) \<Longrightarrow> packet_wf p'"
  by (auto simp: packet_step_defs packet_wf_def split: product_status.splits option.splits if_splits)

interpretation packet: partial_machine packet_step packet_wf
  by unfold_locales (rule packet_step_wf)

lemma fold_xor_flip: "fold (\<lambda>b c. c XOR b) bs (c :: u8) = c XOR xor_sum bs"
  by (induction bs arbitrary: c) (simp_all add: ac_simps)

text \<open>Bytes that are not the first start byte are skipped while waiting for a packet.\<close>

lemma run_noise:
  "Status p = PRODUCT_STATUS_STX_U \<Longrightarrow> PRODUCT_STX_UPPER \<notin> set ns \<Longrightarrow>
     run_opt packet_step p ns = Some (p, [])"
  by (induction ns) (auto simp: packet_step_defs)

text \<open>The three header bytes.\<close>

definition after_header :: "product_packet \<Rightarrow> u8 \<Rightarrow> product_packet" where
  "after_header p len = p\<lparr>Length := len, rBuff := replicate PRODUCT_COMM_BUFF_SIZE 0, rCount := 0,
     Crc := 0, Status := PRODUCT_STATUS_DATA\<rparr>"

lemma run_header:
  "Status p = PRODUCT_STATUS_STX_U \<Longrightarrow>
     run_opt packet_step p [PRODUCT_STX_UPPER, PRODUCT_STX_LOWER, len] = Some (after_header p len, [])"
  by (simp add: packet_step_defs after_header_def)

text \<open>The data phase: exactly the announced bytes are stored and summed.\<close>

definition after_data :: "product_packet \<Rightarrow> bytes \<Rightarrow> product_packet" where
  "after_data p ds = p\<lparr>
     rBuff := take (unat (rCount p)) (rBuff p) @ ds @ drop (unat (rCount p) + length ds) (rBuff p),
     rCount := rCount p + of_nat (length ds), Crc := Crc p XOR xor_sum ds,
     Status := if unat (Length p) \<le> unat (rCount p) + length ds then PRODUCT_STATUS_CRC
               else PRODUCT_STATUS_DATA\<rparr>"

lemma unat_rCount_Suc:
  assumes "unat (c :: u8) + n < 256"
  shows "unat (c + of_nat n) = unat c + n"
  using assms by (simp add: unat_word_ariths unat_of_nat take_bit_eq_mod)

lemma after_data_one:
  assumes "Status p = PRODUCT_STATUS_DATA" "packet_wf p" "unat (rCount p) < 200"
    "unat (rCount p) < unat (Length p)"
  shows "packet_step p d = Some (after_data p [d], [])"
proof -
  have r: "unat (rCount p + 1) = unat (rCount p) + 1"
    using assms(3) unat_rCount_Suc [of "rCount p" 1] by simp
  have u: "(rBuff p)[unat (rCount p) := d] =
      take (unat (rCount p)) (rBuff p) @ d # drop (Suc (unat (rCount p))) (rBuff p)"
    using assms(2,3) by (intro upd_conv_take_nth_drop) (simp add: packet_wf_def model_simps)
  show ?thesis
    using assms(1,3) r
    by (simp add: packet_step_defs after_data_def model_simps u word_le_nat_alt)
qed

lemma after_data_wf:
  "packet_wf p \<Longrightarrow> unat (rCount p) + length ds \<le> 200 \<Longrightarrow> packet_wf (after_data p ds)"
  by (simp add: packet_wf_def after_data_def model_simps)

lemma after_data_append:
  assumes "packet_wf p" "unat (rCount p) + length ds + length es \<le> 200"
    "unat (rCount p) + length ds < unat (Length p)"
  shows "after_data (after_data p ds) es = after_data p (ds @ es)"
proof -
  have r: "unat (rCount p + of_nat (length ds)) = unat (rCount p) + length ds"
    using assms(2) by (intro unat_rCount_Suc) simp
  have w: "length (rBuff p) = 200"
    using assms(1) by (simp add: packet_wf_def model_simps)
  show ?thesis
    using assms(2) w by (simp add: after_data_def r ac_simps)
qed

lemma run_data:
  assumes "Status p = PRODUCT_STATUS_DATA" "packet_wf p" "ds \<noteq> []"
    "unat (rCount p) + length ds \<le> unat (Length p)" "unat (rCount p) + length ds \<le> 200"
  shows "run_opt packet_step p ds = Some (after_data p ds, [])"
  using assms
proof (induction ds arbitrary: p)
  case Nil
  then show ?case by simp
next
  case (Cons d ds)
  let ?p = "after_data p [d]"
  have one: "packet_step p d = Some (?p, [])"
    using Cons.prems by (intro after_data_one) auto
  show ?case
  proof (cases "ds = []")
    case True
    then show ?thesis using one by simp
  next
    case False
    then have l: "unat (rCount p) + 1 < unat (Length p)"
      using Cons.prems(4) by (cases ds) simp_all
    have r: "unat (rCount ?p) = unat (rCount p) + 1"
      using Cons.prems unat_rCount_Suc [of "rCount p" 1] by (simp add: after_data_def)
    have "run_opt packet_step ?p ds = Some (after_data ?p ds, [])"
    proof (rule Cons.IH)
      show "Status ?p = PRODUCT_STATUS_DATA"
        using l by (simp add: after_data_def)
      show "packet_wf ?p" using Cons.prems by (intro after_data_wf) auto
      show "ds \<noteq> []" by fact
      show "unat (rCount ?p) + length ds \<le> unat (Length ?p)"
        unfolding r using Cons.prems by (simp add: after_data_def)
      show "unat (rCount ?p) + length ds \<le> 200"
        unfolding r using Cons.prems by simp
    qed
    moreover have "after_data ?p ds = after_data p (d # ds)"
      using after_data_append [of p "[d]" ds] Cons.prems l by simp
    ultimately show ?thesis using one by simp
  qed
qed

text \<open>Header and data together: the packet after a complete data part.\<close>

definition received :: "product_packet \<Rightarrow> bytes \<Rightarrow> product_packet" where
  "received p ds = p\<lparr>Length := of_nat (length ds), Crc := xor_sum ds, rCount := of_nat (length ds),
     rBuff := ds @ replicate (PRODUCT_COMM_BUFF_SIZE - length ds) 0, Status := PRODUCT_STATUS_CRC\<rparr>"

lemma run_header_data:
  assumes "Status p = PRODUCT_STATUS_STX_U" "ds \<noteq> []" "length ds \<le> 200"
  shows "run_opt packet_step p ([PRODUCT_STX_UPPER, PRODUCT_STX_LOWER, of_nat (length ds)] @ ds) =
    Some (received p ds, [])"
proof -
  let ?h = "after_header p (of_nat (length ds))"
  have u: "unat (of_nat (length ds) :: u8) = length ds"
    using assms(3) by (intro unat_of_nat_small) simp
  have "run_opt packet_step ?h ds = Some (after_data ?h ds, [])"
    using assms(2,3) u by (intro run_data) (simp_all add: after_header_def packet_wf_def)
  moreover have "after_data ?h ds = received p ds"
    using u assms(3) by (simp add: after_data_def after_header_def received_def)
  ultimately show ?thesis
    using run_opt_appendI [OF run_header [OF assms(1)], of "of_nat (length ds)" ds] by simp
qed

lemma ble_parsing_received:
  assumes "2 \<le> length ds" "length ds \<le> 200"
  shows "ble_parsing_packet (received p ds\<lparr>Status := s\<rparr>) = [(join8 (ds ! 0) (ds ! 1), drop 2 ds)]"
proof -
  have u: "unat (of_nat (length ds) :: u8) = length ds"
    using assms(2) by (intro unat_of_nat_small) simp
  have "\<not> (of_nat (length ds) :: u8) < 2"
    using assms u by (simp add: word_less_nat_alt)
  moreover have "ds \<noteq> []" using assms(1) by auto
  ultimately show ?thesis using assms
    by (simp add: ble_parsing_packet_def received_def u nth_append)
qed

text \<open>
  The two closing bytes: only the matching checksum followed by the end byte delivers the packet,
  and every other outcome returns to waiting without a delivery.
\<close>

lemma run_close:
  assumes "2 \<le> length ds" "length ds \<le> 200"
  shows "run_opt packet_step (received p ds) [c, PRODUCT_ETX] =
    Some (received p ds\<lparr>Status := PRODUCT_STATUS_STX_U\<rparr>,
      if c = xor_sum ds then [(join8 (ds ! 0) (ds ! 1), drop 2 ds)] else [])"
  using ble_parsing_received [OF assms]
  by (auto simp: packet_step_defs model_simps received_def)

lemma received_ready:
  "length ds \<le> 200 \<Longrightarrow> packet_ready (received p ds\<lparr>Status := PRODUCT_STATUS_STX_U\<rparr>)"
  by (simp add: packet_ready_def packet_wf_def received_def model_simps)

lemma run_frame:
  assumes "packet_ready p" "2 \<le> length ds" "length ds \<le> 200"
  shows "run_opt packet_step p
      ([PRODUCT_STX_UPPER, PRODUCT_STX_LOWER, of_nat (length ds)] @ ds @ [c, PRODUCT_ETX]) =
    Some (received p ds\<lparr>Status := PRODUCT_STATUS_STX_U\<rparr>,
      if c = xor_sum ds then [(join8 (ds ! 0) (ds ! 1), drop 2 ds)] else [])"
proof -
  have "run_opt packet_step p ([PRODUCT_STX_UPPER, PRODUCT_STX_LOWER, of_nat (length ds)] @ ds) =
      Some (received p ds, [])"
    using assms by (intro run_header_data) (auto simp: packet_ready_def)
  from run_opt_appendI [OF this run_close [OF assms(2,3)]] show ?thesis by simp
qed

section \<open>Sender and receiver together\<close>

definition frame_of :: "u16 \<times> bytes \<Rightarrow> bytes" where
  "frame_of m = (case ble_gatt_server_send_packet True (fst m) (snd m) of None \<Rightarrow> [] | Some bs \<Rightarrow> bs)"

definition frame_data :: "u16 \<Rightarrow> bytes \<Rightarrow> bytes" where
  "frame_data cmd payload = [hi8 cmd, lo8 cmd] @ take (length payload mod 256) payload"

lemma send_packet_frame:
  assumes "length payload mod 256 \<le> 198"
  shows "ble_gatt_server_send_packet True cmd payload =
    Some ([PRODUCT_STX_UPPER, PRODUCT_STX_LOWER, of_nat (length (frame_data cmd payload))] @
          frame_data cmd payload @ [xor_sum (frame_data cmd payload), PRODUCT_ETX])"
proof -
  let ?n = "length payload mod 256"
  have u: "unat (of_nat (length payload) :: u8) = ?n"
    by (simp add: unat_of_nat take_bit_eq_mod)
  have n: "?n \<le> length payload" by (rule mod_less_eq_dividend)
  have "(of_nat (length payload) :: u8) = of_nat ?n"
    by (rule word_unat_eq_iff [THEN iffD2]) (simp add: unat_of_nat take_bit_eq_mod)
  then have hdr: "(of_nat (length payload) :: u8) + 2 = of_nat (length (frame_data cmd payload))"
    using n by (simp add: frame_data_def min_absorb2)
  have crc: "fold (\<lambda>b c. c XOR b) (take ?n payload) (hi8 cmd XOR lo8 cmd) =
      xor_sum (frame_data cmd payload)"
    unfolding fold_xor_flip by (simp add: frame_data_def xor.assoc)
  show ?thesis
    unfolding ble_gatt_server_send_packet_def ProductPacket_PacketSendByUART_def u Let_def crc hdr
    by (simp add: frame_data_def)
qed

lemma run_send_packet:
  assumes "packet_ready p" "length payload mod 256 \<le> 198"
  shows "\<exists>p'. run_opt packet_step p (frame_of (cmd, payload)) =
    Some (p', [(cmd, take (length payload mod 256) payload)]) \<and> packet_ready p'"
proof -
  let ?ds = "frame_data cmd payload"
  have len: "2 \<le> length ?ds" "length ?ds \<le> 200"
    using assms(2) by (simp_all add: frame_data_def)
  have m: "(join8 (?ds ! 0) (?ds ! 1), drop 2 ?ds) = (cmd, take (length payload mod 256) payload)"
    by (simp add: frame_data_def)
  show ?thesis
    using run_frame [OF assms(1) len, of "xor_sum ?ds"] m received_ready [OF len(2)]
    by (auto simp: frame_of_def send_packet_frame [OF assms(2)])
qed

interpretation packet: frame_codec packet_step frame_of packet_ready "\<lambda>m. length (snd m) \<le> 198"
proof
  fix p :: product_packet and m :: "u16 \<times> bytes"
  assume "packet_ready p" and l: "length (snd m) \<le> 198"
  moreover have "length (snd m) mod 256 = length (snd m)" using l by simp
  ultimately show "\<exists>p'. run_opt packet_step p (frame_of m) = Some (p', [m]) \<and> packet_ready p'"
    using run_send_packet [of p "snd m" "fst m"] by simp
qed


section \<open>Properties\<close>

lemma gatt_writes_run:
  "run_opt (ble_svc_gatt_handler BLE_GATT_ACCESS_OP_WRITE_CHR) p cs = run_opt packet_step p (concat (map (take 512) cs))"
  by (induction cs arbitrary: p)
    (auto simp: ble_svc_gatt_handler_def run_opt_append split: option.splits)

lemma map_take_id: "\<forall>c \<in> set cs. length c \<le> n \<Longrightarrow> map (take n) cs = cs"
  by (simp add: map_idI)

lemma run_noisy_frames:
  assumes "packet_ready p"
    and "\<forall>(ns, m) \<in> set items. PRODUCT_STX_UPPER \<notin> set ns \<and> length (snd m) \<le> 198"
  shows "\<exists>p'. run_opt packet_step p (concat (map (\<lambda>(ns, m). ns @ frame_of m) items)) =
    Some (p', map snd items) \<and> packet_ready p'"
  using assms
proof (induction items arbitrary: p)
  case Nil
  then show ?case by simp
next
  case (Cons item items)
  obtain ns m where item: "item = (ns, m)" by (cases item)
  have n: "run_opt packet_step p ns = Some (p, [])"
    using Cons.prems item by (intro run_noise) (auto simp: packet_ready_def)
  obtain p1 where f: "run_opt packet_step p (frame_of m) = Some (p1, [m])" "packet_ready p1"
    using packet.enc_run [OF Cons.prems(1), of m] Cons.prems(2) item by auto
  obtain p2 where r: "run_opt packet_step p1 (concat (map (\<lambda>(ns, m). ns @ frame_of m) items)) =
      Some (p2, map snd items)" "packet_ready p2"
    using Cons.IH [OF f(2)] Cons.prems(2) by auto
  have "run_opt packet_step p (ns @ frame_of m) = Some (p1, [m])"
    using run_opt_appendI [OF n f(1)] by simp
  from run_opt_appendI [OF this r(1)] r(2) show ?case
    by (auto simp: item)
qed

lemma ProductPacket_Init_ready: "packet_ready ProductPacket_Init"
  by (simp add: packet_ready_def packet_wf_def ProductPacket_Init_def)

text \<open>C1: The sender and the receiver agree. However the bytes of a sequence of packets built by
  \<open>ble_gatt_server_send_packet\<close> (payloads of at most 198 bytes), with noise free of the first start
  byte before each, are cut into GATT writes of at most 512 bytes, the receiver started by
  \<open>ProductPacket_Init\<close> hands over exactly the sent commands and payloads, in order, and is ready
  for the next packet.\<close>

theorem packet_stream_delivered:
  assumes "\<forall>(ns, m) \<in> set items. PRODUCT_STX_UPPER \<notin> set ns \<and> length (snd m) \<le> 198"
    and "\<forall>c \<in> set chunks. length c \<le> 512"
    and "concat chunks = concat (map (\<lambda>(ns, m). ns @ frame_of m) items)"
  shows "\<exists>p'. run_opt (ble_svc_gatt_handler BLE_GATT_ACCESS_OP_WRITE_CHR) ProductPacket_Init chunks =
    Some (p', map snd items) \<and> packet_ready p'"
  unfolding gatt_writes_run map_take_id [OF assms(2)] assms(3)
  by (rule run_noisy_frames [OF ProductPacket_Init_ready assms(1)])

lemma packet_stream_delivered_witness:
  "\<exists>p'. run_opt (ble_svc_gatt_handler BLE_GATT_ACCESS_OP_WRITE_CHR) ProductPacket_Init
     [[0x11, 0xFF, 0xFE], [0x03, 0x12], [0x34, 0x07, 0x21, 0x03]] =
    Some (p', [(0x1234, [0x07])]) \<and> packet_ready p'"
proof -
  have f: "frame_of (0x1234, [0x07]) = [0xFF, 0xFE, 0x03, 0x12, 0x34, 0x07, 0x21, 0x03]"
    by (simp add: frame_of_def ble_gatt_server_send_packet_def model_simps hi8_def lo8_def
        ProductPacket_PacketSendByUART_def and_255 drop_bit_eq_div take_bit_eq_mod)
  show ?thesis
    using packet_stream_delivered [of "[([0x11], (0x1234, [0x07]))]"
        "[[0x11, 0xFF, 0xFE], [0x03, 0x12], [0x34, 0x07, 0x21, 0x03]]"] f
    by (simp add: model_simps)
qed

lemma frame_update:
  assumes "3 \<le> i" "i < 3 + length ds" "hdr = [a, b, c]"
  shows "(hdr @ ds @ rest)[i := x] = hdr @ ds[i - 3 := x] @ rest"
    "(hdr @ ds @ rest) ! i = ds ! (i - 3)"
proof -
  have h: "length hdr = 3" "\<not> i < 3" "i - 3 < length ds" using assms by simp_all
  then show "(hdr @ ds @ rest)[i := x] = hdr @ ds[i - 3 := x] @ rest"
    unfolding list_update_append by simp
  show "(hdr @ ds @ rest) ! i = ds ! (i - 3)"
    unfolding nth_append using h by simp
qed

text \<open>C2: One corrupted byte in the command, payload or checksum field of a packet of up to 198
  payload bytes is always noticed: nothing is delivered and the receiver is ready again after the
  packet.\<close>

theorem packet_corruption_detected:
  assumes "packet_ready p" "length payload \<le> 198"
    and "3 \<le> i" "i < length (frame_of (cmd, payload)) - 1" "b \<noteq> frame_of (cmd, payload) ! i"
  shows "\<exists>p'. run_opt packet_step p ((frame_of (cmd, payload))[i := b]) = Some (p', []) \<and>
    packet_ready p'"
proof -
  define ds where "ds = frame_data cmd payload"
  have m: "length payload mod 256 = length payload" using assms(2) by simp
  have len: "2 \<le> length ds" "length ds \<le> 200"
    using assms(2) m by (simp_all add: ds_def frame_data_def)
  have fr: "frame_of (cmd, payload) = [PRODUCT_STX_UPPER, PRODUCT_STX_LOWER, of_nat (length ds)] @
      ds @ [xor_sum ds, PRODUCT_ETX]"
    using send_packet_frame [of payload cmd] m assms(2) by (simp add: frame_of_def ds_def)
  show ?thesis
  proof (cases "i < 3 + length ds")
    case True
    let ?es = "ds[i - 3 := b]"
    have "frame_of (cmd, payload) ! i = ds ! (i - 3)"
      unfolding fr by (rule frame_update(2) [OF assms(3) True refl])
    then have "xor_sum ?es \<noteq> xor_sum ds"
      using xor_sum_update [of "i - 3" ds b] True assms(3,5) by auto
    moreover have "(frame_of (cmd, payload))[i := b] =
        [PRODUCT_STX_UPPER, PRODUCT_STX_LOWER, of_nat (length ?es)] @ ?es @ [xor_sum ds, PRODUCT_ETX]"
      unfolding fr using frame_update(1) [OF assms(3) True refl] by simp
    ultimately show ?thesis
      using run_frame [OF assms(1), of ?es "xor_sum ds"] received_ready [of ?es] len by simp
  next
    case False
    then have i: "i = 3 + length ds" using assms(4) by (simp add: fr)
    have "b \<noteq> xor_sum ds" using assms(5) by (simp add: fr i nth_append)
    moreover have "(frame_of (cmd, payload))[i := b] =
        [PRODUCT_STX_UPPER, PRODUCT_STX_LOWER, of_nat (length ds)] @ ds @ [b, PRODUCT_ETX]"
      unfolding fr i by (simp add: list_update_append)
    ultimately show ?thesis
      using run_frame [OF assms(1) len, of b] received_ready [OF len(2)] by simp
  qed
qed

lemma packet_corruption_detected_witness:
  "\<exists>p'. run_opt packet_step ProductPacket_Init ((frame_of (0x1234, [0x07]))[5 := 0x08]) =
     Some (p', []) \<and> packet_ready p'"
proof (rule packet_corruption_detected [OF ProductPacket_Init_ready])
  show "length [0x07 :: u8] \<le> 198" "(3 :: nat) \<le> 5" by simp_all
  show "5 < length (frame_of (0x1234, [0x07])) - 1" "(0x08 :: u8) \<noteq> frame_of (0x1234, [0x07]) ! 5"
    by (simp_all add: frame_of_def ble_gatt_server_send_packet_def model_simps
        ProductPacket_PacketSendByUART_def)
qed

lemma after_header_wf: "packet_wf (after_header p len)"
  by (simp add: packet_wf_def after_header_def)

text \<open>The receive buffer overflows exactly for long announced lengths. After a header announcing
  \<open>L\<close> bytes, of the first \<open>L\<close> data bytes the receiver can store 200: the 201st is written past
  \<open>rBuff\<close>, and no shorter data part is.\<close>

theorem packet_overflow_boundary:
  assumes "packet_ready p" "length ds \<le> unat L"
  shows "run_opt packet_step p ([PRODUCT_STX_UPPER, PRODUCT_STX_LOWER, L] @ ds) = None \<longleftrightarrow>
    200 < length ds"
proof -
  let ?h = "after_header p L"
  have h: "run_opt packet_step p [PRODUCT_STX_UPPER, PRODUCT_STX_LOWER, L] = Some (?h, [])"
    using assms(1) by (intro run_header) (simp add: packet_ready_def)
  have short: "run_opt packet_step ?h es = Some (after_data ?h es, [])"
    if "es \<noteq> []" "length es \<le> unat L" "length es \<le> 200" for es
    using that by (intro run_data after_header_wf) (simp_all add: after_header_def)
  show ?thesis
  proof (cases "length ds \<le> 200")
    case True
    then have "run_opt packet_step ?h ds \<noteq> None"
      using short [of ds] assms(2) by (cases "ds = []") auto
    with True h show ?thesis by (auto simp: run_opt_append split: option.splits)
  next
    case False
    let ?es = "take 200 ds"
    obtain d rest where rest: "drop 200 ds = d # rest"
      using False by (metis drop_eq_Nil list.exhaust)
    have "?es \<noteq> []" using False by auto
    then have run: "run_opt packet_step ?h ?es = Some (after_data ?h ?es, [])"
      using False assms(2) by (intro short) auto
    have "packet_step (after_data ?h ?es) d = None"
      using False assms(2) by (simp add: packet_step_defs after_data_def after_header_def model_simps)
    then have "run_opt packet_step ?h (?es @ d # rest) = None"
      by (simp only: run_opt_append run option.case prod.case) simp
    moreover have "ds = ?es @ d # rest" using rest by (metis append_take_drop_id)
    ultimately have "run_opt packet_step ?h ds = None" by metis
    with False h show ?thesis by (simp add: run_opt_append del: append_Cons append_Nil)
  qed
qed

lemma packet_overflow_boundary_witness:
  "run_opt packet_step ProductPacket_Init
     ([PRODUCT_STX_UPPER, PRODUCT_STX_LOWER, 0xFF] @ replicate 201 0x41) = None \<longleftrightarrow>
   200 < length (replicate 201 (0x41 :: u8))"
  by (rule packet_overflow_boundary [OF ProductPacket_Init_ready]) simp

text \<open>A payload of 256 bytes or more is cut, not refused: its length is passed as a \<open>uint8_t\<close>, so
  the receiver gets the first \<open>length mod 256\<close> bytes of it (here for remainders of at most 198, which
  the receiver can store).\<close>

theorem packet_long_payload_cut:
  assumes "packet_ready p" "length payload mod 256 \<le> 198"
  shows "\<exists>p'. run_opt packet_step p (frame_of (cmd, payload)) =
    Some (p', [(cmd, take (length payload mod 256) payload)]) \<and> packet_ready p'"
  by (rule run_send_packet [OF assms])

lemma packet_long_payload_cut_witness:
  "\<exists>p'. run_opt packet_step ProductPacket_Init (frame_of (0x1234, replicate 300 1)) =
     Some (p', [(0x1234, replicate 44 1)]) \<and> packet_ready p'"
  using packet_long_payload_cut [OF ProductPacket_Init_ready, of "replicate 300 1" "0x1234"] by simp

end
