(* ===== verification/Intel_Hex.thy ===== *)
theory Intel_Hex
  imports Prelude
begin

text \<open>
  Intel HEX to binary: the incremental record reader of \<open>utils/ihex_read.c\<close> (its state \<open>ihex.h\<close>), and
  the converter \<open>utils/ihex2bin.c\<close> on top of it, into a memory image that grows at both ends or
  into a sink. The reader calls \<open>ihex_data_read\<close> for every record, here a parameter \<open>cb\<close> that
  threads the converter's context.
\<close>

section \<open>Reader state\<close>

record ihex_state =
  ih_address :: u32
  ih_segment :: u16
  ih_flags :: u8
  ih_line_length :: u8
  ih_length :: u8
  ih_data :: bytes

definition IHEX_DATA_RECORD :: u8 where [model_simps]: "IHEX_DATA_RECORD = 0"
definition IHEX_END_OF_FILE_RECORD :: u8 where [model_simps]: "IHEX_END_OF_FILE_RECORD = 1"
definition IHEX_EXTENDED_SEGMENT_ADDRESS_RECORD :: u8 where
  [model_simps]: "IHEX_EXTENDED_SEGMENT_ADDRESS_RECORD = 2"
definition IHEX_EXTENDED_LINEAR_ADDRESS_RECORD :: u8 where
  [model_simps]: "IHEX_EXTENDED_LINEAR_ADDRESS_RECORD = 4"

definition IHEX_READ_RECORD_TYPE_MASK :: u8 where [model_simps]: "IHEX_READ_RECORD_TYPE_MASK = 0x07"
definition IHEX_READ_STATE_MASK :: u8 where [model_simps]: "IHEX_READ_STATE_MASK = 0x78"

text \<open>\<open>enum ihex_read_state\<close>, kept in bits 3 to 6 of the flags.\<close>

definition READ_WAIT_FOR_START :: u8 where [model_simps]: "READ_WAIT_FOR_START = 0"
definition READ_COUNT_HIGH :: u8 where [model_simps]: "READ_COUNT_HIGH = 1"
definition READ_COUNT_LOW :: u8 where [model_simps]: "READ_COUNT_LOW = 2"
definition READ_ADDRESS_MSB_LOW :: u8 where [model_simps]: "READ_ADDRESS_MSB_LOW = 4"
definition READ_ADDRESS_LSB_LOW :: u8 where [model_simps]: "READ_ADDRESS_LSB_LOW = 6"
definition READ_RECORD_TYPE_LOW :: u8 where [model_simps]: "READ_RECORD_TYPE_LOW = 8"
definition READ_DATA_HIGH :: u8 where [model_simps]: "READ_DATA_HIGH = 9"
definition READ_DATA_LOW :: u8 where [model_simps]: "READ_DATA_LOW = 10"

text \<open>
  \<open>ihex_begin_read\<close> leaves the data array as it finds it; \<open>IHEX_LINEAR_ADDRESS\<close> keeps 24 bits.
\<close>

definition ihex_begin_read :: "ihex_state \<Rightarrow> ihex_state" where
  "ihex_begin_read ih = ih\<lparr>ih_address := 0, ih_segment := 0, ih_flags := 0, ih_line_length := 0,
     ih_length := 0\<rparr>"

definition ihex_read_at_address :: "ihex_state \<Rightarrow> u32 \<Rightarrow> ihex_state" where
  "ihex_read_at_address ih a = (ihex_begin_read ih)\<lparr>ih_address := a\<rparr>"

definition ihex_read_at_segment :: "ihex_state \<Rightarrow> u16 \<Rightarrow> ihex_state" where
  "ihex_read_at_segment ih sg = (ihex_begin_read ih)\<lparr>ih_segment := sg\<rparr>"

definition IHEX_LINEAR_ADDRESS :: "ihex_state \<Rightarrow> u32" where
  "IHEX_LINEAR_ADDRESS ih = (ih_address ih + push_bit 4 (ucast (ih_segment ih))) AND 0xFFFFFF"

section \<open>Reader operations\<close>

type_synonym 'c ihex_cb = "ihex_state \<Rightarrow> u8 \<Rightarrow> u8 \<Rightarrow> 'c \<Rightarrow> bool \<times> 'c"

text \<open>
  The checksum byte stands behind the data. Sums are taken modulo 256, which is what the cast to
  \<open>uint8_t\<close> keeps of the wider sum.
\<close>

definition ihex_checksum :: "ihex_state \<Rightarrow> u8 \<Rightarrow> u8" where
  "ihex_checksum ih type =
     (let n = unat (ih_length ih);
          start = ih_length ih + type + ucast (ih_address ih AND 0xFF) +
                  ucast (drop_bit 8 (ih_address ih) AND 0xFF)
      in (NOT (fold (+) (take n (ih_data ih)) start) + 1) XOR ih_data ih ! n)"

text \<open>What a record does to the reader; \<open>ok\<close> is the answer of the callback.\<close>

definition ihex_record_effect :: "bool \<Rightarrow> u8 \<Rightarrow> ihex_state \<Rightarrow> ihex_state" where
  "ihex_record_effect ok type ih =
     (let ih1 = (if \<not> ok then ih
                 else if type = IHEX_EXTENDED_LINEAR_ADDRESS_RECORD then
                   ih\<lparr>ih_address := (ih_address ih AND 0xFFFF) OR
                        push_bit 24 (ucast (ih_data ih ! 0)) OR
                        push_bit 16 (ucast (ih_data ih ! 1))\<rparr>
                 else if type = IHEX_EXTENDED_SEGMENT_ADDRESS_RECORD then
                   ih\<lparr>ih_segment := join8 (ih_data ih ! 0) (ih_data ih ! 1)\<rparr>
                 else ih)
      in ih1\<lparr>ih_length := 0, ih_flags := 0\<rparr>)"

definition ihex_end_read :: "'c ihex_cb \<Rightarrow> ihex_state \<times> 'c \<Rightarrow> ihex_state \<times> 'c" where
  "ihex_end_read cb ihc =
     (let ih = fst ihc; type = ih_flags ih AND IHEX_READ_RECORD_TYPE_MASK
      in if ih_length ih = 0 \<and> type = IHEX_DATA_RECORD then ihc
         else let r = cb ih type (ihex_checksum ih type) (snd ihc)
              in (ihex_record_effect (fst r) type ih, snd r))"

definition hex_digit :: "u8 \<Rightarrow> u8 option" where
  "hex_digit b =
     (if byte_of CHR ''0'' \<le> b \<and> b \<le> byte_of CHR ''9'' then Some (b - byte_of CHR ''0'')
      else if byte_of CHR ''A'' \<le> b \<and> b \<le> byte_of CHR ''F'' then Some (b - (byte_of CHR ''A'' - 10))
      else if byte_of CHR ''a'' \<le> b \<and> b \<le> byte_of CHR ''f'' then Some (b - (byte_of CHR ''a'' - 10))
      else None)"

text \<open>The label \<open>save_read_state\<close>.\<close>

definition save_read_state :: "u8 \<Rightarrow> ihex_state \<times> 'c \<Rightarrow> ihex_state \<times> 'c" where
  "save_read_state state ihc =
     ((fst ihc)\<lparr>ih_flags := ih_flags (fst ihc) OR push_bit 3 state\<rparr>, snd ihc)"

text \<open>The \<open>switch (state >> 1)\<close> after the low digit of the field byte \<open>b\<close>.\<close>

definition ihex_read_field ::
    "'c ihex_cb \<Rightarrow> u8 \<Rightarrow> u8 \<Rightarrow> u8 \<Rightarrow> ihex_state \<times> 'c \<Rightarrow> ihex_state \<times> 'c" where
  "ihex_read_field cb state len b ihc =
     (let ih = fst ihc; c = snd ihc; field = drop_bit 1 state
      in if field = drop_bit 1 READ_COUNT_LOW then
           save_read_state state (ih\<lparr>ih_line_length := b\<rparr>, c)
         else if field = drop_bit 1 READ_ADDRESS_MSB_LOW then
           save_read_state state
             (ih\<lparr>ih_address := (ih_address ih AND 0xFFFF0000) OR push_bit 8 (ucast b)\<rparr>, c)
         else if field = drop_bit 1 READ_ADDRESS_LSB_LOW then
           save_read_state state (ih\<lparr>ih_address := ih_address ih OR ucast b\<rparr>, c)
         else if field = drop_bit 1 READ_RECORD_TYPE_LOW then
           if b AND NOT IHEX_READ_RECORD_TYPE_MASK \<noteq> 0 then ihc
           else save_read_state state
             (ih\<lparr>ih_flags := (ih_flags ih AND NOT IHEX_READ_RECORD_TYPE_MASK) OR b\<rparr>, c)
         else if field = drop_bit 1 READ_DATA_LOW then
           if len < ih_line_length ih then
             save_read_state READ_DATA_HIGH (ih\<lparr>ih_length := len + 1\<rparr>, c)
           else save_read_state READ_WAIT_FOR_START (ihex_end_read cb ihc)
         else ihc)"

definition ihex_read_byte :: "'c ihex_cb \<Rightarrow> ihex_state \<times> 'c \<Rightarrow> u8 \<Rightarrow> ihex_state \<times> 'c" where
  "ihex_read_byte cb ihc byte =
     (let len = ih_length (fst ihc);
          bits = ih_flags (fst ihc) AND IHEX_READ_STATE_MASK;
          ih = (fst ihc)\<lparr>ih_flags := ih_flags (fst ihc) XOR bits\<rparr>;
          c = snd ihc;
          state = drop_bit 3 bits
      in case hex_digit byte of
           None \<Rightarrow>
             if byte = byte_of CHR '':'' then
               save_read_state READ_COUNT_HIGH (ihex_end_read cb (ih, c))
             else save_read_state state (ih, c)
         | Some d \<Rightarrow>
             if (state + 1) AND 1 = 0 then
               save_read_state (state + 1)
                 (ih\<lparr>ih_data := (ih_data ih)[unat len := push_bit 4 d]\<rparr>, c)
             else let b = ih_data ih ! unat len OR d
                  in ihex_read_field cb (state + 1) len b
                       (ih\<lparr>ih_data := (ih_data ih)[unat len := b]\<rparr>, c))"

definition ihex_read_bytes :: "'c ihex_cb \<Rightarrow> ihex_state \<times> 'c \<Rightarrow> bytes \<Rightarrow> ihex_state \<times> 'c" where
  "ihex_read_bytes cb = foldl (ihex_read_byte cb)"

section \<open>Converter\<close>

text \<open>
  The conversion context. \<open>None\<close> is the NULL buffer; with a sink, \<open>cv_sink\<close> is the sink's own state.
  \<open>realloc_ok n\<close> says whether a buffer of \<open>n\<close> bytes can be had.
\<close>

record 'k ihex2bin_ctx =
  cv_data :: "bytes option"
  cv_base_addr :: u32
  cv_has_base :: bool
  cv_has_error :: bool
  cv_use_sink :: bool
  cv_sink :: 'k

type_synonym 'k ihex2bin_sink_fn = "u32 \<Rightarrow> bytes \<Rightarrow> 'k \<Rightarrow> esp_err \<times> 'k"

definition cv_bytes :: "'k ihex2bin_ctx \<Rightarrow> bytes" where
  "cv_bytes c = (case cv_data c of None \<Rightarrow> [] | Some d \<Rightarrow> d)"

definition ihex2bin_expand_front ::
    "(nat \<Rightarrow> bool) \<Rightarrow> 'k ihex2bin_ctx \<Rightarrow> u32 \<Rightarrow> esp_err \<times> 'k ihex2bin_ctx" where
  "ihex2bin_expand_front realloc_ok c new_base =
     (case cv_data c of
        None \<Rightarrow> (ESP_ERR_INVALID_STATE, c)
      | Some d \<Rightarrow>
          if cv_base_addr c \<le> new_base then (ESP_OK, c)
          else let delta = unat (cv_base_addr c - new_base)
               in if \<not> realloc_ok (length d + delta) then (ESP_ERR_NO_MEM, c)
                  else (ESP_OK, c\<lparr>cv_data := Some (replicate delta 0 @ d),
                                  cv_base_addr := new_base\<rparr>))"

definition ihex2bin_ensure_capacity ::
    "(nat \<Rightarrow> bool) \<Rightarrow> 'k ihex2bin_ctx \<Rightarrow> nat \<Rightarrow> esp_err \<times> 'k ihex2bin_ctx" where
  "ihex2bin_ensure_capacity realloc_ok c required =
     (let d = cv_bytes c
      in if required \<le> length d then (ESP_OK, c)
         else if \<not> realloc_ok required then (ESP_ERR_NO_MEM, c)
         else (ESP_OK, c\<lparr>cv_data := Some (d @ replicate (required - length d) 0)\<rparr>))"

definition cv_fail :: "'k ihex2bin_ctx \<Rightarrow> bool \<times> 'k ihex2bin_ctx" where
  "cv_fail c = (False, c\<lparr>cv_has_error := True\<rparr>)"

text \<open>The data record branch of \<open>ihex_data_read\<close>, then the whole callback.\<close>

definition ihex_data_record :: "(nat \<Rightarrow> bool) \<Rightarrow> 'k ihex2bin_sink_fn \<Rightarrow> u32 \<Rightarrow> bytes \<Rightarrow>
    'k ihex2bin_ctx \<Rightarrow> bool \<times> 'k ihex2bin_ctx" where
  "ihex_data_record realloc_ok sink address ds c =
     (let (r, c1) = (if \<not> cv_has_base c then
                       (ESP_OK, c\<lparr>cv_base_addr := address, cv_has_base := True\<rparr>)
                     else if address < cv_base_addr c then
                       if cv_use_sink c then (ESP_FAIL, c)
                       else ihex2bin_expand_front realloc_ok c address
                     else (ESP_OK, c))
      in if r \<noteq> ESP_OK then cv_fail c1
         else let offset = address - cv_base_addr c1
              in if cv_use_sink c1 then
                   let (e, k) = sink offset ds (cv_sink c1); c2 = c1\<lparr>cv_sink := k\<rparr>
                   in if e \<noteq> ESP_OK then cv_fail c2 else (True, c2)
                 else let (e, c2) = ihex2bin_ensure_capacity realloc_ok c1 (unat offset + length ds)
                      in if e \<noteq> ESP_OK then cv_fail c2
                         else (True, c2\<lparr>cv_data := Some (write_at (cv_bytes c2) (unat offset) ds)\<rparr>))"

definition ihex_data_read ::
    "(nat \<Rightarrow> bool) \<Rightarrow> 'k ihex2bin_sink_fn \<Rightarrow> 'k ihex2bin_ctx ihex_cb" where
  "ihex_data_read realloc_ok sink ih type checksum_mismatch c =
     (if checksum_mismatch \<noteq> 0 then cv_fail c
      else if ih_length ih < ih_line_length ih then cv_fail c
      else if type = IHEX_DATA_RECORD then
        ihex_data_record realloc_ok sink (IHEX_LINEAR_ADDRESS ih)
          (take (unat (ih_length ih)) (ih_data ih)) c
      else (True, c))"

text \<open>
  \<open>ihex2bin_convert\<close> and \<open>ihex2bin_convert_to_sink\<close>. The reader state is a local variable whose
  array starts with arbitrary contents \<open>junk\<close>. The option is the loop that need not end.
\<close>

record ihex2bin_result =
  res_data :: bytes
  res_base_addr :: u32

definition ihex_start :: "bytes \<Rightarrow> ihex_state" where
  "ihex_start junk = ihex_read_at_address \<lparr>ih_address = 0, ih_segment = 0, ih_flags = 0,
     ih_line_length = 0, ih_length = 0, ih_data = junk\<rparr> 0"

definition ihex2bin_ctx_init :: "bool \<Rightarrow> 'k \<Rightarrow> 'k ihex2bin_ctx" where
  "ihex2bin_ctx_init sink_used k = \<lparr>cv_data = None, cv_base_addr = 0, cv_has_base = False,
     cv_has_error = False, cv_use_sink = sink_used, cv_sink = k\<rparr>"

definition ihex2bin_convert ::
    "(nat \<Rightarrow> bool) \<Rightarrow> bytes \<Rightarrow> ('r \<Rightarrow> nat \<Rightarrow> bytes \<times> 'r) \<Rightarrow> 'r \<Rightarrow> (esp_err + ihex2bin_result) option" where
  "ihex2bin_convert realloc_ok junk read_fn r =
     (let cb = ihex_data_read realloc_ok (\<lambda>_ _ k. (ESP_FAIL, k))
      in case read_loop read_fn 256 (ihex_read_bytes cb) r
                (ihex_start junk, ihex2bin_ctx_init False ()) of
           None \<Rightarrow> None
         | Some (_, s) \<Rightarrow>
             let c = snd (ihex_end_read cb s)
             in Some (if cv_has_error c then Inl ESP_FAIL
                      else if \<not> cv_has_base c \<or> cv_bytes c = [] then Inl ESP_ERR_INVALID_SIZE
                      else Inr \<lparr>res_data = cv_bytes c, res_base_addr = cv_base_addr c\<rparr>))"

definition ihex2bin_convert_to_sink ::
    "bytes \<Rightarrow> ('r \<Rightarrow> nat \<Rightarrow> bytes \<times> 'r) \<Rightarrow> 'r \<Rightarrow> 'k ihex2bin_sink_fn \<Rightarrow> 'k \<Rightarrow> (esp_err \<times> 'k) option" where
  "ihex2bin_convert_to_sink junk read_fn r sink k =
     (let cb = ihex_data_read (\<lambda>_. True) sink
      in case read_loop read_fn 256 (ihex_read_bytes cb) r
                (ihex_start junk, ihex2bin_ctx_init True k) of
           None \<Rightarrow> None
         | Some (_, s) \<Rightarrow>
             let c = snd (ihex_end_read cb s)
             in Some (if cv_has_error c then ESP_FAIL else ESP_OK, cv_sink c))"

text \<open>The two readers and the file sink; a file opened for reading is its contents from the current
  position, and the output file is its contents.\<close>

record mem_reader =
  mr_data :: bytes
  mr_offset :: nat

definition ihex2bin_mem_read :: "mem_reader \<Rightarrow> nat \<Rightarrow> bytes \<times> mem_reader" where
  "ihex2bin_mem_read r len =
     (if length (mr_data r) \<le> mr_offset r then ([], r)
      else let remaining = length (mr_data r) - mr_offset r;
               to_copy = (if remaining < len then remaining else len)
           in (take to_copy (drop (mr_offset r) (mr_data r)), r\<lparr>mr_offset := mr_offset r + to_copy\<rparr>))"

definition ihex2bin_from_buffer ::
    "(nat \<Rightarrow> bool) \<Rightarrow> bytes \<Rightarrow> bytes \<Rightarrow> (esp_err + ihex2bin_result) option" where
  "ihex2bin_from_buffer realloc_ok junk d =
     (if d = [] then Some (Inl ESP_ERR_INVALID_ARG)
      else ihex2bin_convert realloc_ok junk ihex2bin_mem_read \<lparr>mr_data = d, mr_offset = 0\<rparr>)"

definition ihex2bin_file_read :: "bytes \<Rightarrow> nat \<Rightarrow> bytes \<times> bytes" where
  "ihex2bin_file_read f len = (take len f, drop len f)"

definition ihex2bin_file_sink :: "(u32 \<Rightarrow> bytes \<Rightarrow> nat option) \<Rightarrow> bytes ihex2bin_sink_fn" where
  "ihex2bin_file_sink io addr ds f =
     (if ds = [] then (ESP_ERR_INVALID_ARG, f)
      else case io addr ds of
             None \<Rightarrow> (ESP_FAIL, f)
           | Some wr \<Rightarrow> (if wr = length ds then ESP_OK else ESP_FAIL,
                         write_at f (unat addr) (take wr ds)))"

definition ihex2bin_file_to_file ::
    "(u32 \<Rightarrow> bytes \<Rightarrow> nat option) \<Rightarrow> bytes \<Rightarrow> bytes \<Rightarrow> bytes \<Rightarrow> (esp_err \<times> bytes) option" where
  "ihex2bin_file_to_file io junk fin fout =
     ihex2bin_convert_to_sink junk ihex2bin_file_read fin (ihex2bin_file_sink io) fout"

section \<open>Readers meet the reader contract\<close>

interpretation mem: byte_reader ihex2bin_mem_read "\<lambda>r. drop (mr_offset r) (mr_data r)" "\<lambda>_. True"
proof
  fix r :: mem_reader and n :: nat
  show "drop (mr_offset r) (mr_data r) = fst (ihex2bin_mem_read r n) @
      drop (mr_offset (snd (ihex2bin_mem_read r n))) (mr_data (snd (ihex2bin_mem_read r n)))"
  proof -
    have "drop (mr_offset r + k) (mr_data r) = drop k (drop (mr_offset r) (mr_data r))" for k
      by (simp add: add.commute)
    then show ?thesis by (simp add: ihex2bin_mem_read_def Let_def del: drop_drop)
  qed
  show "length (fst (ihex2bin_mem_read r n)) \<le> n"
    by (simp add: ihex2bin_mem_read_def Let_def)
  show "drop (mr_offset r) (mr_data r) = []" if "0 < n" "fst (ihex2bin_mem_read r n) = []"
    using that by (auto simp: ihex2bin_mem_read_def Let_def split: if_splits)
qed

interpretation input_file: byte_reader ihex2bin_file_read "\<lambda>f. f" "\<lambda>_. True"
  by unfold_locales (auto simp: ihex2bin_file_read_def)

section \<open>One line\<close>

definition hexd :: "u8 \<Rightarrow> u8" where
  "hexd n = (if n < 10 then byte_of CHR ''0'' + n else byte_of CHR ''A'' + (n - 10))"

definition hex2 :: "u8 \<Rightarrow> bytes" where
  "hex2 b = [hexd (drop_bit 4 b), hexd (b AND 15)]"

definition mk_flags :: "u8 \<Rightarrow> u8 \<Rightarrow> u8" where
  "mk_flags st ty = ty OR push_bit 3 st"

lemma masks: "(0x78 :: u8) = push_bit 3 (mask 4)" "(7 :: u8) = mask 3" "(15 :: u8) = mask 4"
  by (simp_all add: mask_eq_exp_minus_1)

lemma mk_flags_parts:
  assumes "ty < 8" "st < 16"
  shows "mk_flags st ty AND 0x78 = push_bit 3 st" "mk_flags st ty XOR push_bit 3 st = ty"
    "drop_bit 3 (push_bit 3 st) = st" "ty AND 7 = ty"
proof -
  have ty: "take_bit 3 ty = ty" using assms(1) by (intro take_bit_word_small) (simp add: word_less_nat_alt)
  have st: "take_bit 4 st = st" using assms(2) by (intro take_bit_word_small) (simp add: word_less_nat_alt)
  have bty: "\<not> bit ty n" if "3 \<le> n" for n
    using that by (subst ty [symmetric]) (simp add: bit_take_bit_iff)
  have bst: "n < 4" if "bit st n" for n
    using that by (subst (asm) st [symmetric]) (simp add: bit_take_bit_iff)
  show "mk_flags st ty AND 0x78 = push_bit 3 st"
    unfolding masks by (rule bit_word_eqI) (auto simp: mk_flags_def bit_simps bty dest: bst)
  show "mk_flags st ty XOR push_bit 3 st = ty"
    by (rule bit_word_eqI) (auto simp: mk_flags_def bit_simps bty)
  show "drop_bit 3 (push_bit 3 st) = st"
    by (rule bit_word_eqI) (auto simp: bit_simps dest: bst)
  show "ty AND 7 = ty"
    unfolding masks take_bit_eq_mask [symmetric] by (rule ty)
qed

lemma hex_digit_hexd:
  assumes "n < 16"
  shows "hex_digit (hexd n) = Some n"
proof (cases "n < 10")
  case True
  then have "unat n < 10" by (simp add: word_less_nat_alt)
  moreover from this have "unat (0x30 + n) = 48 + unat n"
    by (simp add: unat_word_ariths)
  ultimately show ?thesis using True
    by (simp add: hex_digit_def hexd_def model_simps word_le_nat_alt)
next
  case False
  then have n: "10 \<le> unat n" "unat n < 16" using assms by (simp_all add: word_less_nat_alt)
  then have u: "unat (n - 10) = unat n - 10" by (simp add: unat_sub word_le_nat_alt)
  then have "unat (0x41 + (n - 10)) = 55 + unat n"
    using n by (subst unat_word_ariths) (simp add: u)
  with n False show ?thesis
    by (simp add: hex_digit_def hexd_def model_simps word_le_nat_alt)
qed

lemma nibbles: "push_bit 4 (drop_bit 4 b) OR (b AND 15) = (b :: u8)"
  "drop_bit 4 b < (16 :: u8)" "(b AND 15) < (16 :: u8)"
proof -
  show "push_bit 4 (drop_bit 4 b) OR (b AND 15) = b"
    unfolding masks by (rule bit_word_eqI) (auto simp: bit_simps)
  have "unat (drop_bit 4 b) < 16"
    by (subst unsigned_drop_bit_eq) (simp add: drop_bit_eq_div div_less_iff_less_mult take_bit_eq_mod)
  then show "drop_bit 4 b < (16 :: u8)" by (simp add: word_less_nat_alt)
  have "unat (b AND 15) < 16"
    unfolding masks take_bit_eq_mask [symmetric] unsigned_take_bit_eq by (simp add: take_bit_eq_mod)
  then show "(b AND 15) < (16 :: u8)" by (simp add: word_less_nat_alt)
qed

text \<open>The two digits of a field byte: the byte is put together and its field is acted on.\<close>

lemma read_pair:
  assumes "ih_flags ih = mk_flags st ty" "ty < 8" "st \<in> {1, 3, 5, 7, 9}"
    "unat (ih_length ih) < length (ih_data ih)"
  shows "ihex_read_bytes cb (ih, c) (hex2 b) = ihex_read_field cb (st + 2) (ih_length ih) b
    (ih\<lparr>ih_flags := ty, ih_data := (ih_data ih)[unat (ih_length ih) := b]\<rparr>, c)"
proof -
  let ?i = "unat (ih_length ih)"
  define ih1 where "ih1 = ih\<lparr>ih_flags := mk_flags (st + 1) ty,
      ih_data := (ih_data ih)[?i := push_bit 4 (drop_bit 4 b)]\<rparr>"
  have st: "st < 16" "st + 1 < 16" "(st + 1) AND 1 = 0" "(st + 1 + 1) AND 1 \<noteq> 0"
    using assms(3) by auto
  have "ihex_read_byte cb (ih, c) (hexd (drop_bit 4 b)) = (ih1, c)"
    using mk_flags_parts [OF assms(2) st(1)] st(3)
    by (simp add: ihex_read_byte_def hex_digit_hexd [OF nibbles(2)] assms(1) save_read_state_def
        ih1_def model_simps mk_flags_def Let_def)
  moreover have "ihex_read_byte cb (ih1, c) (hexd (b AND 15)) = ihex_read_field cb (st + 2) (ih_length ih) b
    (ih\<lparr>ih_flags := ty, ih_data := (ih_data ih)[?i := b]\<rparr>, c)"
    using mk_flags_parts [OF assms(2) st(2)] st(4) assms(4) nibbles(1) [of b]
    by (simp add: ihex_read_byte_def hex_digit_hexd [OF nibbles(3)] save_read_state_def ih1_def
        model_simps Let_def add.assoc)
  ultimately show ?thesis by (simp add: ihex_read_bytes_def hex2_def)
qed


lemma ihex_read_bytes_append:
  "ihex_read_bytes cb s (xs @ ys) = ihex_read_bytes cb (ihex_read_bytes cb s xs) ys"
  by (simp add: ihex_read_bytes_def)

lemma ihex_read_bytes_Nil [simp]: "ihex_read_bytes cb s [] = s"
  by (simp add: ihex_read_bytes_def)

lemma read_data:
  assumes "ih_flags ih = mk_flags 9 ty" "ty < 8" "length (ih_data ih) = 256"
    "unat (ih_length ih) + length ds \<le> unat (ih_line_length ih)"
  shows "ihex_read_bytes cb (ih, c) (concat (map hex2 ds)) =
    (ih\<lparr>ih_length := ih_length ih + of_nat (length ds),
        ih_data := take (unat (ih_length ih)) (ih_data ih) @ ds @
                   drop (unat (ih_length ih) + length ds) (ih_data ih)\<rparr>, c)"
  using assms
proof (induction ds arbitrary: ih)
  case Nil
  then show ?case by simp
next
  case (Cons d ds)
  let ?n = "unat (ih_length ih)"
  have n: "?n < 255" using Cons.prems(4) unat_u8_lt [of "ih_line_length ih"] unfolding list.size by linarith
  then have Suc: "unat (ih_length ih + 1) = Suc ?n" by (simp add: unat_word_ariths)
  define ih1 where "ih1 = ih\<lparr>ih_length := ih_length ih + 1, ih_data := (ih_data ih)[?n := d]\<rparr>"
  have "ihex_read_bytes cb (ih, c) (hex2 d) = (ih1, c)"
    unfolding read_pair [of ih 9 ty, simplified, OF Cons.prems(1,2) less_le_trans [OF unat_u8_lt],
        OF eq_imp_le [OF Cons.prems(3) [symmetric]]]
    using Cons.prems(1,4)
    by (simp add: ihex_read_field_def model_simps save_read_state_def ih1_def Let_def
        word_less_nat_alt mk_flags_def)
  moreover have "ihex_read_bytes cb (ih1, c) (concat (map hex2 ds)) =
    (ih1\<lparr>ih_length := ih_length ih1 + of_nat (length ds),
        ih_data := take (unat (ih_length ih1)) (ih_data ih1) @ ds @
                   drop (unat (ih_length ih1) + length ds) (ih_data ih1)\<rparr>, c)"
    using Cons.prems Suc by (intro Cons.IH) (simp_all add: ih1_def)
  moreover have "take (Suc ?n) (ih_data ih1) = take ?n (ih_data ih) @ [d]"
    "drop (Suc ?n + length ds) (ih_data ih1) = drop (Suc ?n + length ds) (ih_data ih)"
    using n Cons.prems(3) by (simp_all add: ih1_def list_update_take_drop)
  ultimately show ?case
    by (simp add: ihex_read_bytes_append Suc) (simp add: ih1_def Suc add.assoc)
qed

text \<open>A whole line with data \<open>ds\<close> and checksum byte \<open>k\<close>, and the reader after it.\<close>

definition ihex_line :: "u8 \<Rightarrow> u16 \<Rightarrow> bytes \<Rightarrow> u8 \<Rightarrow> bytes" where
  "ihex_line type a ds k = [byte_of CHR '':''] @ hex2 (of_nat (length ds)) @ hex2 (hi8 a) @ hex2 (lo8 a) @
     hex2 type @ concat (map hex2 ds) @ hex2 k"

definition ihex_idle :: "ihex_state \<Rightarrow> bool" where
  "ihex_idle ih \<longleftrightarrow> ih_flags ih = 0 \<and> ih_length ih = 0 \<and> length (ih_data ih) = 256"

definition after_line :: "ihex_state \<Rightarrow> u8 \<Rightarrow> u16 \<Rightarrow> bytes \<Rightarrow> u8 \<Rightarrow> ihex_state" where
  "after_line ih type a ds k = ih\<lparr>ih_address := (ih_address ih AND 0xFFFF0000) OR ucast a,
     ih_flags := type, ih_line_length := of_nat (length ds), ih_length := of_nat (length ds),
     ih_data := ds @ k # drop (Suc (length ds)) (ih_data ih)\<rparr>"

lemma join_address: "push_bit 8 (ucast (hi8 a)) OR ucast (lo8 a) = (ucast a :: u32)"
proof (rule bit_word_eqI)
  fix n :: nat
  have "bit a n \<Longrightarrow> n < 16" using bit_imp_le_length [of a n] by simp
  then show "bit (push_bit 8 (ucast (hi8 a)) OR ucast (lo8 a) :: u32) n = bit (ucast a :: u32) n"
    by (auto simp: hi8_def lo8_def and_255 bit_simps)
qed

lemma type_fits:
  assumes "ty < 8"
  shows "ty AND NOT 7 = (0 :: u8)"
proof -
  have "ty AND NOT 7 = ty AND (7 AND NOT 7)"
    using mk_flags_parts(4) [OF assms, of 0] unfolding and.assoc [symmetric] by simp
  then show ?thesis by simp
qed

lemma read_header:
  assumes "ihex_idle ih" "type < 8"
  shows "ihex_read_bytes cb (ih, c)
      ([byte_of CHR '':''] @ hex2 n @ hex2 (hi8 a) @ hex2 (lo8 a) @ hex2 type) =
    (ih\<lparr>ih_address := (ih_address ih AND 0xFFFF0000) OR ucast a, ih_line_length := n,
        ih_flags := mk_flags 9 type, ih_data := (ih_data ih)[0 := type]\<rparr>, c)"
proof -
  have z: "ih_flags ih = 0" "ih_length ih = 0" "0 < length (ih_data ih)"
    using assms(1) by (simp_all add: ihex_idle_def)
  have m: "mk_flags st 0 = push_bit 3 st" for st by (simp add: mk_flags_def)
  define S where "S ad st ty n' d = ih\<lparr>ih_address := ad, ih_line_length := n',
      ih_flags := mk_flags st ty, ih_data := (ih_data ih)[0 := d]\<rparr>" for ad st ty n' d
  let ?a = "ih_address ih AND 0xFFFF0000"
  have pair: "ihex_read_bytes cb (S ad st 0 n' d, c) (hex2 b) = ihex_read_field cb (st + 2) 0 b
      (ih\<lparr>ih_address := ad, ih_line_length := n', ih_flags := 0, ih_data := (ih_data ih)[0 := b]\<rparr>, c)"
    if "st \<in> {1, 3, 5, 7, 9}" for ad st n' d b
    using read_pair [of "S ad st 0 n' d" st 0 cb c b] that z by (simp add: S_def)
  have 0: "ihex_read_byte cb (ih, c) (byte_of CHR '':'') =
      (S (ih_address ih) 1 0 (ih_line_length ih) (ih_data ih ! 0), c)"
    using z by (simp add: ihex_read_byte_def model_simps hex_digit_def ihex_end_read_def Let_def
        save_read_state_def S_def m)
  note field = ihex_read_field_def model_simps save_read_state_def Let_def S_def m mk_flags_def
  have 1: "ihex_read_bytes cb (S (ih_address ih) 1 0 (ih_line_length ih) d, c) (hex2 n) =
      (S (ih_address ih) 3 0 n n, c)" for d
    by (simp add: pair) (simp add: field)
  have 2: "ihex_read_bytes cb (S (ih_address ih) 3 0 n d, c) (hex2 (hi8 a)) =
      (S (?a OR push_bit 8 (ucast (hi8 a))) 5 0 n (hi8 a), c)" for d
    by (simp add: pair) (simp add: field)
  have 3: "ihex_read_bytes cb (S (?a OR push_bit 8 (ucast (hi8 a))) 5 0 n d, c) (hex2 (lo8 a)) =
      (S (?a OR ucast a) 7 0 n (lo8 a), c)" for d
    by (simp add: pair) (simp add: field or.assoc join_address)
  have 4: "ihex_read_bytes cb (S (?a OR ucast a) 7 0 n d, c) (hex2 type) =
      (S (?a OR ucast a) 9 type n type, c)" for d
    using type_fits [OF assms(2)] by (simp add: pair) (simp add: field)
  have "ihex_read_bytes cb (ih, c) [byte_of CHR '':''] =
      (S (ih_address ih) 1 0 (ih_line_length ih) (ih_data ih ! 0), c)"
    using 0 by (simp add: ihex_read_bytes_def)
  then show ?thesis
    by (simp only: ihex_read_bytes_append 1 2 3 4) (simp add: S_def)
qed


lemma drop_update_head:
  "j < length xs \<Longrightarrow> (drop j xs)[0 := x] = x # drop (Suc j) xs"
  "0 < length xs \<Longrightarrow> xs[0 := x] = x # drop (Suc 0) xs"
  by (simp_all add: Cons_nth_drop_Suc [symmetric]) (cases xs, simp_all)

text \<open>A line leads from an idle reader to \<open>ihex_end_read\<close> on the record it carries.\<close>

lemma read_line:
  assumes "ihex_idle ih" "type < 8" "length ds \<le> 255"
  shows "ihex_read_bytes cb (ih, c) (ihex_line type a ds k) =
    save_read_state READ_WAIT_FOR_START (ihex_end_read cb (after_line ih type a ds k, c))"
proof -
  define n :: u8 where "n = of_nat (length ds)"
  have n: "unat n = length ds"
    unfolding n_def using assms(3) by (intro unat_of_nat_small) simp
  have len: "length (ih_data ih) = 256" "ih_length ih = 0"
    using assms(1) by (simp_all add: ihex_idle_def)
  define ih1 where "ih1 = ih\<lparr>ih_address := (ih_address ih AND 0xFFFF0000) OR ucast a,
      ih_line_length := n, ih_flags := mk_flags 9 type, ih_data := (ih_data ih)[0 := type]\<rparr>"
  define ih2 where "ih2 = ih1\<lparr>ih_length := n, ih_data := ds @ drop (length ds) (ih_data ih1)\<rparr>"
  have "ihex_read_bytes cb (ih1, c) (concat (map hex2 ds)) = (ih2, c)"
    using read_data [of ih1 type ds cb c] assms(2) n len
    by (simp add: ih1_def ih2_def n_def)
  moreover have "ihex_read_bytes cb (ih2, c) (hex2 k) =
      ihex_read_field cb 11 n k (ih2\<lparr>ih_flags := type, ih_data := (ih_data ih2)[length ds := k]\<rparr>, c)"
    using read_pair [of ih2 9 type cb c k] assms(2,3) n len by (simp add: ih2_def ih1_def)
  moreover have "ih2\<lparr>ih_flags := type, ih_data := (ih_data ih2)[length ds := k]\<rparr> =
      after_line ih type a ds k"
  proof -
    have "(ih_data ih2)[length ds := k] = ds @ (drop (length ds) ((ih_data ih)[0 := type]))[0 := k]"
      by (simp add: ih2_def ih1_def list_update_append)
    also have "(drop (length ds) ((ih_data ih)[0 := type]))[0 := k] =
        k # drop (Suc (length ds)) (ih_data ih)"
      using assms(3) len by (cases "ds = []") (simp_all add: drop_update_cancel drop_update_head)
    finally show ?thesis
      by (cases ih) (simp add: ih2_def ih1_def after_line_def n_def)
  qed
  moreover have "ihex_line type a ds k =
      ([byte_of CHR '':''] @ hex2 n @ hex2 (hi8 a) @ hex2 (lo8 a) @ hex2 type) @
      concat (map hex2 ds) @ hex2 k"
    by (simp add: ihex_line_def n_def)
  moreover have "ihex_read_bytes cb (ih, c)
      ([byte_of CHR '':''] @ hex2 n @ hex2 (hi8 a) @ hex2 (lo8 a) @ hex2 type) = (ih1, c)"
    unfolding ih1_def by (rule read_header [OF assms(1,2)])
  moreover have "ihex_read_field cb 11 n k (after_line ih type a ds k, c) =
      save_read_state READ_WAIT_FOR_START (ihex_end_read cb (after_line ih type a ds k, c))"
    by (simp add: ihex_read_field_def model_simps after_line_def n_def)
  ultimately show ?thesis by (simp only: ihex_read_bytes_append)
qed

text \<open>The checksum of a line, and what \<open>ihex_end_read\<close> does with the record.\<close>

definition record_sum :: "u8 \<Rightarrow> u16 \<Rightarrow> bytes \<Rightarrow> u8" where
  "record_sum type a ds = of_nat (length ds) + type + lo8 a + hi8 a + sum_list ds"

lemma fold_plus: "fold (+) ds (x :: u8) = x + sum_list ds"
  by (induction ds arbitrary: x) (simp_all add: ac_simps)

lemma address_bytes:
  "ucast (((x AND 0xFFFF0000) OR ucast a) AND 0xFF) = lo8 a"
  "ucast (drop_bit 8 ((x AND 0xFFFF0000) OR ucast a) AND 0xFF) = hi8 (a :: u16)" for x :: u32
proof -
  have m: "(0xFFFF0000 :: u32) = push_bit 16 (mask 16)" by (simp add: mask_eq_exp_minus_1)
  show "ucast (((x AND 0xFFFF0000) OR ucast a) AND 0xFF) = lo8 a"
    unfolding m by (rule bit_word_eqI) (auto simp: lo8_def and_255 bit_simps)
  show "ucast (drop_bit 8 ((x AND 0xFFFF0000) OR ucast a) AND 0xFF) = hi8 a"
    unfolding m by (rule bit_word_eqI) (auto simp: hi8_def and_255 bit_simps)
qed

lemma neg_xor_zero: "(NOT x + 1) XOR k = 0 \<longleftrightarrow> x + k = (0 :: u8)"
proof -
  have n: "NOT x + 1 = - x" by (simp add: not_eq_complement)
  have "- x XOR k = 0 \<longleftrightarrow> k = - x"
    using xor_cancel_left [of "- x" k "- x"] by (simp only: xor_self_eq)
  also have "\<dots> \<longleftrightarrow> x + k = 0"
    by (metis add.commute eq_neg_iff_add_eq_0)
  finally show ?thesis unfolding n .
qed

lemma after_line_fields:
  "ih_address (after_line ih type a ds k) = (ih_address ih AND 0xFFFF0000) OR ucast a"
  "ih_length (after_line ih type a ds k) = of_nat (length ds)"
  "ih_line_length (after_line ih type a ds k) = of_nat (length ds)"
  "ih_flags (after_line ih type a ds k) = type"
  "ih_segment (after_line ih type a ds k) = ih_segment ih"
  "ih_data (after_line ih type a ds k) = ds @ k # drop (Suc (length ds)) (ih_data ih)"
  by (simp_all add: after_line_def)

lemma checksum_after_line:
  assumes "length ds \<le> 255"
  shows "ihex_checksum (after_line ih type a ds k) type = 0 \<longleftrightarrow> record_sum type a ds + k = 0"
proof -
  have "unat (of_nat (length ds) :: u8) = length ds"
    using assms by (intro unat_of_nat_small) simp
  then have "ihex_checksum (after_line ih type a ds k) type = (NOT (record_sum type a ds) + 1) XOR k"
    unfolding ihex_checksum_def Let_def after_line_fields address_bytes
    by (simp add: fold_plus record_sum_def)
  then show ?thesis by (simp add: neg_xor_zero)
qed


section \<open>Whole files\<close>

text \<open>The records a file is made of, their lines, and the reader's address registers.\<close>

datatype ihex_item = Data u16 bytes | Ext_Linear u16 | Ext_Segment u16 | End_Of_File

fun item_ok :: "ihex_item \<Rightarrow> bool" where
  "item_ok (Data a ds) = (length ds \<le> 255)"
| "item_ok _ = True"

definition good_line :: "u8 \<Rightarrow> u16 \<Rightarrow> bytes \<Rightarrow> bytes" where
  "good_line type a ds = ihex_line type a ds (- record_sum type a ds)"

fun item_line :: "ihex_item \<Rightarrow> bytes" where
  "item_line (Data a ds) = good_line 0 a ds"
| "item_line (Ext_Linear h) = good_line 4 0 [hi8 h, lo8 h]"
| "item_line (Ext_Segment sg) = good_line 2 0 [hi8 sg, lo8 sg]"
| "item_line End_Of_File = good_line 1 0 []"

definition is_eol :: "bytes \<Rightarrow> bool" where
  "is_eol eol \<longleftrightarrow> (\<forall>b \<in> set eol. hex_digit b = None \<and> b \<noteq> byte_of CHR '':'')"

definition ihex_file :: "bytes \<Rightarrow> ihex_item list \<Rightarrow> bytes" where
  "ihex_file eol items = concat (map (\<lambda>i. item_line i @ eol) items)"

definition linear_address :: "u16 \<Rightarrow> u16 \<Rightarrow> u16 \<Rightarrow> u32" where
  "linear_address up sg a = ((push_bit 16 (ucast up) OR ucast a) + push_bit 4 (ucast sg)) AND 0xFFFFFF"

text \<open>The writes a file asks for, from upper address \<open>up\<close> and segment \<open>sg\<close> on.\<close>

fun ihex_writes :: "u16 \<Rightarrow> u16 \<Rightarrow> ihex_item list \<Rightarrow> (u32 \<times> bytes) list" where
  "ihex_writes up sg [] = []"
| "ihex_writes up sg (Data a ds # items) =
     (if ds = [] then [] else [(linear_address up sg a, ds)]) @ ihex_writes up sg items"
| "ihex_writes up sg (Ext_Linear h # items) = ihex_writes h sg items"
| "ihex_writes up sg (Ext_Segment s # items) = ihex_writes up s items"
| "ihex_writes up sg (End_Of_File # items) = ihex_writes up sg items"

definition reader_at :: "u16 \<Rightarrow> u16 \<Rightarrow> ihex_state \<Rightarrow> bool" where
  "reader_at up sg ih \<longleftrightarrow> ihex_idle ih \<and> ih_address ih AND 0xFFFF0000 = push_bit 16 (ucast up) \<and>
     ih_segment ih = sg"

lemma read_eol:
  "is_eol eol \<Longrightarrow> ihex_idle ih \<Longrightarrow> ihex_read_bytes cb (ih, c) eol = (ih, c)"
proof (induction eol)
  case Nil
  then show ?case by simp
next
  case (Cons b eol)
  then have "ihex_read_byte cb (ih, c) b = (ih, c)"
    by (cases ih) (simp add: is_eol_def ihex_idle_def ihex_read_byte_def save_read_state_def Let_def
        model_simps)
  with Cons show ?case by (simp add: ihex_read_bytes_def is_eol_def)
qed

lemma checksum_good:
  "length ds \<le> 255 \<Longrightarrow>
     ihex_checksum (after_line ih type a ds (- record_sum type a ds)) type = 0"
  by (simp add: checksum_after_line)

text \<open>A line with a wrong checksum is reported as such, whatever its type.\<close>

lemma read_bad_line:
  assumes "ihex_idle ih" "type < 8" "length ds \<le> 255" "record_sum type a ds + k \<noteq> 0"
    "ds \<noteq> [] \<or> type \<noteq> 0"
  shows "snd (ihex_read_bytes (ihex_data_read R S) (ih, c) (ihex_line type a ds k)) =
    c\<lparr>cv_has_error := True\<rparr>"
proof -
  have n: "(of_nat (length ds) :: u8) = 0 \<longleftrightarrow> ds = []"
    using unat_of_nat_small [of "length ds", where 'a = 8] assms(3) by (auto simp: unat_eq_zero)
  show ?thesis
    unfolding read_line [OF assms(1-3)]
    using assms(5) checksum_after_line [OF assms(3), of ih type a k] assms(4)
      mk_flags_parts(4) [OF assms(2), of 0]
    by (auto simp: ihex_end_read_def after_line_fields model_simps save_read_state_def
        ihex_data_read_def cv_fail_def n Let_def)
qed


lemma high_mask: "(0xFFFF0000 :: u32) = push_bit 16 (mask 16)" "(0xFFFF :: u32) = mask 16"
  by (simp_all add: mask_eq_exp_minus_1)

lemma high_of_after:
  "(x AND 0xFFFF0000 OR ucast (a :: u16)) AND 0xFFFF0000 = (x :: u32) AND 0xFFFF0000"
  unfolding high_mask by (rule bit_word_eqI) (auto simp: bit_simps dest: bit_imp_le_length)

lemma high_of_linear:
  "((x :: u32) AND 0xFFFF OR push_bit 24 (ucast (hi8 h)) OR push_bit 16 (ucast (lo8 h))) AND 0xFFFF0000 =
   push_bit 16 (ucast h)"
  unfolding high_mask
  by (rule bit_word_eqI) (auto simp: hi8_def lo8_def and_255 bit_simps dest: bit_imp_le_length)

lemma high_of_up:
  "(push_bit 16 (ucast up) OR ucast (a :: u16)) AND 0xFFFF0000 = (push_bit 16 (ucast up) :: u32)"
  "push_bit 16 (ucast up) AND 0xFFFF0000 = (push_bit 16 (ucast (up :: u16)) :: u32)"
  unfolding high_mask
  by (rule bit_word_eqI, auto simp: bit_simps dest: bit_imp_le_length)+

lemma idle_after_line:
  assumes "ihex_idle ih" "length ds \<le> 255"
  shows "length (ih_data (after_line ih type a ds k)) = 256"
  using assms by (simp add: after_line_fields ihex_idle_def)

lemma reader_at_after:
  assumes "reader_at up sg ih" "length ds \<le> 255"
  shows "reader_at up sg ((after_line ih type a ds k)\<lparr>ih_length := 0, ih_flags := 0\<rparr>)"
  using assms idle_after_line [of ih ds type a k] high_of_up
  by (simp add: reader_at_def ihex_idle_def after_line_fields)

lemma read_data_line:
  assumes "reader_at up sg ih" "length ds \<le> 255"
  shows "\<exists>ih'. ihex_read_bytes (ihex_data_read R S) (ih, c) (good_line 0 a ds) =
    (ih', if ds = [] then c else snd (ihex_data_record R S (linear_address up sg a) ds c)) \<and>
    reader_at up sg ih'"
proof -
  let ?k = "- record_sum 0 a ds"
  let ?ih = "after_line ih 0 a ds ?k"
  have idle: "ihex_idle ih" using assms(1) by (simp add: reader_at_def)
  have u: "unat (of_nat (length ds) :: u8) = length ds"
    using assms(2) by (intro unat_of_nat_small) simp
  then have n: "(of_nat (length ds) :: u8) = 0 \<longleftrightarrow> ds = []" by (auto simp: unat_eq_zero)
  have lin: "IHEX_LINEAR_ADDRESS ?ih = linear_address up sg a"
    using assms(1) by (simp add: IHEX_LINEAR_ADDRESS_def linear_address_def after_line_fields reader_at_def)
  have at: "reader_at up sg (?ih\<lparr>ih_length := 0, ih_flags := 0\<rparr>)"
    by (rule reader_at_after [OF assms])
  have "ihex_end_read (ihex_data_read R S) (?ih, c) =
    (if ds = [] then ?ih else ?ih\<lparr>ih_length := 0, ih_flags := 0\<rparr>,
     if ds = [] then c else snd (ihex_data_record R S (linear_address up sg a) ds c))"
    using checksum_good [OF assms(2), of ih 0 a]
    by (auto simp: ihex_end_read_def ihex_record_effect_def after_line_fields(2-4,6) model_simps
        ihex_data_read_def n u lin Let_def)
  moreover have "?ih = ?ih\<lparr>ih_length := 0, ih_flags := 0\<rparr>" if "ds = []"
    using that by (simp add: after_line_def)
  ultimately show ?thesis
    unfolding good_line_def read_line [OF idle, of 0 ds, simplified, OF assms(2)]
    using at by (cases "ds = []") (auto simp: save_read_state_def model_simps)
qed

lemma read_short_line:
  assumes "reader_at up sg ih" "type \<noteq> 0" "type < 8" "length ds \<le> 2"
  shows "ihex_read_bytes (ihex_data_read R S) (ih, c) (good_line type a ds) =
    (let ih1 = after_line ih type a ds (- record_sum type a ds);
         ih2 = (if type = 4 then ih1\<lparr>ih_address := (ih_address ih1 AND 0xFFFF) OR
                  push_bit 24 (ucast (ih_data ih1 ! 0)) OR push_bit 16 (ucast (ih_data ih1 ! 1))\<rparr>
                else if type = 2 then ih1\<lparr>ih_segment := join8 (ih_data ih1 ! 0) (ih_data ih1 ! 1)\<rparr>
                else ih1)
     in (ih2\<lparr>ih_length := 0, ih_flags := 0\<rparr>, c))"
proof -
  have idle: "ihex_idle ih" using assms(1) by (simp add: reader_at_def)
  have l: "length ds \<le> 255" using assms(4) by simp
  show ?thesis
    unfolding good_line_def read_line [OF idle assms(3) l]
    using checksum_good [OF l, of ih type a] assms(2) mk_flags_parts(4) [OF assms(3), of 0]
    by (simp add: ihex_end_read_def ihex_record_effect_def after_line_fields model_simps
        ihex_data_read_def Let_def save_read_state_def)
qed

definition cv_put :: "(nat \<Rightarrow> bool) \<Rightarrow> 'k ihex2bin_sink_fn \<Rightarrow> 'k ihex2bin_ctx \<Rightarrow> u32 \<times> bytes \<Rightarrow>
    'k ihex2bin_ctx" where
  "cv_put R S c w = snd (ihex_data_record R S (fst w) (snd w) c)"

text \<open>What a record does, from one pair of address registers to the next.\<close>

fun registers_after :: "u16 \<Rightarrow> u16 \<Rightarrow> ihex_item \<Rightarrow> u16 \<times> u16" where
  "registers_after up sg (Ext_Linear h) = (h, sg)"
| "registers_after up sg (Ext_Segment s) = (up, s)"
| "registers_after up sg i = (up, sg)"

lemma ihex_writes_Cons:
  "ihex_writes up sg (i # rest) =
     ihex_writes up sg [i] @ ihex_writes (fst (registers_after up sg i)) (snd (registers_after up sg i)) rest"
  by (cases i) simp_all

lemma read_item:
  assumes "reader_at up sg ih" "item_ok i"
  shows "\<exists>ih'. ihex_read_bytes (ihex_data_read R S) (ih, c) (item_line i) =
    (ih', foldl (cv_put R S) c (ihex_writes up sg [i])) \<and>
    reader_at (fst (registers_after up sg i)) (snd (registers_after up sg i)) ih'"
proof (cases i)
  case (Data a ds)
  then show ?thesis
    using read_data_line [OF assms(1), of ds R S c a] assms(2)
    by (cases "ds = []") (auto simp: cv_put_def)
next
  case (Ext_Linear h)
  then show ?thesis
    using reader_at_after [OF assms(1), of "[hi8 h, lo8 h]" 4 0] high_of_linear
      read_short_line [OF assms(1), of 4 "[hi8 h, lo8 h]" R S c 0]
    by (auto simp: Let_def reader_at_def ihex_idle_def after_line_fields)
next
  case (Ext_Segment s)
  then show ?thesis
    using reader_at_after [OF assms(1), of "[hi8 s, lo8 s]" 2 0] high_of_up(2)
      read_short_line [OF assms(1), of 2 "[hi8 s, lo8 s]" R S c 0]
    by (auto simp: Let_def reader_at_def ihex_idle_def after_line_fields)
next
  case End_Of_File
  then show ?thesis
    using reader_at_after [OF assms(1), of "[]" 1 0] read_short_line [OF assms(1), of 1 "[]" R S c 0]
    by (auto simp: Let_def)
qed

lemma read_items:
  assumes "reader_at up sg ih" "\<forall>i \<in> set items. item_ok i" "is_eol eol"
  shows "\<exists>ih'. ihex_read_bytes (ihex_data_read R S) (ih, c) (ihex_file eol items) =
    (ih', foldl (cv_put R S) c (ihex_writes up sg items)) \<and> ihex_idle ih'"
  using assms(1,2)
proof (induction items arbitrary: up sg ih c)
  case Nil
  then show ?case by (simp add: ihex_file_def reader_at_def)
next
  case (Cons i items)
  obtain ih1 where 1: "ihex_read_bytes (ihex_data_read R S) (ih, c) (item_line i) =
      (ih1, foldl (cv_put R S) c (ihex_writes up sg [i]))"
    "reader_at (fst (registers_after up sg i)) (snd (registers_after up sg i)) ih1"
    using read_item [OF Cons.prems(1), of i R S c] Cons.prems(2) by auto
  have 2: "ihex_read_bytes (ihex_data_read R S) (ih1, c') eol = (ih1, c')" for c'
    using 1(2) by (intro read_eol [OF assms(3)]) (simp add: reader_at_def)
  show ?case
    using Cons.IH [OF 1(2), of "foldl (cv_put R S) c (ihex_writes up sg [i])"] Cons.prems(2)
    unfolding ihex_writes_Cons [of up sg i items] ihex_file_def
    by (simp add: ihex_read_bytes_append 1(1) 2 foldl_append)
qed


section \<open>The memory image\<close>

text \<open>
  Specification of the converter's result. A data record asks for its bytes at the address that the
  format gives it: the base of the last extended linear address record, plus the base of the last
  extended segment address record, plus its own offset. The byte of an address is the last one
  written there, and an image spans from the lowest to the highest written address.
\<close>

definition record_address :: "u16 \<Rightarrow> u16 \<Rightarrow> u16 \<Rightarrow> nat" where
  "record_address up sg a = 65536 * unat up + 16 * unat sg + unat a"

fun record_writes :: "u16 \<Rightarrow> u16 \<Rightarrow> ihex_item list \<Rightarrow> (nat \<times> bytes) list" where
  "record_writes up sg [] = []"
| "record_writes up sg (Data a ds # items) =
     (if ds = [] then [] else [(record_address up sg a, ds)]) @ record_writes up sg items"
| "record_writes up sg (Ext_Linear h # items) = record_writes h sg items"
| "record_writes up sg (Ext_Segment s # items) = record_writes up s items"
| "record_writes up sg (End_Of_File # items) = record_writes up sg items"

definition covers :: "nat \<times> bytes \<Rightarrow> nat \<Rightarrow> bool" where
  "covers w x \<longleftrightarrow> fst w \<le> x \<and> x < fst w + length (snd w)"

definition image_byte :: "(nat \<times> bytes) list \<Rightarrow> nat \<Rightarrow> u8" where
  "image_byte ws x = foldl (\<lambda>v w. if covers w x then snd w ! (x - fst w) else v) 0 ws"

definition image_lo :: "(nat \<times> bytes) list \<Rightarrow> nat" where
  "image_lo ws = Min (set (map fst ws))"

definition image_hi :: "(nat \<times> bytes) list \<Rightarrow> nat" where
  "image_hi ws = Max (set (map (\<lambda>w. fst w + length (snd w)) ws))"

definition is_image :: "ihex2bin_result \<Rightarrow> (nat \<times> bytes) list \<Rightarrow> bool" where
  "is_image r ws \<longleftrightarrow> unat (res_base_addr r) = image_lo ws \<and>
     length (res_data r) = image_hi ws - image_lo ws \<and>
     (\<forall>x. image_lo ws \<le> x \<longrightarrow> x < image_hi ws \<longrightarrow> res_data r ! (x - image_lo ws) = image_byte ws x)"

text \<open>The converter keeps 24 bits of an address.\<close>

definition wrap24 :: "(nat \<times> bytes) list \<Rightarrow> (nat \<times> bytes) list" where
  "wrap24 ws = map (\<lambda>w. (fst w mod 2 ^ 24, snd w)) ws"

lemma wrap24_low: "\<forall>w \<in> set ws. fst w < 2 ^ 24 \<Longrightarrow> wrap24 ws = ws"
  by (auto simp: wrap24_def intro!: map_idI)

lemma unat_linear_address: "unat (linear_address up sg a) = record_address up sg a mod 2 ^ 24"
proof -
  have up: "unat (push_bit 16 (ucast up :: u32)) = 65536 * unat up"
    and sg: "unat (push_bit 4 (ucast sg :: u32)) = 16 * unat sg"
    using unsigned_less [of up, where ?'a = nat] unsigned_less [of sg, where ?'a = nat]
    by (simp_all add: push_bit_eq_mult unat_word_ariths take_bit_nat_eq_self unsigned_ucast_eq)
  have disj: "push_bit 16 (ucast up :: u32) AND ucast a = 0"
    by (rule bit_word_eqI) (auto simp: bit_simps dest: bit_imp_le_length)
  have low: "unat (push_bit 16 (ucast up) OR (ucast a :: u32)) = 65536 * unat up + unat a"
    unfolding disjunctive_add_eq_or [OF disj, symmetric]
    using up unsigned_less [of up, where ?'a = nat] unsigned_less [of a, where ?'a = nat]
    by (simp add: unat_word_ariths unsigned_ucast_eq take_bit_nat_eq_self)
  have plus: "unat (x + y) = (unat x + unat y) mod 2 ^ 32" for x y :: u32
    by (simp add: unat_word_ariths)
  have "65536 * unat up + unat a + 16 * unat sg = record_address up sg a"
    by (simp add: record_address_def)
  then have "unat ((push_bit 16 (ucast up) OR ucast a) + push_bit 4 (ucast sg) :: u32) =
      record_address up sg a mod 2 ^ 32"
    unfolding plus sg low by (rule arg_cong)
  moreover have "unat (x AND 0xFFFFFF) = unat x mod 2 ^ 24" for x :: u32
  proof -
    have "x AND 0xFFFFFF = take_bit 24 x" by (simp add: take_bit_eq_mask mask_eq_exp_minus_1)
    then show ?thesis by (simp only: unsigned_take_bit_eq) (simp add: take_bit_eq_mod)
  qed
  ultimately show ?thesis by (simp add: linear_address_def mod_mod_cancel)
qed

lemma record_writes_code:
  "map (apfst unat) (ihex_writes up sg items) = wrap24 (record_writes up sg items)"
  by (induction up sg items rule: ihex_writes.induct) (auto simp: wrap24_def unat_linear_address)

definition byte_at :: "nat \<Rightarrow> bytes \<Rightarrow> nat \<Rightarrow> u8" where
  "byte_at b d x = (if b \<le> x \<and> x < b + length d then d ! (x - b) else 0)"

lemma byte_at_front: "delta \<le> b \<Longrightarrow> byte_at (b - delta) (replicate delta 0 @ d) x = byte_at b d x"
  by (auto simp: byte_at_def nth_append)

lemma byte_at_grow: "byte_at b (d @ replicate n 0) x = byte_at b d x"
  by (auto simp: byte_at_def nth_append)

lemma byte_at_write:
  "byte_at b (write_at d off ds) x =
     (if b + off \<le> x \<and> x < b + off + length ds then ds ! (x - (b + off)) else byte_at b d x)"
  by (auto simp: byte_at_def nth_write_at)

text \<open>The conversion context holds the image of the writes so far.\<close>

definition image_rel :: "'k ihex2bin_ctx \<Rightarrow> (nat \<times> bytes) list \<Rightarrow> bool" where
  "image_rel c ws \<longleftrightarrow> \<not> cv_use_sink c \<and> \<not> cv_has_error c \<and> (cv_has_base c \<longleftrightarrow> ws \<noteq> []) \<and>
     (cv_data c = None \<longleftrightarrow> ws = []) \<and>
     (ws \<noteq> [] \<longrightarrow> unat (cv_base_addr c) = image_lo ws \<and>
        unat (cv_base_addr c) + length (cv_bytes c) = image_hi ws \<and>
        (\<forall>x. byte_at (unat (cv_base_addr c)) (cv_bytes c) x = image_byte ws x))"

lemma image_rel_first:
  assumes "image_rel c []"
  shows "image_rel (cv_put (\<lambda>_. True) S c (a, ds)) [(unat a, ds)]"
  using assms
  by (auto simp: image_rel_def cv_put_def ihex_data_record_def ihex2bin_ensure_capacity_def
      image_lo_def image_hi_def image_byte_def covers_def byte_at_def write_at_def cv_bytes_def Let_def)

text \<open>One write into an image with contents, by the code's cases: below its base, or not.\<close>

lemma cv_put_image:
  fixes S :: "'k ihex2bin_sink_fn" and a :: u32 and ds :: bytes and c :: "'k ihex2bin_ctx"
  assumes "cv_has_base c" "cv_data c = Some d" "\<not> cv_use_sink c" "\<not> cv_has_error c"
  defines "b \<equiv> unat (cv_base_addr c)" and "c' \<equiv> cv_put (\<lambda>_. True) S c (a, ds)"
  shows "\<not> cv_use_sink c'" "\<not> cv_has_error c'" "cv_has_base c'" "cv_data c' \<noteq> None"
    and "unat (cv_base_addr c') = min b (unat a)"
    and "unat (cv_base_addr c') + length (cv_bytes c') = max (b + length d) (unat a + length ds)"
    and "byte_at (unat (cv_base_addr c')) (cv_bytes c') x =
      (if covers (unat a, ds) x then ds ! (x - unat a) else byte_at b d x)"
proof -
  define e where "e = (if a < cv_base_addr c then c\<lparr>cv_data := Some (replicate (b - unat a) 0 @ d),
      cv_base_addr := a\<rparr> else c)"
  have front: "ihex2bin_expand_front (\<lambda>_. True) c a = (ESP_OK, e)" if "a < cv_base_addr c"
    using that assms(2) by (auto simp: ihex2bin_expand_front_def e_def b_def word_le_nat_alt unat_sub
        word_less_nat_alt)
  obtain d1 where d1: "cv_data e = Some d1" by (cases "a < cv_base_addr c") (auto simp: e_def assms)
  have be: "unat (cv_base_addr e) = min b (unat a)"
    by (auto simp: e_def b_def word_less_nat_alt)
  have lee: "unat (cv_base_addr e) + length d1 = b + length d"
    using d1 assms(2) by (auto simp: e_def b_def word_less_nat_alt split: if_splits)
  have byte: "byte_at (unat (cv_base_addr e)) d1 x = byte_at b d x" for x
  proof (cases "a < cv_base_addr c")
    case True
    then show ?thesis using d1 byte_at_front [of "b - unat a" b d x]
      by (simp add: e_def b_def word_less_nat_alt)
  next
    case False
    then show ?thesis using d1 assms(2) by (simp add: e_def b_def)
  qed
  have off: "unat (a - cv_base_addr e) = unat a - min b (unat a)"
    using be by (auto simp: e_def b_def word_less_nat_alt unat_sub word_le_nat_alt split: if_splits)
  let ?off = "unat (a - cv_base_addr e)"
  have "c' = e\<lparr>cv_data := Some (write_at (d1 @ replicate (?off + length ds - length d1) 0) ?off ds)\<rparr>"
    using assms(1,3) d1 front
    by (cases "a < cv_base_addr c")
      (auto simp: c'_def cv_put_def ihex_data_record_def ihex2bin_ensure_capacity_def cv_bytes_def e_def
        Let_def)
  note c' = this
  show "\<not> cv_use_sink c'" "\<not> cv_has_error c'" "cv_has_base c'" "cv_data c' \<noteq> None"
    unfolding c' by (simp_all add: e_def assms)
  show "unat (cv_base_addr c') = min b (unat a)" by (simp add: c' be)
  show "unat (cv_base_addr c') + length (cv_bytes c') = max (b + length d) (unat a + length ds)"
    using lee by (auto simp: c' cv_bytes_def be off)
  show "byte_at (unat (cv_base_addr c')) (cv_bytes c') x =
      (if covers (unat a, ds) x then ds ! (x - unat a) else byte_at b d x)"
    using be off by (auto simp: c' cv_bytes_def byte_at_write byte_at_grow byte [unfolded be] covers_def)
qed

lemma image_rel_step:
  assumes "image_rel c ws"
  shows "image_rel (cv_put (\<lambda>_. True) S c w) (ws @ [apfst unat w])"
proof (cases "ws = []")
  case True
  then show ?thesis using image_rel_first [of c S "fst w" "snd w"] assms by (cases w) simp
next
  case False
  then obtain d where d: "cv_data c = Some d" using assms by (auto simp: image_rel_def)
  have pre: "cv_has_base c" "\<not> cv_use_sink c" "\<not> cv_has_error c"
    using assms False by (auto simp: image_rel_def)
  have old: "unat (cv_base_addr c) = image_lo ws" "unat (cv_base_addr c) + length d = image_hi ws"
    "byte_at (unat (cv_base_addr c)) d x = image_byte ws x" for x
    using assms False d by (auto simp: image_rel_def cv_bytes_def)
  have "image_lo (ws @ [apfst unat w]) = min (image_lo ws) (unat (fst w))"
    "image_hi (ws @ [apfst unat w]) = max (image_hi ws) (unat (fst w) + length (snd w))"
    using False by (simp_all add: image_lo_def image_hi_def min.commute max.commute)
  then show ?thesis
    using cv_put_image [OF pre(1) d pre(2,3), of S "fst w" "snd w"] old
    by (cases w) (simp add: image_rel_def image_byte_def)
qed

lemma image_rel_run:
  "image_rel c ws \<Longrightarrow> image_rel (foldl (cv_put (\<lambda>_. True) S) c us) (ws @ map (apfst unat) us)"
proof (induction us arbitrary: c ws)
  case Nil
  then show ?case by simp
next
  case (Cons u us)
  from Cons.IH [OF image_rel_step [OF Cons.prems]] show ?case by simp
qed


section \<open>The converters\<close>

lemma read_bytes_loop:
  "map_option snd (read_loop ihex2bin_mem_read 256 (ihex_read_bytes cb) \<lparr>mr_data = d, mr_offset = 0\<rparr> s) =
     Some (ihex_read_bytes cb s d)"
  using mem.read_loop_fold [of 256 "ihex_read_bytes cb" "\<lparr>mr_data = d, mr_offset = 0\<rparr>" s]
  by (cases "ihex_read_bytes cb s d") (auto simp: ihex_read_bytes_append)

lemma file_loop:
  "map_option snd (read_loop ihex2bin_file_read 256 (ihex_read_bytes cb) d s) =
     Some (ihex_read_bytes cb s d)"
  using input_file.read_loop_fold [of 256 "ihex_read_bytes cb" d s]
  by (cases "ihex_read_bytes cb s d") (auto simp: ihex_read_bytes_append)

lemma ihex2bin_from_buffer_run:
  assumes "d \<noteq> []"
    and "ihex_read_bytes (ihex_data_read R (\<lambda>_ _ k. (ESP_FAIL, k)))
      (ihex_start junk, ihex2bin_ctx_init False ()) d = s"
    and "c = snd (ihex_end_read (ihex_data_read R (\<lambda>_ _ k. (ESP_FAIL, k))) s)"
  shows "ihex2bin_from_buffer R junk d = Some (
    if cv_has_error c then Inl ESP_FAIL
    else if \<not> cv_has_base c \<or> cv_bytes c = [] then Inl ESP_ERR_INVALID_SIZE
    else Inr \<lparr>res_data = cv_bytes c, res_base_addr = cv_base_addr c\<rparr>)"
  using assms(1,3) read_bytes_loop [of "ihex_data_read R (\<lambda>_ _ k. (ESP_FAIL, k))" d
      "(ihex_start junk, ihex2bin_ctx_init False ())"] assms(2)
  by (auto simp: ihex2bin_from_buffer_def ihex2bin_convert_def Let_def split: option.splits)

lemma ihex2bin_convert_to_sink_run:
  assumes "ihex_read_bytes (ihex_data_read (\<lambda>_. True) sink)
      (ihex_start junk, ihex2bin_ctx_init True k) d = s"
    and "c = snd (ihex_end_read (ihex_data_read (\<lambda>_. True) sink) s)"
  shows "ihex2bin_convert_to_sink junk ihex2bin_file_read d sink k =
    Some (if cv_has_error c then ESP_FAIL else ESP_OK, cv_sink c)"
  using assms(2) file_loop [of "ihex_data_read (\<lambda>_. True) sink"
      "d" "(ihex_start junk, ihex2bin_ctx_init True k)"] assms(1)
  by (auto simp: ihex2bin_convert_to_sink_def Let_def split: option.splits)

lemma start_reader: "length junk = 256 \<Longrightarrow> reader_at 0 0 (ihex_start junk)"
  by (simp add: reader_at_def ihex_idle_def ihex_start_def ihex_read_at_address_def ihex_begin_read_def)

lemma end_read_idle: "ihex_idle ih \<Longrightarrow> ihex_end_read cb (ih, c) = (ih, c)"
  by (simp add: ihex_end_read_def ihex_idle_def model_simps Let_def)

lemma image_rel_init: "image_rel (ihex2bin_ctx_init False k) []"
  by (simp add: image_rel_def ihex2bin_ctx_init_def)

lemma record_writes_nonempty: "w \<in> set (record_writes up sg items) \<Longrightarrow> snd w \<noteq> []"
  by (induction up sg items rule: record_writes.induct) (auto split: if_splits)

lemma record_file_nonempty: "record_writes up sg items \<noteq> [] \<Longrightarrow> ihex_file eol items \<noteq> []"
  by (cases items; cases "hd items")
    (auto simp: ihex_file_def good_line_def ihex_line_def)

lemma image_bounds:
  assumes "ws \<noteq> []" "\<And>w. w \<in> set ws \<Longrightarrow> snd w \<noteq> []"
  shows "image_lo ws < image_hi ws"
proof -
  obtain w where w: "w \<in> set ws" using assms(1) by (meson last_in_set)
  then have "image_lo ws \<le> fst w" "fst w + length (snd w) \<le> image_hi ws"
    by (auto simp: image_lo_def image_hi_def intro!: Min_le Max_ge)
  moreover have "snd w \<noteq> []" using w by (rule assms(2))
  ultimately show ?thesis by (cases "snd w") auto
qed

text \<open>C3: The HEX converter builds the memory image, at addresses modulo 16 MB. For a well-formed file of
  data, extended address and end records in any order (with any line ends), and when memory can be
  allocated, \<open>ihex2bin_from_buffer\<close> returns the buffer that spans from the lowest to the highest
  written address, in which every byte is the last one written to its address, or zero where none
  was. Here the code takes each record's address modulo 2 ^ 24: a file whose records all begin
  below 16 MB is at the addresses it asks for, and a record that begins at or above (such as
  \<open>0x08000000\<close>) is moved below, without any error.\<close>

theorem ihex_convert_image:
  assumes "\<forall>i \<in> set items. item_ok i" "is_eol eol" "record_writes 0 0 items \<noteq> []" "length junk = 256"
  shows "\<exists>r. ihex2bin_from_buffer (\<lambda>_. True) junk (ihex_file eol items) = Some (Inr r) \<and>
    is_image r (wrap24 (record_writes 0 0 items)) \<and>
    ((\<forall>w \<in> set (record_writes 0 0 items). fst w < 2 ^ 24) \<longrightarrow> is_image r (record_writes 0 0 items))"
proof -
  let ?S = "\<lambda>_ _ k. (ESP_FAIL, k)" and ?c0 = "ihex2bin_ctx_init False ()"
  define ws where "ws = wrap24 (record_writes 0 0 items)"
  define c where "c = foldl (cv_put (\<lambda>_. True) ?S) ?c0 (ihex_writes 0 0 items)"
  obtain ih where ih: "ihex_read_bytes (ihex_data_read (\<lambda>_. True) ?S) (ihex_start junk, ?c0)
      (ihex_file eol items) = (ih, c)" "ihex_idle ih"
    using read_items [OF start_reader [OF assms(4)] assms(1,2)] unfolding c_def by blast
  have rel: "image_rel c ws"
    using image_rel_run [OF image_rel_init [of "()"], of ?S "ihex_writes 0 0 items"]
    unfolding c_def ws_def record_writes_code by simp
  have ne: "ws \<noteq> []" using assms(3) by (simp add: ws_def wrap24_def)
  have "image_lo ws < image_hi ws"
    using image_bounds [OF ne] record_writes_nonempty by (fastforce simp: ws_def wrap24_def)
  then have props: "\<not> cv_has_error c" "cv_has_base c" "cv_bytes c \<noteq> []"
    using rel ne by (auto simp: image_rel_def)
  let ?r = "\<lparr>res_data = cv_bytes c, res_base_addr = cv_base_addr c\<rparr>"
  have "ihex2bin_from_buffer (\<lambda>_. True) junk (ihex_file eol items) = Some (Inr ?r)"
    using ihex2bin_from_buffer_run [OF record_file_nonempty [OF assms(3)] ih(1)] props ih(2)
    by (simp add: end_read_idle)
  moreover have "is_image ?r ws"
    unfolding is_image_def
  proof (intro conjI allI impI)
    have b: "unat (cv_base_addr c) = image_lo ws" "image_lo ws + length (cv_bytes c) = image_hi ws"
      "byte_at (image_lo ws) (cv_bytes c) x = image_byte ws x" for x
      using rel ne by (auto simp: image_rel_def)
    then show "unat (res_base_addr ?r) = image_lo ws" "length (res_data ?r) = image_hi ws - image_lo ws"
      by auto
    fix x assume "image_lo ws \<le> x" "x < image_hi ws"
    then show "res_data ?r ! (x - image_lo ws) = image_byte ws x"
      using b(2) b(3) [of x] by (simp add: byte_at_def)
  qed
  ultimately show ?thesis using wrap24_low by (metis ws_def)
qed

lemma ihex_convert_image_witness:
  "\<exists>r. ihex2bin_from_buffer (\<lambda>_. True) (replicate 256 0)
      (ihex_file [10] [Ext_Linear 0x0800, Data 16 [1, 2], Data 14 [3], End_Of_File]) = Some (Inr r) \<and>
    unat (res_base_addr r) = 14 \<and> length (res_data r) = 4 \<and> res_data r ! 0 = 3 \<and> res_data r ! 3 = 2"
proof -
  let ?items = "[Ext_Linear 0x0800, Data 16 [1, 2], Data 14 [3], End_Of_File]"
  have w: "record_writes 0 0 ?items = [(0x08000010, [1, 2]), (0x0800000E, [3])]"
    by (simp add: record_address_def)
  have s: "image_lo [(16, [1, 2]), (14, [3])] = 14" "image_hi [(16, [1, 2]), (14, [3])] = 18"
    "image_byte [(16, [1, 2]), (14, [3])] 14 = 3" "image_byte [(16, [1, 2]), (14, [3])] 17 = 2"
    by (simp_all add: image_lo_def image_hi_def image_byte_def covers_def)
  have ok: "\<forall>i \<in> set ?items. item_ok i" "is_eol [10]"
    by (simp_all add: is_eol_def hex_digit_def model_simps)
  obtain r where r: "ihex2bin_from_buffer (\<lambda>_. True) (replicate 256 0) (ihex_file [10] ?items) = Some (Inr r)"
    "is_image r (wrap24 [(0x08000010, [1, 2]), (0x0800000E, [3])])"
    using ihex_convert_image [OF ok, of "replicate 256 0"] unfolding w by auto
  have "is_image r [(16, [1, 2]), (14, [3])]" using r(2) by (simp add: wrap24_def)
  then have "unat (res_base_addr r) = 14" "length (res_data r) = 4"
    and b: "\<forall>x \<ge> 14. x < 18 \<longrightarrow> res_data r ! (x - 14) = image_byte [(16, [1, 2]), (14, [3])] x"
    unfolding is_image_def s by simp_all
  moreover have "res_data r ! 0 = 3" "res_data r ! 3 = 2"
    using b [rule_format, of 14] b [rule_format, of 17] s by simp_all
  ultimately show ?thesis using r(1) by blast
qed

lemma read_bytes_keep:
  assumes "\<And>ih t m c. I c \<Longrightarrow> I (snd (cb ih t m c))" "I (snd s)"
  shows "I (snd (ihex_read_bytes cb s bs))" "I (snd (ihex_end_read cb s))"
proof -
  have e: "I (snd (ihex_end_read cb s))" if "I (snd s)" for s
    using assms(1) [OF that] that by (simp add: ihex_end_read_def Let_def)
  then show "I (snd (ihex_end_read cb s))" using assms(2) by blast
  have "I (snd (ihex_read_byte cb s b))" if "I (snd s)" for s b
    using that e by (auto simp: ihex_read_byte_def Let_def save_read_state_def ihex_read_field_def
        split: option.splits)
  then show "I (snd (ihex_read_bytes cb s bs))"
    using assms(2) by (induction bs arbitrary: s) (auto simp: ihex_read_bytes_def)
qed

lemma ihex_data_read_keeps_error:
  "cv_has_error c \<Longrightarrow> cv_has_error (snd (ihex_data_read R S ih t m c))"
  by (auto simp: ihex_data_read_def ihex_data_record_def cv_fail_def ihex2bin_expand_front_def
      ihex2bin_ensure_capacity_def Let_def split: option.splits prod.splits if_splits)

lemma error_sticks:
  assumes "cv_has_error (snd s)"
  shows "cv_has_error (snd (ihex_read_bytes (ihex_data_read R S) s bs))"
    "cv_has_error (snd (ihex_end_read (ihex_data_read R S) s))"
  using assms read_bytes_keep [where I = cv_has_error and cb = "ihex_data_read R S"]
    ihex_data_read_keeps_error by blast+

text \<open>C4: A line whose checksum does not match fails the whole conversion: after any good records,
  a line of a known type with a wrong checksum byte makes \<open>ihex2bin_from_buffer\<close> return \<open>ESP_FAIL\<close>,
  whatever follows and whatever memory is available. (The one exception in the code is a data
  record without data, which it drops before looking at the checksum.)\<close>

theorem ihex_corruption_reported:
  assumes "\<forall>i \<in> set items. item_ok i" "is_eol eol" "length junk = 256"
    and "type < 8" "length ds \<le> 255" "ds \<noteq> [] \<or> type \<noteq> 0" "record_sum type a ds + k \<noteq> 0"
  shows "ihex2bin_from_buffer R junk (ihex_file eol items @ ihex_line type a ds k @ rest) =
    Some (Inl ESP_FAIL)"
proof -
  let ?S = "\<lambda>_ _ k. (ESP_FAIL, k)"
  let ?cb = "ihex_data_read R ?S" and ?s0 = "(ihex_start junk, ihex2bin_ctx_init False ())"
  let ?d = "ihex_file eol items @ ihex_line type a ds k @ rest"
  obtain ih c where ih: "ihex_read_bytes ?cb ?s0 (ihex_file eol items) = (ih, c)" "ihex_idle ih"
    using read_items [OF start_reader [OF assms(3)] assms(1,2)] by blast
  have "cv_has_error (snd (ihex_read_bytes ?cb (ih, c) (ihex_line type a ds k)))"
    unfolding read_bad_line [OF ih(2) assms(4,5,7,6)] by simp
  then have "cv_has_error (snd (ihex_read_bytes ?cb ?s0 ?d))"
    unfolding ihex_read_bytes_append ih(1)
    by (rule error_sticks(1))
  then have "cv_has_error (snd (ihex_end_read ?cb (ihex_read_bytes ?cb ?s0 ?d)))"
    by (rule error_sticks(2))
  moreover have "?d \<noteq> []" by (simp add: ihex_line_def)
  ultimately show ?thesis
    using ihex2bin_from_buffer_run [OF _ refl refl, of ?d R junk] by simp
qed

lemma ihex_corruption_reported_witness:
  "ihex2bin_from_buffer (\<lambda>_. True) (replicate 256 0)
     (ihex_file [10] [Data 16 [1, 2]] @ ihex_line 0 18 [3] 0 @ [10]) = Some (Inl ESP_FAIL)"
proof (rule ihex_corruption_reported)
  show "\<forall>i \<in> set [Data 16 [1, 2]]. item_ok i" "is_eol [10]"
    by (simp_all add: is_eol_def hex_digit_def model_simps)
  show "record_sum 0 18 [3] + 0 \<noteq> 0"
    by (simp add: record_sum_def hi8_def lo8_def and_255 take_bit_eq_mod drop_bit_eq_div)
qed simp_all


section \<open>Streaming against the in-memory conversion\<close>

text \<open>
  The streaming context \<open>c1\<close>, whose sink is the output file, and the in-memory context \<open>c2\<close> hold the
  same bytes as long as streaming has met no error.
\<close>

definition same_image :: "bytes ihex2bin_ctx \<Rightarrow> 'k ihex2bin_ctx \<Rightarrow> bool" where
  "same_image c1 c2 \<longleftrightarrow> cv_use_sink c1 \<and> \<not> cv_use_sink c2 \<and> \<not> cv_has_error c2 \<and>
     cv_has_base c1 = cv_has_base c2 \<and> cv_base_addr c1 = cv_base_addr c2 \<and>
     cv_sink c1 = cv_bytes c2 \<and> (cv_has_base c2 \<or> cv_bytes c2 = [])"

definition stream_sim :: "ihex_state \<times> bytes ihex2bin_ctx \<Rightarrow> ihex_state \<times> 'k ihex2bin_ctx \<Rightarrow> bool" where
  "stream_sim s t \<longleftrightarrow> cv_has_error (snd s) \<or> fst s = fst t \<and> same_image (snd s) (snd t)"

lemma write_at_padded:
  "write_at (d @ replicate (off + length ds - length d) 0) off ds = write_at d off ds"
  by (rule nth_equalityI) (auto simp: nth_write_at nth_append)

lemma data_record_sim:
  assumes "same_image c1 c2"
    and "\<not> cv_has_error (snd (ihex_data_record R1 (ihex2bin_file_sink io) a ds c1))"
  shows "fst (ihex_data_record R1 (ihex2bin_file_sink io) a ds c1) =
      fst (ihex_data_record (\<lambda>_. True) S a ds c2)"
    "same_image (snd (ihex_data_record R1 (ihex2bin_file_sink io) a ds c1))
      (snd (ihex_data_record (\<lambda>_. True) S a ds c2))"
  using assms(1,2)
  by (auto simp: ihex_data_record_def same_image_def ihex2bin_file_sink_def Let_def cv_fail_def
      ihex2bin_ensure_capacity_def write_at_padded write_at_padded [where off = 0, simplified]
      write_at_padded [where off = 0 and d = "[]", simplified] cv_bytes_def
      split: if_splits option.splits prod.splits)


lemma data_read_sim:
  assumes "same_image c1 c2"
    and "\<not> cv_has_error (snd (ihex_data_read R1 (ihex2bin_file_sink io) ih t m c1))"
  shows "fst (ihex_data_read R1 (ihex2bin_file_sink io) ih t m c1) =
      fst (ihex_data_read (\<lambda>_. True) S ih t m c2)"
    "same_image (snd (ihex_data_read R1 (ihex2bin_file_sink io) ih t m c1))
      (snd (ihex_data_read (\<lambda>_. True) S ih t m c2))"
  using assms data_record_sim [OF assms(1), of R1 io]
  by (auto simp: ihex_data_read_def cv_fail_def)

lemma ihex_end_read_call:
  assumes "\<not> (ih_length ih = 0 \<and> ih_flags ih AND IHEX_READ_RECORD_TYPE_MASK = IHEX_DATA_RECORD)"
  shows "ihex_end_read cb (ih, c) =
    (let type = ih_flags ih AND IHEX_READ_RECORD_TYPE_MASK; r = cb ih type (ihex_checksum ih type) c
     in (ihex_record_effect (fst r) type ih, snd r))"
  unfolding ihex_end_read_def Let_def fst_conv snd_conv if_not_P [OF assms] ..

lemma stream_sim_cases:
  assumes "stream_sim s t" "\<not> cv_has_error (snd s)"
  obtains ih c1 c2 where "s = (ih, c1)" "t = (ih, c2)" "same_image c1 c2"
  using assms by (metis prod.collapse stream_sim_def)

lemma end_read_sim:
  assumes "stream_sim s t"
  shows "stream_sim (ihex_end_read (ihex_data_read R1 (ihex2bin_file_sink io)) s)
    (ihex_end_read (ihex_data_read (\<lambda>_. True) S) t)"
proof (cases "cv_has_error (snd (ihex_end_read (ihex_data_read R1 (ihex2bin_file_sink io)) s))")
  case True
  then show ?thesis by (simp add: stream_sim_def)
next
  case False
  then have ne: "\<not> cv_has_error (snd s)" using error_sticks(2) by blast
  obtain ih c1 c2 where st: "s = (ih, c1)" "t = (ih, c2)" and R: "same_image c1 c2"
    by (rule stream_sim_cases [OF assms ne])
  let ?m = "ihex_checksum ih (ih_flags ih AND IHEX_READ_RECORD_TYPE_MASK)"
  show ?thesis
  proof (cases "ih_length ih = 0 \<and> ih_flags ih AND IHEX_READ_RECORD_TYPE_MASK = IHEX_DATA_RECORD")
    case True
    then show ?thesis using R by (simp add: st ihex_end_read_def stream_sim_def Let_def)
  next
    case other: False
    then have "\<not> cv_has_error (snd (ihex_data_read R1 (ihex2bin_file_sink io) ih
        (ih_flags ih AND IHEX_READ_RECORD_TYPE_MASK) ?m c1))"
      using False unfolding st ihex_end_read_call [OF other] Let_def by simp
    from data_read_sim [OF R this, of S] show ?thesis
      unfolding st ihex_end_read_call [OF other] Let_def by (simp add: stream_sim_def)
  qed
qed

lemma read_bytes_sim:
  assumes "stream_sim s t"
  shows "stream_sim (ihex_read_bytes (ihex_data_read R1 (ihex2bin_file_sink io)) s bs)
    (ihex_read_bytes (ihex_data_read (\<lambda>_. True) S) t bs)"
proof -
  let ?cb1 = "ihex_data_read R1 (ihex2bin_file_sink io)" and ?cb2 = "ihex_data_read (\<lambda>_. True) S"
  have save: "stream_sim (save_read_state n s) (save_read_state n t)" if "stream_sim s t"
    for n and s t
    using that by (auto simp: stream_sim_def save_read_state_def)
  have field: "stream_sim (ihex_read_field ?cb1 st len b s) (ihex_read_field ?cb2 st len b t)"
    if "stream_sim s t" for st len b s t
    using that end_read_sim [OF that, of R1 io S]
    by (cases "fst s = fst t")
      (auto simp: ihex_read_field_def Let_def stream_sim_def save_read_state_def
        intro: error_sticks(2))
  have byte: "stream_sim (ihex_read_byte ?cb1 s b) (ihex_read_byte ?cb2 t b)" if sim: "stream_sim s t" for b s t
  proof (cases "cv_has_error (snd s)")
    case True
    then have "cv_has_error (snd (ihex_read_byte ?cb1 s b))"
      using error_sticks(1) [of s R1 "ihex2bin_file_sink io" "[b]"] by (simp add: ihex_read_bytes_def)
    then show ?thesis by (simp add: stream_sim_def)
  next
    case False
    obtain ih c1 c2 where st: "s = (ih, c1)" "t = (ih, c2)" and R: "same_image c1 c2"
      by (rule stream_sim_cases [OF sim False])
    have "stream_sim (ih', c1) (ih', c2)" for ih' using R by (simp add: stream_sim_def)
    then show ?thesis
      unfolding st ihex_read_byte_def Let_def fst_conv snd_conv
      by (auto split: option.split intro!: save field end_read_sim)
  qed
  show ?thesis
    using assms
  proof (induction bs arbitrary: s t)
    case Nil
    then show ?case by simp
  next
    case (Cons b bs)
    from Cons.IH [OF byte [OF Cons.prems]] show ?case by (simp add: ihex_read_bytes_def)
  qed
qed




end
