(* ===== verification/Fw_Types.thy ===== *)
theory Fw_Types
  imports Prelude
begin

text \<open>
  The firmware upload's data (\<open>fw_upload_types.h\<close>, \<open>fw_upload_registry.c\<close>,
  \<open>fw_upload_meta_defaults.c\<close>) and its small shared states: the progress state
  (\<open>fw_upload_state.c\<close>) and the name and type remembered for the legacy BLE transfer
  (\<open>fw_ble_legacy_context.c\<close>).
\<close>

section \<open>Types\<close>

datatype fw_format = FW_FMT_BIN | FW_FMT_IHEX | FW_FMT_COFF | FW_FMT_ELF | FW_FMT_UNKNOWN

datatype fw_exec =
    FW_EXEC_ESP32_OTA | FW_EXEC_UART_ISP | FW_EXEC_CAN | FW_EXEC_SWD | FW_EXEC_JTAG
  | FW_EXEC_BOOTLOADER | FW_EXEC_STM32_UART | FW_EXEC_UNKNOWN

datatype fw_step =
    FW_STEP_PREPARE | FW_STEP_WAIT_USER | FW_STEP_TRANSFER | FW_STEP_DECODE | FW_STEP_WRITE
  | FW_STEP_VERIFY | FW_STEP_DONE | FW_STEP_ERROR

record fw_meta =
  fm_file_name :: string
  fm_file_type :: string
  fm_format :: fw_format
  fm_exec :: fw_exec
  fm_exec_format :: fw_format
  fm_exec_override :: bool
  fm_target_board :: string
  fm_target_id :: string
  fm_can_bitrate :: u32
  fm_uart_baud :: u32
  fm_swd_clock_khz :: u32
  fm_jtag_clock_khz :: u32
  fm_meta_json :: string
  fm_encrypted :: bool
  fm_save_only :: bool
  fm_original_size :: nat

text \<open>\<open>memset(meta, 0, sizeof(*meta))\<close>: the enumerations start with the constructor of value 0.\<close>

definition fw_meta_zero :: fw_meta where
  "fw_meta_zero = \<lparr>fm_file_name = [], fm_file_type = [], fm_format = FW_FMT_BIN,
     fm_exec = FW_EXEC_ESP32_OTA, fm_exec_format = FW_FMT_BIN, fm_exec_override = False,
     fm_target_board = [], fm_target_id = [], fm_can_bitrate = 0, fm_uart_baud = 0,
     fm_swd_clock_khz = 0, fm_jtag_clock_khz = 0, fm_meta_json = [], fm_encrypted = False,
     fm_save_only = False, fm_original_size = 0\<rparr>"

text \<open>The strings of a meta block fit the arrays of the struct, and hold no terminator.\<close>

definition c_string :: "nat \<Rightarrow> string \<Rightarrow> bool" where
  "c_string n s \<longleftrightarrow> length s < n \<and> CHR 0x00 \<notin> set s"

definition fw_meta_wf :: "fw_meta \<Rightarrow> bool" where
  "fw_meta_wf m \<longleftrightarrow> c_string 64 (fm_file_name m) \<and> c_string 8 (fm_file_type m) \<and>
     c_string 32 (fm_target_board m) \<and> c_string 16 (fm_target_id m) \<and> c_string 256 (fm_meta_json m) \<and>
     fm_original_size m < 2 ^ 32"

fun fw_format_to_str :: "fw_format \<Rightarrow> string" where
  "fw_format_to_str FW_FMT_BIN = ''BIN''"
| "fw_format_to_str FW_FMT_IHEX = ''IHEX''"
| "fw_format_to_str FW_FMT_COFF = ''COFF''"
| "fw_format_to_str FW_FMT_ELF = ''ELF''"
| "fw_format_to_str FW_FMT_UNKNOWN = ''UNKNOWN''"

definition fw_format_from_str :: "string \<Rightarrow> fw_format" where
  "fw_format_from_str str =
     (if strcaseeq str ''BIN'' then FW_FMT_BIN
      else if strcaseeq str ''IHEX'' then FW_FMT_IHEX
      else if strcaseeq str ''HEX'' then FW_FMT_IHEX
      else if strcaseeq str ''COFF'' then FW_FMT_COFF
      else if strcaseeq str ''ELF'' then FW_FMT_ELF
      else FW_FMT_UNKNOWN)"

fun fw_exec_to_str :: "fw_exec \<Rightarrow> string" where
  "fw_exec_to_str FW_EXEC_ESP32_OTA = ''ESP32_OTA''"
| "fw_exec_to_str FW_EXEC_UART_ISP = ''UART_ISP''"
| "fw_exec_to_str FW_EXEC_CAN = ''CAN''"
| "fw_exec_to_str FW_EXEC_SWD = ''SWD''"
| "fw_exec_to_str FW_EXEC_JTAG = ''JTAG''"
| "fw_exec_to_str FW_EXEC_BOOTLOADER = ''BOOTLOADER''"
| "fw_exec_to_str FW_EXEC_STM32_UART = ''STM32_UART''"
| "fw_exec_to_str FW_EXEC_UNKNOWN = ''UNKNOWN''"

definition fw_exec_from_str :: "string \<Rightarrow> fw_exec" where
  "fw_exec_from_str str =
     (if strcaseeq str ''ESP32_OTA'' then FW_EXEC_ESP32_OTA
      else if strcaseeq str ''UART_ISP'' then FW_EXEC_UART_ISP
      else if strcaseeq str ''CAN'' then FW_EXEC_CAN
      else if strcaseeq str ''SWD'' then FW_EXEC_SWD
      else if strcaseeq str ''JTAG'' then FW_EXEC_JTAG
      else if strcaseeq str ''BOOTLOADER'' then FW_EXEC_BOOTLOADER
      else if strcaseeq str ''STM32_UART'' then FW_EXEC_STM32_UART
      else FW_EXEC_UNKNOWN)"

section \<open>The route table\<close>

record fw_route =
  fr_file_type :: string
  fr_format :: fw_format
  fr_exec :: fw_exec
  fr_exec_format :: fw_format

definition fw_route :: "string \<Rightarrow> fw_format \<Rightarrow> fw_exec \<Rightarrow> fw_format \<Rightarrow> fw_route" where
  "fw_route t f e ef = \<lparr>fr_file_type = t, fr_format = f, fr_exec = e, fr_exec_format = ef\<rparr>"

definition k_fw_routes :: "fw_route list" where
  "k_fw_routes =
    [fw_route ''S00'' FW_FMT_BIN FW_EXEC_ESP32_OTA FW_FMT_BIN,
     fw_route ''S01'' FW_FMT_BIN FW_EXEC_STM32_UART FW_FMT_BIN,
     fw_route ''A00'' FW_FMT_UNKNOWN FW_EXEC_UNKNOWN FW_FMT_BIN,
     fw_route ''A01'' FW_FMT_UNKNOWN FW_EXEC_UNKNOWN FW_FMT_BIN,
     fw_route ''A02'' FW_FMT_COFF FW_EXEC_UART_ISP FW_FMT_BIN,
     fw_route ''A03'' FW_FMT_IHEX FW_EXEC_UART_ISP FW_FMT_BIN,
     fw_route ''A04'' FW_FMT_COFF FW_EXEC_UART_ISP FW_FMT_BIN,
     fw_route ''A05'' FW_FMT_COFF FW_EXEC_UART_ISP FW_FMT_BIN,
     fw_route ''A06'' FW_FMT_IHEX FW_EXEC_SWD FW_FMT_BIN,
     fw_route ''A07'' FW_FMT_COFF FW_EXEC_UART_ISP FW_FMT_BIN,
     fw_route ''A08'' FW_FMT_UNKNOWN FW_EXEC_UNKNOWN FW_FMT_BIN,
     fw_route ''A09'' FW_FMT_UNKNOWN FW_EXEC_UNKNOWN FW_FMT_BIN,
     fw_route ''A10'' FW_FMT_IHEX FW_EXEC_UART_ISP FW_FMT_BIN,
     fw_route ''A11'' FW_FMT_IHEX FW_EXEC_UART_ISP FW_FMT_BIN,
     fw_route ''A12'' FW_FMT_IHEX FW_EXEC_UART_ISP FW_FMT_BIN,
     fw_route ''A13'' FW_FMT_IHEX FW_EXEC_UART_ISP FW_FMT_BIN,
     fw_route ''A14'' FW_FMT_IHEX FW_EXEC_UART_ISP FW_FMT_BIN,
     fw_route ''A15'' FW_FMT_IHEX FW_EXEC_SWD FW_FMT_BIN]"

definition fw_registry_lookup :: "string \<Rightarrow> fw_route option" where
  "fw_registry_lookup t = find (\<lambda>r. strneq 3 t (fr_file_type r)) k_fw_routes"

section \<open>Default meta data\<close>

text \<open>
  The entries of the table differ in their type, format, exec and baud rate; encryption is off
  (\<open>FW_STORAGE_ENABLE_ENCRYPT\<close> is 0 unless the build redefines it, here the argument \<open>enc_on\<close>).
\<close>

definition meta_default :: "bool \<Rightarrow> string \<Rightarrow> fw_format \<Rightarrow> fw_exec \<Rightarrow> u32 \<Rightarrow> fw_meta" where
  "meta_default enc_on t f e baud = fw_meta_zero\<lparr>fm_file_type := t, fm_format := f, fm_exec := e,
     fm_exec_format := FW_FMT_BIN, fm_uart_baud := baud, fm_encrypted := enc_on\<rparr>"

definition k_fw_meta_defaults_S :: "bool \<Rightarrow> fw_meta list" where
  "k_fw_meta_defaults_S enc_on =
    [meta_default enc_on ''S00'' FW_FMT_BIN FW_EXEC_ESP32_OTA 0,
     meta_default enc_on ''S01'' FW_FMT_BIN FW_EXEC_STM32_UART 115200]"

definition k_fw_meta_defaults_A0 :: "bool \<Rightarrow> fw_meta list" where
  "k_fw_meta_defaults_A0 enc_on =
    [meta_default enc_on ''A00'' FW_FMT_UNKNOWN FW_EXEC_UNKNOWN 0,
     meta_default enc_on ''A01'' FW_FMT_UNKNOWN FW_EXEC_UNKNOWN 0,
     meta_default enc_on ''A02'' FW_FMT_COFF FW_EXEC_UART_ISP 0,
     meta_default enc_on ''A03'' FW_FMT_IHEX FW_EXEC_UART_ISP 0,
     meta_default enc_on ''A04'' FW_FMT_COFF FW_EXEC_UART_ISP 0,
     meta_default enc_on ''A05'' FW_FMT_COFF FW_EXEC_UART_ISP 0,
     meta_default enc_on ''A06'' FW_FMT_IHEX FW_EXEC_SWD 0,
     meta_default enc_on ''A07'' FW_FMT_COFF FW_EXEC_UART_ISP 0]"

definition k_fw_meta_defaults_A8 :: "bool \<Rightarrow> fw_meta list" where
  "k_fw_meta_defaults_A8 enc_on =
    [meta_default enc_on ''A08'' FW_FMT_UNKNOWN FW_EXEC_UNKNOWN 0,
     meta_default enc_on ''A09'' FW_FMT_UNKNOWN FW_EXEC_UNKNOWN 0,
     meta_default enc_on ''A10'' FW_FMT_IHEX FW_EXEC_UART_ISP 115200,
     meta_default enc_on ''A11'' FW_FMT_IHEX FW_EXEC_UART_ISP 115200,
     meta_default enc_on ''A12'' FW_FMT_IHEX FW_EXEC_UART_ISP 57600,
     meta_default enc_on ''A13'' FW_FMT_IHEX FW_EXEC_UART_ISP 57600,
     meta_default enc_on ''A14'' FW_FMT_IHEX FW_EXEC_UART_ISP 57600,
     meta_default enc_on ''A15'' FW_FMT_IHEX FW_EXEC_SWD 57600]"

definition k_fw_meta_defaults :: "bool \<Rightarrow> fw_meta list" where
  "k_fw_meta_defaults enc_on =
     k_fw_meta_defaults_S enc_on @ k_fw_meta_defaults_A0 enc_on @ k_fw_meta_defaults_A8 enc_on"

definition fw_meta_init_defaults :: "bool \<Rightarrow> fw_meta \<Rightarrow> fw_meta" where
  "fw_meta_init_defaults enc_on m =
     (case find (\<lambda>e. strneq 3 (fm_file_type m) (fm_file_type e)) (k_fw_meta_defaults enc_on) of
        Some e \<Rightarrow> e\<lparr>fm_file_name := fm_file_name m\<rparr>
      | None \<Rightarrow> m\<lparr>fm_format := FW_FMT_BIN, fm_exec := FW_EXEC_UNKNOWN, fm_exec_format := FW_FMT_BIN,
                  fm_exec_override := False, fm_target_board := [], fm_target_id := [],
                  fm_can_bitrate := 0, fm_uart_baud := 0, fm_swd_clock_khz := 0,
                  fm_jtag_clock_khz := 0, fm_meta_json := [], fm_encrypted := enc_on,
                  fm_save_only := False, fm_original_size := 0\<rparr>)"

section \<open>Progress state\<close>

record fw_state =
  s_step :: fw_step
  s_progress :: u8
  s_message :: string

definition fw_state_set_step :: "fw_step \<Rightarrow> string \<Rightarrow> fw_state \<Rightarrow> fw_state" where
  "fw_state_set_step st msg s = s\<lparr>s_step := st, s_message := c_copy 96 msg\<rparr>"

definition fw_state_set_progress :: "u8 \<Rightarrow> fw_state \<Rightarrow> fw_state" where
  "fw_state_set_progress percent s = s\<lparr>s_progress := if 100 < percent then 100 else percent\<rparr>"

section \<open>Legacy BLE context\<close>

record legacy_ctx =
  lc_file_name :: string
  lc_file_type :: string
  lc_expected_size :: nat

definition fw_ble_legacy_set_type :: "string \<Rightarrow> legacy_ctx \<Rightarrow> legacy_ctx" where
  "fw_ble_legacy_set_type t c = c\<lparr>lc_file_type := c_copy 8 t\<rparr>"

definition fw_ble_legacy_set_expected_size :: "nat \<Rightarrow> legacy_ctx \<Rightarrow> legacy_ctx" where
  "fw_ble_legacy_set_expected_size n c = c\<lparr>lc_expected_size := n\<rparr>"

definition fw_ble_legacy_set_file_name :: "string \<Rightarrow> legacy_ctx \<Rightarrow> legacy_ctx" where
  "fw_ble_legacy_set_file_name name c = c\<lparr>lc_file_name := c_copy 64 name\<rparr>"

definition fw_ble_legacy_get_snapshot ::
    "nat \<Rightarrow> nat \<Rightarrow> legacy_ctx \<Rightarrow> bool \<times> string \<times> string \<times> nat" where
  "fw_ble_legacy_get_snapshot name_sz type_sz c =
     (lc_file_name c \<noteq> [] \<or> lc_file_type c \<noteq> [],
      c_copy name_sz (lc_file_name c), c_copy type_sz (lc_file_type c), lc_expected_size c)"

section \<open>Lemmas and properties\<close>

lemma exec_from_to [simp]: "fw_exec_from_str (fw_exec_to_str e) = e"
  by (cases e) (simp_all add: fw_exec_from_str_def strcaseeq_def c_lower_def)

lemma format_from_to [simp]: "fw_format_from_str (fw_format_to_str f) = f"
  by (cases f) (simp_all add: fw_format_from_str_def strcaseeq_def c_lower_def)

text \<open>A keyed table whose keys are distinct answers the same whatever other columns it has.\<close>

lemma find_map_eq:
  assumes "map f xs = map g ys" "\<And>x. P x = Q (f x)" "\<And>y. R y = Q (g y)"
  shows "map_option f (find P xs) = map_option g (find R ys)"
proof -
  have "map_option h (find S zs) = find Q (map h zs)" if "\<And>z. S z = Q (h z)" for h S zs
    using that by (induction zs) simp_all
  from this [of P f xs] this [of R g ys] assms show ?thesis by metis
qed

definition route_view :: "fw_route \<Rightarrow> string \<times> fw_format \<times> fw_exec \<times> fw_format" where
  "route_view r = (fr_file_type r, fr_format r, fr_exec r, fr_exec_format r)"

definition meta_view :: "fw_meta \<Rightarrow> string \<times> fw_format \<times> fw_exec \<times> fw_format" where
  "meta_view m = (fm_file_type m, fm_format m, fm_exec m, fm_exec_format m)"

lemma tables_agree: "map route_view k_fw_routes = map meta_view (k_fw_meta_defaults enc_on)"
  by (simp add: k_fw_routes_def k_fw_meta_defaults_def k_fw_meta_defaults_S_def
      k_fw_meta_defaults_A0_def k_fw_meta_defaults_A8_def route_view_def meta_view_def
      fw_route_def meta_default_def)

text \<open>The route table and the table of default meta data never disagree: for a file type they know
  both give the same type, format, execution kind and execution format, and a type unknown to the
  routes gets the safe defaults (raw binary that nothing executes), with the file name kept in
  every case.\<close>

theorem registry_defaults_agree:
  "fm_file_name (fw_meta_init_defaults enc_on m) = fm_file_name m \<and>
   (case fw_registry_lookup (fm_file_type m) of
      Some r \<Rightarrow> meta_view (fw_meta_init_defaults enc_on m) = route_view r
    | None \<Rightarrow> meta_view (fw_meta_init_defaults enc_on m) =
        (fm_file_type m, FW_FMT_BIN, FW_EXEC_UNKNOWN, FW_FMT_BIN))"
proof -
  have "map_option route_view (fw_registry_lookup (fm_file_type m)) =
      map_option meta_view
        (find (\<lambda>e. strneq 3 (fm_file_type m) (fm_file_type e)) (k_fw_meta_defaults enc_on))"
    unfolding fw_registry_lookup_def
    by (rule find_map_eq [OF tables_agree, where Q = "\<lambda>v. strneq 3 (fm_file_type m) (fst v)"])
      (simp_all add: route_view_def meta_view_def)
  then show ?thesis
    by (auto simp: fw_meta_init_defaults_def meta_view_def split: option.splits)
qed

end
