(* ===== verification/Storage.thy ===== *)
theory Storage
  imports Fw_Types
begin

text \<open>
  Firmware storage on the SD card (\<open>fw_upload_storage.c\<close>, \<open>fw_upload_crypto.c\<close>): paths, the JSON
  meta file beside each image, and the writer and reader of an image, in the clear or encrypted in
  blocks of 16 bytes. The file system is a map from paths to contents. What lies outside the
  sources (the card, \<open>fopen\<close> and \<open>fwrite\<close> results, AES, cJSON, the MAC address) is the record \<open>fw_env\<close>.
\<close>

section \<open>Environment\<close>

datatype jval = JStr string | JNum nat | JBool bool

type_synonym fs = "string \<rightharpoonup> bytes"

text \<open>
  \<open>e_fwrite p bs\<close> is the number of bytes \<open>fwrite\<close> stores; \<open>e_json_parse\<close> yields what
  \<open>cJSON_GetObjectItem\<close> finds in the parsed object, a number as the integer its cast keeps
  (numbers are not negative: the casts to unsigned types give nothing defined for others).
\<close>

record fw_env =
  e_enc_on :: bool
  e_sd_ok :: bool
  e_can_create :: "string \<Rightarrow> bool"
  e_fwrite :: "string \<Rightarrow> bytes \<Rightarrow> nat"
  e_mac :: "bytes option"
  e_aes_enc :: "bytes \<Rightarrow> bytes \<Rightarrow> bytes option"
  e_aes_dec :: "bytes \<Rightarrow> bytes \<Rightarrow> bytes option"
  e_json_alloc :: bool
  e_json_print :: "(string \<times> jval) list \<Rightarrow> bytes option"
  e_json_parse :: "bytes \<Rightarrow> (string \<Rightarrow> jval option) option"

section \<open>Encryption\<close>

definition fw_crypto_init_key :: "fw_env \<Rightarrow> bytes option" where
  "fw_crypto_init_key env =
     (case e_mac env of None \<Rightarrow> None
      | Some mac \<Rightarrow> Some (map (\<lambda>i. mac ! (i mod 6) XOR (0xA5 + of_nat i)) [0..<16]))"

fun aes_loop :: "(bytes \<Rightarrow> bytes option) \<Rightarrow> nat \<Rightarrow> bytes \<Rightarrow> bytes option" where
  "aes_loop block 0 inp = Some []"
| "aes_loop block (Suc n) inp =
     (case block (take 16 inp) of None \<Rightarrow> None
      | Some out \<Rightarrow> (case aes_loop block n (drop 16 inp) of None \<Rightarrow> None
                    | Some outs \<Rightarrow> Some (out @ outs)))"

definition aes_crypt :: "(bytes \<Rightarrow> bytes option) \<Rightarrow> bytes \<Rightarrow> esp_err + bytes" where
  "aes_crypt block inp =
     (if length inp mod 16 \<noteq> 0 then Inl ESP_ERR_INVALID_ARG
      else case aes_loop block (length inp div 16) inp of None \<Rightarrow> Inl ESP_FAIL | Some out \<Rightarrow> Inr out)"

definition fw_crypto_encrypt_block :: "fw_env \<Rightarrow> bytes \<Rightarrow> bytes \<Rightarrow> esp_err + bytes" where
  "fw_crypto_encrypt_block env key inp = aes_crypt (e_aes_enc env key) inp"

definition fw_crypto_decrypt_block :: "fw_env \<Rightarrow> bytes \<Rightarrow> bytes \<Rightarrow> esp_err + bytes" where
  "fw_crypto_decrypt_block env key inp = aes_crypt (e_aes_dec env key) inp"

section \<open>Paths and meta files\<close>

definition fw_storage_build_path :: "nat \<Rightarrow> string \<Rightarrow> string \<Rightarrow> string option" where
  "fw_storage_build_path out_size name type =
     (let p = ''/sdcard/'' @ name @ ''.'' @ type in if length p < out_size then Some p else None)"

definition fw_storage_build_meta_path :: "nat \<Rightarrow> string \<Rightarrow> string \<Rightarrow> string option" where
  "fw_storage_build_meta_path out_size name type =
     (let p = ''/sdcard/'' @ name @ ''.'' @ type @ ''.meta'' in if length p < out_size then Some p else None)"

definition fw_meta_json_obj :: "fw_meta \<Rightarrow> (string \<times> jval) list" where
  "fw_meta_json_obj m =
     [(''file_name'', JStr (fm_file_name m)), (''file_type'', JStr (fm_file_type m)),
      (''format'', JStr (fw_format_to_str (fm_format m))), (''exec'', JStr (fw_exec_to_str (fm_exec m))),
      (''exec_override'', JBool (fm_exec_override m))] @
     (if fm_target_board m \<noteq> [] then [(''target_board'', JStr (fm_target_board m))] else []) @
     (if fm_target_id m \<noteq> [] then [(''target_id'', JStr (fm_target_id m))] else []) @
     (if 0 < fm_can_bitrate m then [(''can_bitrate'', JNum (unat (fm_can_bitrate m)))] else []) @
     (if 0 < fm_uart_baud m then [(''uart_baud'', JNum (unat (fm_uart_baud m)))] else []) @
     (if 0 < fm_swd_clock_khz m then [(''swd_clock_khz'', JNum (unat (fm_swd_clock_khz m)))] else []) @
     (if 0 < fm_jtag_clock_khz m then [(''jtag_clock_khz'', JNum (unat (fm_jtag_clock_khz m)))] else []) @
     (if fm_meta_json m \<noteq> [] then [(''meta_json'', JStr (fm_meta_json m))] else []) @
     [(''encrypted'', JBool (fm_encrypted m)), (''size'', JNum (fm_original_size m))]"

definition fput :: "fw_env \<Rightarrow> string \<Rightarrow> bytes \<Rightarrow> fs \<Rightarrow> nat \<times> fs" where
  "fput env p bs fs = (let n = e_fwrite env p bs in
     (n, fs(p \<mapsto> (case fs p of None \<Rightarrow> [] | Some c \<Rightarrow> c) @ take n bs)))"

definition fw_storage_meta_write :: "fw_env \<Rightarrow> fw_meta \<Rightarrow> fs \<Rightarrow> esp_err \<times> fs" where
  "fw_storage_meta_write env m fs =
     (if \<not> e_sd_ok env then (ESP_FAIL, fs)
      else case fw_storage_build_meta_path 384 (fm_file_name m) (fm_file_type m) of
             None \<Rightarrow> (ESP_ERR_INVALID_ARG, fs)
           | Some p \<Rightarrow>
               if \<not> e_can_create env p then (ESP_FAIL, fs)
               else let fs1 = fs(p \<mapsto> [])
                    in if \<not> e_json_alloc env then (ESP_ERR_NO_MEM, fs1)
                       else case e_json_print env (fw_meta_json_obj m) of
                              None \<Rightarrow> (ESP_OK, fs1)
                            | Some json \<Rightarrow> (ESP_OK, snd (fput env p json fs1)))"

definition jstr :: "jval option \<Rightarrow> string \<Rightarrow> string" where
  "jstr v dflt = (case v of Some (JStr s) \<Rightarrow> s | _ \<Rightarrow> dflt)"

definition jnum :: "jval option \<Rightarrow> nat" where
  "jnum v = (case v of Some (JNum n) \<Rightarrow> n | _ \<Rightarrow> 0)"

definition jbool :: "jval option \<Rightarrow> bool" where
  "jbool v = (case v of Some (JBool b) \<Rightarrow> b | _ \<Rightarrow> False)"

definition fw_storage_meta_read :: "fw_env \<Rightarrow> string \<Rightarrow> string \<Rightarrow> fs \<Rightarrow> esp_err + fw_meta" where
  "fw_storage_meta_read env name type fs =
     (case fw_storage_build_meta_path 384 name type of
        None \<Rightarrow> Inl ESP_ERR_INVALID_ARG
      | Some p \<Rightarrow>
          (case fs p of
             None \<Rightarrow> Inl ESP_FAIL
           | Some contents \<Rightarrow>
               let json_buf = take 511 contents
               in if json_buf = [] then Inl ESP_FAIL
                  else (case e_json_parse env json_buf of
                     None \<Rightarrow> Inl ESP_FAIL
                   | Some get \<Rightarrow> Inr \<lparr>
                       fm_file_name = c_copy 64 (jstr (get ''file_name'') name),
                       fm_file_type = c_copy 8 (jstr (get ''file_type'') type),
                       fm_format = fw_format_from_str (jstr (get ''format'') []),
                       fm_exec = fw_exec_from_str (jstr (get ''exec'') []),
                       fm_exec_format = FW_FMT_BIN,
                       fm_exec_override = jbool (get ''exec_override''),
                       fm_target_board = c_copy 32 (jstr (get ''target_board'') []),
                       fm_target_id = c_copy 16 (jstr (get ''target_id'') []),
                       fm_can_bitrate = of_nat (jnum (get ''can_bitrate'')),
                       fm_uart_baud = of_nat (jnum (get ''uart_baud'')),
                       fm_swd_clock_khz = of_nat (jnum (get ''swd_clock_khz'')),
                       fm_jtag_clock_khz = of_nat (jnum (get ''jtag_clock_khz'')),
                       fm_meta_json = c_copy 256 (jstr (get ''meta_json'') []),
                       fm_encrypted = jbool (get ''encrypted''),
                       fm_save_only = False,
                       fm_original_size = jnum (get ''size'')\<rparr>)))"

section \<open>Writer\<close>

text \<open>\<open>w_buffer\<close> holds the \<open>buffered\<close> bytes of the 16 byte buffer; \<open>w_path\<close> stands for the file handle.\<close>

record fw_storage_writer =
  w_path :: "string option"
  w_meta :: fw_meta
  w_encrypted_written :: nat
  w_buffer :: bytes
  w_key :: bytes
  w_active :: bool

definition fw_storage_writer_zero :: fw_storage_writer where
  "fw_storage_writer_zero = \<lparr>w_path = None, w_meta = fw_meta_zero, w_encrypted_written = 0,
     w_buffer = [], w_key = replicate 16 0, w_active = False\<rparr>"

definition fw_storage_writer_open :: "fw_env \<Rightarrow> fw_storage_writer \<Rightarrow> fw_meta \<Rightarrow> fs \<Rightarrow>
    esp_err \<times> fw_storage_writer \<times> fs" where
  "fw_storage_writer_open env w m fs =
     (if \<not> e_sd_ok env then (ESP_FAIL, w, fs)
      else let w1 = fw_storage_writer_zero\<lparr>w_meta := m\<rparr>
           in case fw_storage_build_path 384 (fm_file_name m) (fm_file_type m) of
                None \<Rightarrow> (ESP_ERR_INVALID_ARG, w1, fs)
              | Some p \<Rightarrow>
                  if \<not> e_can_create env p then (ESP_FAIL, w1, fs)
                  else let fs1 = fs(p \<mapsto> [])
                       in if e_enc_on env
                          then (case fw_crypto_init_key env of
                                  None \<Rightarrow> (ESP_FAIL, w1, fs1)
                                | Some key \<Rightarrow> (ESP_OK, w1\<lparr>w_path := Some p, w_key := key, w_active := True\<rparr>, fs1))
                          else (ESP_OK, w1\<lparr>w_path := Some p, w_active := True\<rparr>, fs1))"

text \<open>A full buffer is encrypted and appended; the result of this \<open>fwrite\<close> is not looked at.\<close>

definition writer_flush :: "fw_env \<Rightarrow> string \<Rightarrow> bytes \<Rightarrow> fw_storage_writer \<Rightarrow> fs \<Rightarrow>
    esp_err \<times> fw_storage_writer \<times> fs" where
  "writer_flush env p block w fs =
     (case fw_crypto_encrypt_block env (w_key w) block of
        Inl _ \<Rightarrow> (ESP_FAIL, w, fs)
      | Inr out \<Rightarrow> (ESP_OK, w\<lparr>w_encrypted_written := w_encrypted_written w + 16, w_buffer := []\<rparr>,
                   snd (fput env p out fs)))"

function writer_loop :: "fw_env \<Rightarrow> string \<Rightarrow> bytes \<Rightarrow> fw_storage_writer \<Rightarrow> fs \<Rightarrow>
    esp_err \<times> fw_storage_writer \<times> fs" where
  "writer_loop env p data w fs =
     (if data = [] then (ESP_OK, w, fs)
      else let to_copy = min (16 - length (w_buffer w)) (length data);
               w1 = w\<lparr>w_buffer := w_buffer w @ take to_copy data\<rparr>;
               rest = drop to_copy data
           in if 16 \<le> length (w_buffer w1)
              then (case writer_flush env p (w_buffer w1) w1 fs of
                      (r, w2, fs2) \<Rightarrow> if r \<noteq> ESP_OK then (r, w2, fs2)
                                    else writer_loop env p rest (w2\<lparr>w_buffer := []\<rparr>) fs2)
              else writer_loop env p rest w1 fs)"
  by auto
termination
  by (relation "measure (\<lambda>(env, p, data, w, fs). 2 * length data + (if 16 \<le> length (w_buffer w) then 1 else 0))")
    (auto simp: min_def)

definition fw_storage_writer_write :: "fw_env \<Rightarrow> bytes \<Rightarrow> fw_storage_writer \<Rightarrow> fs \<Rightarrow>
    esp_err \<times> fw_storage_writer \<times> fs" where
  "fw_storage_writer_write env data w fs =
     (case w_path w of
        Some p \<Rightarrow>
          if \<not> w_active w \<or> data = [] then (ESP_ERR_INVALID_ARG, w, fs)
          else if \<not> e_enc_on env
               then (let (written, fs1) = fput env p data fs
                     in (if written = length data then ESP_OK else ESP_FAIL, w, fs1))
          else writer_loop env p data w fs
      | None \<Rightarrow> (ESP_ERR_INVALID_ARG, w, fs))"

definition fw_storage_writer_close :: "fw_env \<Rightarrow> fw_storage_writer \<Rightarrow> fs \<Rightarrow>
    esp_err \<times> fw_storage_writer \<times> fs" where
  "fw_storage_writer_close env w fs =
     (case w_path w of
        Some p \<Rightarrow>
          if \<not> w_active w then (ESP_ERR_INVALID_ARG, w, fs)
          else let (r, w1, fs1) =
                 (if e_enc_on env \<and> w_buffer w \<noteq> []
                  then writer_flush env p (w_buffer w @ replicate (16 - length (w_buffer w)) 0) w fs
                  else (ESP_OK, w, fs))
               in if r \<noteq> ESP_OK then (r, w1, fs1)
                  else let w2 = w1\<lparr>w_path := None, w_active := False\<rparr>;
                           (r2, fs2) = fw_storage_meta_write env (w_meta w2) fs1
                       in (r2, w2, fs2)
      | None \<Rightarrow> (ESP_ERR_INVALID_ARG, w, fs))"

section \<open>Reader\<close>

text \<open>\<open>r_file\<close> is the part of the open file not read yet, \<open>r_buffer\<close> the decrypted bytes still to hand out.\<close>

record fw_storage_reader =
  r_file :: bytes
  r_meta :: fw_meta
  r_remaining :: nat
  r_buffer :: bytes
  r_key :: bytes
  r_active :: bool
  r_encrypted :: bool

definition fw_storage_reader_open :: "fw_env \<Rightarrow> string \<Rightarrow> string \<Rightarrow> fs \<Rightarrow> esp_err + fw_storage_reader" where
  "fw_storage_reader_open env name type fs =
     (if \<not> e_sd_ok env then Inl ESP_FAIL
      else let mr = fw_storage_meta_read env name type fs;
               meta = (case mr of
                         Inr m \<Rightarrow> m
                       | Inl _ \<Rightarrow> fw_meta_zero\<lparr>fm_file_name := c_copy 64 name, fm_file_type := c_copy 8 type\<rparr>)
           in case fw_storage_build_path 384 name type of
                None \<Rightarrow> Inl ESP_ERR_INVALID_ARG
              | Some p \<Rightarrow>
                  (case fs p of
                     None \<Rightarrow> Inl ESP_FAIL
                   | Some contents \<Rightarrow>
                       let meta1 = (case mr of Inr _ \<Rightarrow> meta
                                    | Inl _ \<Rightarrow> meta\<lparr>fm_original_size := length contents\<rparr>);
                           r = \<lparr>r_file = contents, r_meta = meta1, r_remaining = fm_original_size meta1,
                                r_buffer = [], r_key = replicate 16 0, r_active = True,
                                r_encrypted = False\<rparr>
                       in if e_enc_on env
                          then (case fw_crypto_init_key env of
                                  None \<Rightarrow> Inl ESP_FAIL
                                | Some key \<Rightarrow> Inr (r\<lparr>r_key := key, r_encrypted := fm_encrypted meta1\<rparr>))
                          else Inr r))"

text \<open>Fetching the next block when the buffer is empty; \<open>None\<close> is the loop's \<open>break\<close>, after the read.\<close>

definition reader_refill :: "fw_env \<Rightarrow> fw_storage_reader \<Rightarrow> bool \<times> fw_storage_reader" where
  "reader_refill env r =
     (if r_buffer r \<noteq> [] then (True, r)
      else let enc = take 16 (r_file r); r1 = r\<lparr>r_file := drop 16 (r_file r)\<rparr>
           in if length enc \<noteq> 16 then (False, r1)
              else (case fw_crypto_decrypt_block env (r_key r) enc of
                      Inl _ \<Rightarrow> (False, r1)
                    | Inr dec \<Rightarrow> (dec \<noteq> [], r1\<lparr>r_buffer := dec\<rparr>)))"

lemma reader_refill_remaining [simp]: "r_remaining (snd (reader_refill env r)) = r_remaining r"
  by (simp add: reader_refill_def Let_def split: sum.splits)

lemma reader_refill_buffer: "fst (reader_refill env r) \<Longrightarrow> r_buffer (snd (reader_refill env r)) \<noteq> []"
  by (auto simp: reader_refill_def Let_def split: sum.splits if_splits)

function reader_loop :: "fw_env \<Rightarrow> nat \<Rightarrow> fw_storage_reader \<Rightarrow> bytes \<times> fw_storage_reader" where
  "reader_loop env want r =
     (if want = 0 \<or> r_remaining r = 0 then ([], r)
      else let (ok, r1) = reader_refill env r
           in if \<not> ok then ([], r1)
              else let to_copy = min (min (length (r_buffer r1)) (r_remaining r1)) want;
                       (bs, r2) = reader_loop env (want - to_copy)
                         (r1\<lparr>r_buffer := drop to_copy (r_buffer r1),
                             r_remaining := r_remaining r1 - to_copy\<rparr>)
                   in (take to_copy (r_buffer r1) @ bs, r2))"
  by auto
termination
proof (relation "measure (\<lambda>(env, want, r). r_remaining r)", goal_cases)
  case (2 env want r x ok r1 to_copy)
  then have "ok" "reader_refill env r = (ok, r1)" by auto
  then have "r_remaining r1 = r_remaining r" "r_buffer r1 \<noteq> []"
    using reader_refill_remaining [of env r] reader_refill_buffer [of env r] by auto
  with 2 show ?case by (auto simp: min_def)
qed simp

definition fw_storage_reader_read :: "fw_env \<Rightarrow> fw_storage_reader \<Rightarrow> nat \<Rightarrow> bytes \<times> fw_storage_reader" where
  "fw_storage_reader_read env r out_len =
     (if \<not> r_active r \<or> out_len = 0 then ([], r)
      else if \<not> r_encrypted r
           then (take out_len (r_file r), r\<lparr>r_file := drop out_len (r_file r)\<rparr>)
      else reader_loop env out_len r)"

definition fw_storage_reader_close :: "fw_storage_reader \<Rightarrow> fw_storage_reader" where
  "fw_storage_reader_close r = (if \<not> r_active r then r else r\<lparr>r_active := False\<rparr>)"


section \<open>The reader meets the reader contract\<close>

declare reader_loop.simps [simp del] writer_loop.simps [simp del]

lemma aes_one_block: "length b = 16 \<Longrightarrow> aes_crypt f b =
    (case f b of None \<Rightarrow> Inl ESP_FAIL | Some c \<Rightarrow> Inr c)"
proof -
  assume b: "length b = 16"
  have "aes_loop f 1 b = f b"
    using b by (auto simp: One_nat_def split: option.splits)
  then show ?thesis using b by (simp add: aes_crypt_def)
qed

lemma crypt_one_block:
  "length b = 16 \<Longrightarrow> fw_crypto_encrypt_block env key b =
     (case e_aes_enc env key b of None \<Rightarrow> Inl ESP_FAIL | Some c \<Rightarrow> Inr c)"
  "length b = 16 \<Longrightarrow> fw_crypto_decrypt_block env key b =
     (case e_aes_dec env key b of None \<Rightarrow> Inl ESP_FAIL | Some c \<Rightarrow> Inr c)"
  by (simp_all add: fw_crypto_encrypt_block_def fw_crypto_decrypt_block_def aes_one_block)

text \<open>The plaintext of the next \<open>n\<close> blocks, and all that a reader still has to hand out.\<close>

fun dec_stream :: "fw_env \<Rightarrow> bytes \<Rightarrow> nat \<Rightarrow> bytes \<Rightarrow> bytes" where
  "dec_stream env key 0 bs = []"
| "dec_stream env key (Suc n) bs =
     (case e_aes_dec env key (take 16 bs) of None \<Rightarrow> []
      | Some d \<Rightarrow> d @ dec_stream env key n (drop 16 bs))"

definition reader_rest :: "fw_env \<Rightarrow> fw_storage_reader \<Rightarrow> bytes" where
  "reader_rest env r =
     (if \<not> r_active r then []
      else if \<not> r_encrypted r then r_file r
      else take (r_remaining r)
             (r_buffer r @ dec_stream env (r_key r) (length (r_file r) div 16) (r_file r)))"

definition aes_dec_total :: "fw_env \<Rightarrow> bytes \<Rightarrow> bool" where
  "aes_dec_total env key \<longleftrightarrow> (\<forall>b. length b = 16 \<longrightarrow> (\<exists>d. e_aes_dec env key b = Some d \<and> length d = 16))"

definition reader_ok :: "fw_env \<Rightarrow> fw_storage_reader \<Rightarrow> bool" where
  "reader_ok env r \<longleftrightarrow> (r_encrypted r \<longrightarrow> aes_dec_total env (r_key r))"

definition reader_plain :: "fw_env \<Rightarrow> fw_storage_reader \<Rightarrow> bytes" where
  "reader_plain env r = r_buffer r @ dec_stream env (r_key r) (length (r_file r) div 16) (r_file r)"

lemma refill_frame [frame_rules]:
  "r_key (snd (reader_refill env r)) = r_key r"
  "r_active (snd (reader_refill env r)) = r_active r"
  "r_encrypted (snd (reader_refill env r)) = r_encrypted r"
  by (simp_all add: reader_refill_def Let_def split: sum.splits)

lemma refill_plain:
  assumes "aes_dec_total env (r_key r)"
  shows "reader_plain env (snd (reader_refill env r)) = reader_plain env r \<and>
    (\<not> fst (reader_refill env r) \<longrightarrow> reader_plain env r = [])"
proof (cases "r_buffer r \<noteq> [] \<or> length (r_file r) < 16")
  case True
  then show ?thesis by (auto simp: reader_refill_def Let_def reader_plain_def)
next
  case False
  then have "length (take 16 (r_file r)) = 16" by simp
  with assms obtain d where d: "e_aes_dec env (r_key r) (take 16 (r_file r)) = Some d" "length d = 16"
    unfolding aes_dec_total_def by blast
  have "length (r_file r) div 16 = Suc ((length (r_file r) - 16) div 16)"
    using False by (simp add: le_div_geq)
  then show ?thesis
    using False d by (auto simp: reader_refill_def Let_def crypt_one_block reader_plain_def)
qed

text \<open>What a read hands out, and what it leaves.\<close>

definition read_split :: "fw_env \<Rightarrow> fw_storage_reader \<Rightarrow> nat \<Rightarrow> bytes \<times> fw_storage_reader \<Rightarrow> bool" where
  "read_split env r want res \<longleftrightarrow>
     take (r_remaining r) (reader_plain env r) =
       fst res @ take (r_remaining (snd res)) (reader_plain env (snd res)) \<and>
     length (fst res) \<le> want \<and>
     (0 < want \<longrightarrow> fst res = [] \<longrightarrow> take (r_remaining r) (reader_plain env r) = []) \<and>
     r_key (snd res) = r_key r \<and> r_active (snd res) = r_active r \<and>
     r_encrypted (snd res) = r_encrypted r"

lemma read_split_take:
  fixes r1 :: fw_storage_reader and want :: nat
  defines "n \<equiv> min (min (length (r_buffer r1)) (r_remaining r1)) want"
  assumes "r_buffer r1 \<noteq> []" "0 < want" "0 < r_remaining r1"
    and "read_split env (r1\<lparr>r_buffer := drop n (r_buffer r1), r_remaining := r_remaining r1 - n\<rparr>)
      (want - n) (bs, r2)"
  shows "read_split env r1 want (take n (r_buffer r1) @ bs, r2)"
proof -
  have n: "0 < n" "n \<le> length (r_buffer r1)" "n \<le> r_remaining r1" "n \<le> want"
    using assms(2-4) by (auto simp: n_def)
  have "take (r_remaining r1) (reader_plain env r1) =
      take n (r_buffer r1) @ take (r_remaining r1 - n)
        (reader_plain env (r1\<lparr>r_buffer := drop n (r_buffer r1), r_remaining := r_remaining r1 - n\<rparr>))"
    using n take_add [of n "r_remaining r1 - n" "reader_plain env r1"]
    by (simp add: reader_plain_def)
  moreover have "take n (r_buffer r1) \<noteq> []" using n assms(2) by auto
  ultimately show ?thesis using assms(5) n by (auto simp: read_split_def)
qed

lemma reader_loop_split:
  "aes_dec_total env (r_key r) \<Longrightarrow> read_split env r want (reader_loop env want r)"
proof (induction env want r rule: reader_loop.induct)
  case (1 env want r)
  obtain ok r1 where f: "reader_refill env r = (ok, r1)" by (cases "reader_refill env r")
  have r1: "reader_plain env r1 = reader_plain env r" "\<not> ok \<Longrightarrow> reader_plain env r = []"
    "r_remaining r1 = r_remaining r" "r_key r1 = r_key r" "r_active r1 = r_active r"
    "r_encrypted r1 = r_encrypted r"
    using refill_plain [OF 1(2)] refill_frame [of env r] reader_refill_remaining [of env r]
    by (auto simp: f)
  consider "want = 0 \<or> r_remaining r = 0" | "0 < want" "0 < r_remaining r" "\<not> ok"
    | "0 < want" "0 < r_remaining r" "ok" by linarith
  then show ?case
  proof cases
    case 1
    then show ?thesis by (subst reader_loop.simps) (auto simp: read_split_def)
  next
    case 2
    then show ?thesis using r1 f by (subst reader_loop.simps) (simp add: read_split_def)
  next
    case 3
    define n where "n = min (min (length (r_buffer r1)) (r_remaining r1)) want"
    define r2 where "r2 = r1\<lparr>r_buffer := drop n (r_buffer r1), r_remaining := r_remaining r1 - n\<rparr>"
    obtain bs r3 where r3: "reader_loop env (want - n) r2 = (bs, r3)"
      by (cases "reader_loop env (want - n) r2")
    have "aes_dec_total env (r_key r2)" using 1(2) r1 by (simp add: r2_def)
    with 1(1) [OF _ refl f [symmetric]] 3 have "read_split env r2 (want - n) (bs, r3)"
      by (simp add: r2_def n_def r3 [unfolded r2_def n_def])
    moreover have "r_buffer r1 \<noteq> []" using reader_refill_buffer [of env r] 3 f by simp
    ultimately have "read_split env r1 want (take n (r_buffer r1) @ bs, r3)"
      unfolding n_def r2_def using 3 r1 by (intro read_split_take) auto
    moreover have "reader_loop env want r = (take n (r_buffer r1) @ bs, r3)"
      using 3 f r3 by (subst reader_loop.simps) (simp add: n_def r2_def Let_def)
    ultimately show ?thesis unfolding read_split_def r1 by metis
  qed
qed

text \<open>
  Whatever the environment, a read that delivers something leaves less to read: the measure of
  every loop over a reader.
\<close>

definition reader_left :: "fw_storage_reader \<Rightarrow> nat" where
  "reader_left r = (if r_encrypted r then r_remaining r else length (r_file r))"

lemma reader_loop_left:
  "r_encrypted (snd (reader_loop env want r)) = r_encrypted r \<and>
   r_remaining (snd (reader_loop env want r)) + length (fst (reader_loop env want r)) = r_remaining r"
proof (induction env want r rule: reader_loop.induct)
  case (1 env want r)
  obtain ok r1 where f: "reader_refill env r = (ok, r1)" by (cases "reader_refill env r")
  have r1: "r_remaining r1 = r_remaining r" "r_encrypted r1 = r_encrypted r"
    using refill_frame [of env r] reader_refill_remaining [of env r] by (auto simp: f)
  show ?case
  proof (cases "want = 0 \<or> r_remaining r = 0 \<or> \<not> ok")
    case True
    then show ?thesis using r1 f by (subst (1 2 3) reader_loop.simps) auto
  next
    case False
    define n where "n = min (min (length (r_buffer r1)) (r_remaining r1)) want"
    define r2 where "r2 = r1\<lparr>r_buffer := drop n (r_buffer r1), r_remaining := r_remaining r1 - n\<rparr>"
    obtain bs r3 where r3: "reader_loop env (want - n) r2 = (bs, r3)"
      by (cases "reader_loop env (want - n) r2")
    have "reader_loop env want r = (take n (r_buffer r1) @ bs, r3)"
      using False f r3 by (subst reader_loop.simps) (simp add: n_def r2_def Let_def)
    moreover have "r_encrypted r3 = r_encrypted r2 \<and> r_remaining r3 + length bs = r_remaining r2"
      using 1 [OF _ refl f [symmetric]] False r3 by (simp add: n_def r2_def)
    ultimately show ?thesis using r1 by (auto simp: r2_def n_def)
  qed
qed

lemma reader_read_left:
  "fw_storage_reader_read env r n = (buf, r1) \<Longrightarrow> buf \<noteq> [] \<Longrightarrow> reader_left r1 < reader_left r"
  using reader_loop_left [of env n r]
  by (cases "r_file r"; cases buf) (auto simp: fw_storage_reader_read_def reader_left_def split: if_splits)

interpretation storage: byte_reader "fw_storage_reader_read env" "reader_rest env" "reader_ok env" for env
proof
  fix r n
  assume ok: "reader_ok env r"
  let ?res = "fw_storage_reader_read env r n"
  have enc: "read_split env r n ?res" if "r_active r" "r_encrypted r" "n \<noteq> 0"
    using that ok reader_loop_split [of env r n]
    by (simp add: fw_storage_reader_read_def reader_ok_def)
  have rest: "reader_rest env r = take (r_remaining r) (reader_plain env r)" if "r_active r" "r_encrypted r" for r
    using that by (simp add: reader_rest_def reader_plain_def)
  consider "\<not> r_active r \<or> n = 0" | "r_active r" "n \<noteq> 0" "\<not> r_encrypted r" | "r_active r" "r_encrypted r" "n \<noteq> 0"
    by blast
  then have "reader_rest env r = fst ?res @ reader_rest env (snd ?res) \<and> reader_ok env (snd ?res) \<and>
    length (fst ?res) \<le> n \<and> (0 < n \<longrightarrow> fst ?res = [] \<longrightarrow> reader_rest env r = [])"
  proof cases
    case 3
    then have "r_active (snd ?res)" "r_encrypted (snd ?res)" "r_key (snd ?res) = r_key r"
      using enc [OF 3] by (simp_all add: read_split_def)
    with 3 show ?thesis using enc [OF 3] ok rest [of r] rest [of "snd ?res"]
      unfolding read_split_def reader_ok_def by metis
  qed (use ok in \<open>auto simp: fw_storage_reader_read_def reader_rest_def reader_ok_def\<close>)
  then show "reader_rest env r = fst ?res @ reader_rest env (snd ?res)" "reader_ok env (snd ?res)"
    "length (fst ?res) \<le> n" "0 < n \<Longrightarrow> fst ?res = [] \<Longrightarrow> reader_rest env r = []" by auto
qed


section \<open>The writer\<close>

text \<open>The file of an encrypting writer that has been given \<open>data\<close> so far.\<close>

definition writer_inv :: "fw_env \<Rightarrow> string \<Rightarrow> fw_storage_writer \<Rightarrow> fs \<Rightarrow> bytes \<Rightarrow> bool" where
  "writer_inv env p w fs data \<longleftrightarrow> length (w_buffer w) < 16 \<and>
     (\<exists>k blocks ct. data = blocks @ w_buffer w \<and> length blocks = 16 * k \<and>
        aes_loop (e_aes_enc env (w_key w)) k blocks = Some ct \<and> fs p = Some ct)"

text \<open>The documented behaviour the storage relies on: AES decryption inverts encryption on blocks.\<close>

definition aes_works :: "fw_env \<Rightarrow> bytes \<Rightarrow> bool" where
  "aes_works env key \<longleftrightarrow> (\<forall>b. length b = 16 \<longrightarrow>
     (\<exists>c. e_aes_enc env key b = Some c \<and> length c = 16 \<and> e_aes_dec env key c = Some b))"

definition fwrite_works :: "fw_env \<Rightarrow> bool" where
  "fwrite_works env \<longleftrightarrow> (\<forall>p bs. e_fwrite env p bs = length bs)"

lemma aes_loop_snoc:
  "length blocks = 16 * k \<Longrightarrow> length b = 16 \<Longrightarrow> aes_loop f k blocks = Some ct \<Longrightarrow> f b = Some c \<Longrightarrow>
     aes_loop f (Suc k) (blocks @ b) = Some (ct @ c)"
proof (induction k arbitrary: blocks ct)
  case 0
  then show ?case by simp
next
  case (Suc k)
  obtain out outs where o: "f (take 16 blocks) = Some out" "aes_loop f k (drop 16 blocks) = Some outs"
    "ct = out @ outs"
    using Suc.prems(3) by (auto split: option.splits)
  have "aes_loop f (Suc k) (drop 16 blocks @ b) = Some (outs @ c)"
    using Suc.IH [of "drop 16 blocks" outs] Suc.prems o by simp
  moreover have "take 16 (blocks @ b) = take 16 blocks" "drop 16 (blocks @ b) = drop 16 blocks @ b"
    using Suc.prems(1) by simp_all
  ultimately show ?case
    by (subst aes_loop.simps(2)) (simp only: o option.case append_assoc)
qed

text \<open>The writer changes only its own file, and keeps its parameters.\<close>

definition writer_frame :: "string \<Rightarrow> fw_storage_writer \<Rightarrow> fs \<Rightarrow> fw_storage_writer \<Rightarrow> fs \<Rightarrow> bool" where
  "writer_frame p w fs w' fs' \<longleftrightarrow> w_path w' = w_path w \<and> w_meta w' = w_meta w \<and> w_key w' = w_key w \<and>
     w_active w' = w_active w \<and> (\<forall>q. q \<noteq> p \<longrightarrow> fs' q = fs q)"

lemma writer_frame_refl [simp]: "writer_frame p w fs w fs"
  by (simp add: writer_frame_def)

lemma writer_frame_trans:
  "writer_frame p w fs w1 fs1 \<Longrightarrow> writer_frame p w1 fs1 w2 fs2 \<Longrightarrow> writer_frame p w fs w2 fs2"
  by (simp add: writer_frame_def)

lemma writer_flush_ok:
  assumes "aes_works env (w_key w)" "fwrite_works env" "length b = 16"
    "length blocks = 16 * k" "aes_loop (e_aes_enc env (w_key w)) k blocks = Some ct" "fs p = Some ct"
  shows "\<exists>w' fs' ct'. writer_flush env p b w fs = (ESP_OK, w', fs') \<and> w_buffer w' = [] \<and>
    aes_loop (e_aes_enc env (w_key w)) (Suc k) (blocks @ b) = Some ct' \<and> fs' p = Some ct' \<and>
    writer_frame p w fs w' fs'"
proof -
  obtain c where c: "e_aes_enc env (w_key w) b = Some c" "length c = 16"
    using assms(1,3) by (auto simp: aes_works_def)
  have "writer_flush env p b w fs =
      (ESP_OK, w\<lparr>w_encrypted_written := w_encrypted_written w + 16, w_buffer := []\<rparr>, fs(p \<mapsto> ct @ c))"
    using assms c by (simp add: writer_flush_def crypt_one_block fput_def fwrite_works_def Let_def)
  with aes_loop_snoc [OF assms(4,3,5) c(1)] show ?thesis
    by (simp add: writer_frame_def)
qed

lemma writer_loop_ok:
  assumes "aes_works env (w_key w)" "fwrite_works env" "writer_inv env p w fs D"
  shows "\<exists>w' fs'. writer_loop env p data w fs = (ESP_OK, w', fs') \<and>
    writer_inv env p w' fs' (D @ data) \<and> writer_frame p w fs w' fs'"
  using assms
proof (induction env p data w fs arbitrary: D rule: writer_loop.induct)
  case (1 env p data w fs)
  define k where "k = min (16 - length (w_buffer w)) (length data)"
  define w1 where "w1 = w\<lparr>w_buffer := w_buffer w @ take k data\<rparr>"
  obtain n blocks ct where inv: "D = blocks @ w_buffer w" "length blocks = 16 * n"
    "aes_loop (e_aes_enc env (w_key w)) n blocks = Some ct" "fs p = Some ct"
    using 1(5) by (auto simp: writer_inv_def)
  have len: "length (w_buffer w) < 16" using 1(5) by (simp add: writer_inv_def)
  have key: "w_key w1 = w_key w" by (simp add: w1_def)
  show ?case
  proof (cases "data = []")
    case True
    then show ?thesis using 1(5) by (subst writer_loop.simps) simp
  next
    case data: False
    show ?thesis
    proof (cases "16 \<le> length (w_buffer w1)")
      case True
      then have b: "length (w_buffer w1) = 16" using len by (auto simp: w1_def k_def min_def)
      obtain w2 fs2 ct2 where f: "writer_flush env p (w_buffer w1) w1 fs = (ESP_OK, w2, fs2)"
        "w_buffer w2 = []"
        "aes_loop (e_aes_enc env (w_key w)) (Suc n) (blocks @ w_buffer w1) = Some ct2"
        "fs2 p = Some ct2" "writer_frame p w1 fs w2 fs2"
        using writer_flush_ok [of env w1 "w_buffer w1" blocks n ct fs p] 1(3,4) inv b key by auto
      have k2: "w_key w2 = w_key w" using f(5) key by (simp add: writer_frame_def)
      have "writer_inv env p w2 fs2 (D @ take k data)"
        unfolding writer_inv_def using f inv b k2
        by (auto intro!: exI [of _ "Suc n"] exI [of _ "blocks @ w_buffer w1"] exI [of _ ct2]
            simp: w1_def)
      moreover have "w2\<lparr>w_buffer := []\<rparr> = w2" using f(2) by simp
      ultimately obtain w' fs' where
        r: "writer_loop env p (drop k data) (w2\<lparr>w_buffer := []\<rparr>) fs2 = (ESP_OK, w', fs')"
        "writer_inv env p w' fs' ((D @ take k data) @ drop k data)"
        "writer_frame p w2 fs2 w' fs'"
        using 1(1) [OF data k_def w1_def refl True f(1) [symmetric] refl, of "D @ take k data"] 1(3,4) k2
        by (auto simp: writer_frame_def)
      have "writer_frame p w fs w1 fs" by (simp add: writer_frame_def w1_def)
      then have "writer_frame p w fs w' fs'"
        using f(5) r(3) writer_frame_trans by blast
      moreover have "writer_loop env p data w fs = (ESP_OK, w', fs')"
        using data True f(1) r(1) True [unfolded w1_def, simplified]
        by (subst writer_loop.simps) (simp add: Let_def flip: k_def w1_def)
      ultimately show ?thesis using r(2) by simp
    next
      case False
      have "writer_inv env p w1 fs (D @ take k data)"
        using False inv by (auto simp: writer_inv_def w1_def)
      then obtain w' fs' where
        r: "writer_loop env p (drop k data) w1 fs = (ESP_OK, w', fs')"
        "writer_inv env p w' fs' ((D @ take k data) @ drop k data)"
        "writer_frame p w1 fs w' fs'"
        using 1(2) [OF data k_def w1_def refl False, of "D @ take k data"] 1(3,4) key by auto
      have "writer_frame p w fs w1 fs" by (simp add: writer_frame_def w1_def)
      then have "writer_frame p w fs w' fs'" using r(3) writer_frame_trans by blast
      moreover have "writer_loop env p data w fs = (ESP_OK, w', fs')"
        using data False r(1) False [unfolded w1_def, simplified]
        by (subst writer_loop.simps) (simp add: Let_def flip: k_def w1_def)
      ultimately show ?thesis using r(2) by simp
    qed
  qed
qed


section \<open>Meta files\<close>

lemma map_of_optional:
  "map_of (if b then [(k', v)] else []) k = (if b \<and> k = k' then Some v else None)"
  by simp

lemma map_of_app: "map_of (xs @ ys) k = (case map_of xs k of None \<Rightarrow> map_of ys k | Some v \<Rightarrow> Some v)"
  by (auto simp: map_add_def split: option.splits)

lemma json_obj_get:
  fixes m defines "get \<equiv> map_of (fw_meta_json_obj m)"
  shows "jstr (get ''file_name'') n = fm_file_name m" "jstr (get ''file_type'') t = fm_file_type m"
    "fw_format_from_str (jstr (get ''format'') []) = fm_format m"
    "fw_exec_from_str (jstr (get ''exec'') []) = fm_exec m"
    "jbool (get ''exec_override'') = fm_exec_override m"
    "jstr (get ''target_board'') [] = fm_target_board m" "jstr (get ''target_id'') [] = fm_target_id m"
    "of_nat (jnum (get ''can_bitrate'')) = fm_can_bitrate m"
    "of_nat (jnum (get ''uart_baud'')) = fm_uart_baud m"
    "of_nat (jnum (get ''swd_clock_khz'')) = fm_swd_clock_khz m"
    "of_nat (jnum (get ''jtag_clock_khz'')) = fm_jtag_clock_khz m"
    "jstr (get ''meta_json'') [] = fm_meta_json m"
    "jbool (get ''encrypted'') = fm_encrypted m" "jnum (get ''size'') = fm_original_size m"
  by (simp_all add: get_def fw_meta_json_obj_def map_of_app map_of_optional jstr_def jnum_def jbool_def
      word_neq_0_conv [symmetric] del: map_of_append)

text \<open>The JSON library prints a meta block and returns what it printed when asked for it. Apart from
  that, what was printed must fit the buffer of the reader.\<close>

definition json_works :: "fw_env \<Rightarrow> fw_meta \<Rightarrow> bool" where
  "json_works env m \<longleftrightarrow> e_json_alloc env \<and>
     (\<exists>j. e_json_print env (fw_meta_json_obj m) = Some j \<and> j \<noteq> [] \<and>
        e_json_parse env j = Some (map_of (fw_meta_json_obj m)))"

definition meta_fits :: "fw_env \<Rightarrow> fw_meta \<Rightarrow> bool" where
  "meta_fits env m \<longleftrightarrow> (\<forall>j. e_json_print env (fw_meta_json_obj m) = Some j \<longrightarrow> length j \<le> 511)"

lemma paths_ok:
  assumes "fw_meta_wf m"
  shows "fw_storage_build_path 384 (fm_file_name m) (fm_file_type m) =
      Some (''/sdcard/'' @ fm_file_name m @ ''.'' @ fm_file_type m)"
    "fw_storage_build_meta_path 384 (fm_file_name m) (fm_file_type m) =
      Some (''/sdcard/'' @ fm_file_name m @ ''.'' @ fm_file_type m @ ''.meta'')"
  using assms by (simp_all add: fw_meta_wf_def c_string_def fw_storage_build_path_def
      fw_storage_build_meta_path_def)

lemma meta_write_file:
  assumes "e_sd_ok env" "fw_meta_wf m" "fwrite_works env" "\<forall>p. e_can_create env p"
    and "e_json_alloc env" "e_json_print env (fw_meta_json_obj m) = Some j" "j \<noteq> []"
  shows "fw_storage_meta_write env m fs =
    (ESP_OK, fs(''/sdcard/'' @ fm_file_name m @ ''.'' @ fm_file_type m @ ''.meta'' \<mapsto> j))"
  using assms
  by (simp add: fw_storage_meta_write_def paths_ok [OF assms(2)] fput_def fwrite_works_def Let_def)

lemma meta_read_file:
  assumes "fw_meta_wf m" "j \<noteq> []" "e_json_parse env j = Some (map_of (fw_meta_json_obj m))"
    and "fs (''/sdcard/'' @ fm_file_name m @ ''.'' @ fm_file_type m @ ''.meta'') = Some j" "length j \<le> 511"
  shows "fw_storage_meta_read env (fm_file_name m) (fm_file_type m) fs =
    Inr (m\<lparr>fm_exec_format := FW_FMT_BIN, fm_save_only := False\<rparr>)"
  using assms
  by (simp add: fw_storage_meta_read_def paths_ok [OF assms(1)] json_obj_get c_copy_id fw_meta_wf_def
      c_string_def)

text \<open>A longer file is cut off, and what is left of it is parsed.\<close>

lemma meta_read_cut:
  assumes "fw_meta_wf m" "511 < length j" "e_json_parse env (take 511 j) = None"
    and "fs (''/sdcard/'' @ fm_file_name m @ ''.'' @ fm_file_type m @ ''.meta'') = Some j"
  shows "fw_storage_meta_read env (fm_file_name m) (fm_file_type m) fs = Inl ESP_FAIL"
  using assms by (auto simp: fw_storage_meta_read_def paths_ok [OF assms(1)] Let_def)

lemma meta_write_read:
  assumes "e_sd_ok env" "fw_meta_wf m" "json_works env m" "fwrite_works env"
    and "\<forall>p. e_can_create env p" "meta_fits env m"
  shows "\<exists>fs'. fw_storage_meta_write env m fs = (ESP_OK, fs') \<and>
    fw_storage_meta_read env (fm_file_name m) (fm_file_type m) fs' =
      Inr (m\<lparr>fm_exec_format := FW_FMT_BIN, fm_save_only := False\<rparr>) \<and>
    fs' (''/sdcard/'' @ fm_file_name m @ ''.'' @ fm_file_type m) =
      fs (''/sdcard/'' @ fm_file_name m @ ''.'' @ fm_file_type m)"
proof -
  obtain j where j: "e_json_alloc env" "e_json_print env (fw_meta_json_obj m) = Some j" "j \<noteq> []"
    "e_json_parse env j = Some (map_of (fw_meta_json_obj m))"
    using assms(3) by (auto simp: json_works_def)
  moreover have "length j \<le> 511" using assms(6) j(2) by (simp add: meta_fits_def)
  ultimately show ?thesis
    using meta_write_file [OF assms(1,2,4,5) j(1-3)] meta_read_file [OF assms(2) j(3,4)] by simp
qed

section \<open>Round trip\<close>

fun write_chunks :: "fw_env \<Rightarrow> bytes list \<Rightarrow> fw_storage_writer \<Rightarrow> fs \<Rightarrow> esp_err \<times> fw_storage_writer \<times> fs" where
  "write_chunks env [] w fs = (ESP_OK, w, fs)"
| "write_chunks env (c # cs) w fs =
     (case fw_storage_writer_write env c w fs of
        (r, w1, fs1) \<Rightarrow> if r \<noteq> ESP_OK then (r, w1, fs1) else write_chunks env cs w1 fs1)"

definition store_image :: "fw_env \<Rightarrow> fw_meta \<Rightarrow> bytes list \<Rightarrow> fs \<Rightarrow> esp_err \<times> fs" where
  "store_image env m chunks fs =
     (case fw_storage_writer_open env fw_storage_writer_zero m fs of
        (r, w, fs1) \<Rightarrow>
          if r \<noteq> ESP_OK then (r, fs1)
          else case write_chunks env chunks w fs1 of
                 (r, w1, fs2) \<Rightarrow>
                   if r \<noteq> ESP_OK then (r, fs2)
                   else case fw_storage_writer_close env w1 fs2 of (r, w2, fs3) \<Rightarrow> (r, fs3))"

definition read_image :: "fw_env \<Rightarrow> nat \<Rightarrow> string \<Rightarrow> string \<Rightarrow> fs \<Rightarrow> bytes option" where
  "read_image env n name type fs =
     (case fw_storage_reader_open env name type fs of
        Inl _ \<Rightarrow> None
      | Inr r \<Rightarrow> map_option snd (read_loop (fw_storage_reader_read env) n (@) r []))"

lemma dec_stream_aes_loop:
  assumes "aes_works env key"
  shows "length blocks = 16 * k \<Longrightarrow> aes_loop (e_aes_enc env key) k blocks = Some ct \<Longrightarrow>
    dec_stream env key k ct = blocks \<and> length ct = 16 * k"
proof (induction k arbitrary: blocks ct)
  case 0
  then show ?case by simp
next
  case (Suc k)
  have "length (take 16 blocks) = 16" using Suc.prems(1) by simp
  then obtain c where c: "e_aes_enc env key (take 16 blocks) = Some c" "length c = 16"
    "e_aes_dec env key c = Some (take 16 blocks)"
    using assms unfolding aes_works_def by blast
  obtain cs where cs: "aes_loop (e_aes_enc env key) k (drop 16 blocks) = Some cs" "ct = c @ cs"
    using Suc.prems(2) c(1) by (auto split: option.splits)
  have "dec_stream env key k cs = drop 16 blocks \<and> length cs = 16 * k"
    using Suc.IH [OF _ cs(1)] Suc.prems(1) by simp
  then show ?case using c cs by simp
qed

text \<open>What closing leaves in the image file, and what a reader of that file then hands out.\<close>

definition image_file_ok :: "fw_env \<Rightarrow> bytes option \<Rightarrow> bytes \<Rightarrow> bytes option \<Rightarrow> bool" where
  "image_file_ok env key data f \<longleftrightarrow>
     (if \<not> e_enc_on env then f = Some data
      else \<exists>k pad ct. length (data @ pad) = 16 * k \<and>
             aes_loop (e_aes_enc env (the key)) k (data @ pad) = Some ct \<and> f = Some ct)"

lemma writer_close_image:
  assumes "fwrite_works env" "aes_works env (w_key w)" "e_enc_on env" "writer_inv env p w fs D"
  shows "\<exists>w1 fs1. (if e_enc_on env \<and> w_buffer w \<noteq> []
      then writer_flush env p (w_buffer w @ replicate (16 - length (w_buffer w)) 0) w fs
      else (ESP_OK, w, fs)) = (ESP_OK, w1, fs1) \<and>
    image_file_ok env (Some (w_key w)) D (fs1 p) \<and> w_meta w1 = w_meta w"
proof -
  obtain k blocks ct where inv: "D = blocks @ w_buffer w" "length blocks = 16 * k"
    "aes_loop (e_aes_enc env (w_key w)) k blocks = Some ct" "fs p = Some ct" "length (w_buffer w) < 16"
    using assms(4) by (auto simp: writer_inv_def)
  show ?thesis
  proof (cases "w_buffer w = []")
    case True
    then show ?thesis using inv assms(3)
      by (auto simp: image_file_ok_def intro!: exI [of _ k] exI [of _ "[]"])
  next
    case False
    let ?pad = "replicate (16 - length (w_buffer w)) 0"
    have l: "length (w_buffer w @ ?pad) = 16" using inv(5) by simp
    obtain w1 fs1 ct1 where f: "writer_flush env p (w_buffer w @ ?pad) w fs = (ESP_OK, w1, fs1)"
      "aes_loop (e_aes_enc env (w_key w)) (Suc k) (blocks @ w_buffer w @ ?pad) = Some ct1"
      "fs1 p = Some ct1" "writer_frame p w fs w1 fs1"
      using writer_flush_ok [OF assms(2,1) l inv(2,3), of fs p] inv(4) by blast
    have "image_file_ok env (Some (w_key w)) D (fs1 p)"
      unfolding image_file_ok_def using f inv l assms(3)
      by (auto intro!: exI [of _ "Suc k"] exI [of _ ?pad])
    then show ?thesis using f False assms(3) by (auto simp: writer_frame_def)
  qed
qed

lemma image_file_read:
  assumes "image_file_ok env (Some key) data f" "e_enc_on env \<Longrightarrow> aes_works env key"
    and "f = Some contents" "r_file r = contents" "r_remaining r = length data" "r_buffer r = []"
    and "r_active r" "r_encrypted r = e_enc_on env" "e_enc_on env \<Longrightarrow> r_key r = key"
  shows "reader_rest env r = data"
proof (cases "e_enc_on env")
  case False
  then show ?thesis using assms by (simp add: image_file_ok_def reader_rest_def)
next
  case True
  then obtain k pad where k: "length (data @ pad) = 16 * k"
    "aes_loop (e_aes_enc env key) k (data @ pad) = Some contents"
    using assms(1,3) by (auto simp: image_file_ok_def)
  have "dec_stream env key k contents = data @ pad \<and> length contents = 16 * k"
    using dec_stream_aes_loop [OF assms(2) [OF True] k] by blast
  then show ?thesis using True assms by (simp add: reader_rest_def)
qed


text \<open>A working store for a meta block, and a writer that has been given \<open>D\<close> of its image.\<close>

definition storage_works :: "fw_env \<Rightarrow> bytes \<Rightarrow> fw_meta \<Rightarrow> bool" where
  "storage_works env key m \<longleftrightarrow> e_sd_ok env \<and> (\<forall>p. e_can_create env p) \<and> fwrite_works env \<and>
     fw_meta_wf m \<and> json_works env m \<and> meta_fits env m \<and> fm_encrypted m = e_enc_on env \<and>
     (e_enc_on env \<longrightarrow> fw_crypto_init_key env = Some key \<and> aes_works env key \<and> aes_dec_total env key)"

abbreviation image_path :: "fw_meta \<Rightarrow> string" where
  "image_path m \<equiv> ''/sdcard/'' @ fm_file_name m @ ''.'' @ fm_file_type m"

definition writing :: "fw_env \<Rightarrow> bytes \<Rightarrow> fw_meta \<Rightarrow> bytes \<Rightarrow> fw_storage_writer \<Rightarrow> fs \<Rightarrow> bool" where
  "writing env key m D w fs \<longleftrightarrow> w_path w = Some (image_path m) \<and> w_active w \<and> w_meta w = m \<and>
     (if e_enc_on env then w_key w = key \<and> writer_inv env (image_path m) w fs D
      else fs (image_path m) = Some D)"

lemma writing_open:
  assumes "storage_works env key m"
  shows "\<exists>w fs1. fw_storage_writer_open env fw_storage_writer_zero m fs = (ESP_OK, w, fs1) \<and>
    writing env key m [] w fs1"
proof -
  have en: "e_sd_ok env" "e_can_create env p" "fw_meta_wf m"
    "e_enc_on env \<longrightarrow> fw_crypto_init_key env = Some key" for p
    using assms by (simp_all add: storage_works_def)
  show ?thesis
    using en by (cases "e_enc_on env") (simp_all add: fw_storage_writer_open_def paths_ok [OF en(3)]
        writing_def writer_inv_def fw_storage_writer_zero_def)
qed

lemma writing_write:
  assumes "storage_works env key m" "writing env key m D w fs" "bs \<noteq> []"
  shows "\<exists>w' fs'. fw_storage_writer_write env bs w fs = (ESP_OK, w', fs') \<and> writing env key m (D @ bs) w' fs'"
proof (cases "e_enc_on env")
  case False
  then show ?thesis using assms
    by (simp add: writing_def fw_storage_writer_write_def fput_def storage_works_def fwrite_works_def Let_def)
next
  case True
  have "aes_works env (w_key w)" "fwrite_works env" "writer_inv env (image_path m) w fs D"
    using assms(1,2) True by (simp_all add: storage_works_def writing_def)
  from writer_loop_ok [OF this, of bs] show ?thesis
    using assms True by (auto simp: writing_def fw_storage_writer_write_def writer_frame_def)
qed

lemma writing_close:
  assumes "storage_works env key m" "writing env key m D w fs"
  shows "\<exists>w' fs'. fw_storage_writer_close env w fs = (ESP_OK, w', fs') \<and>
    fw_storage_meta_read env (fm_file_name m) (fm_file_type m) fs' =
      Inr (m\<lparr>fm_exec_format := FW_FMT_BIN, fm_save_only := False\<rparr>) \<and>
    fs' (image_path m) \<noteq> None \<and>
    (fm_original_size m = length D \<longrightarrow>
      (\<forall>n > 0. read_image env n (fm_file_name m) (fm_file_type m) fs' = Some D))"
proof -
  let ?p = "image_path m"
  have en: "e_sd_ok env" "\<forall>p. e_can_create env p" "fwrite_works env" "fw_meta_wf m" "json_works env m"
    "fm_encrypted m = e_enc_on env"
    "e_enc_on env \<Longrightarrow> fw_crypto_init_key env = Some key \<and> aes_works env key \<and> aes_dec_total env key"
    "meta_fits env m"
    using assms(1) by (simp_all add: storage_works_def)
  have w: "w_path w = Some ?p" "w_active w" "w_meta w = m" using assms(2) by (simp_all add: writing_def)
  obtain w2 fs3 where c: "(if e_enc_on env \<and> w_buffer w \<noteq> []
      then writer_flush env ?p (w_buffer w @ replicate (16 - length (w_buffer w)) 0) w fs
      else (ESP_OK, w, fs)) = (ESP_OK, w2, fs3)"
    "image_file_ok env (Some key) D (fs3 ?p)" "w_meta w2 = m"
  proof (cases "e_enc_on env")
    case True
    then show thesis
      using writer_close_image [OF en(3) _ True, of w ?p fs D] assms(2) w en(7) that
      by (auto simp: writing_def)
  next
    case False
    then show thesis using assms(2) w that [of w fs] by (simp add: image_file_ok_def writing_def)
  qed
  obtain fs4 where m: "fw_storage_meta_write env m fs3 = (ESP_OK, fs4)"
    "fw_storage_meta_read env (fm_file_name m) (fm_file_type m) fs4 =
      Inr (m\<lparr>fm_exec_format := FW_FMT_BIN, fm_save_only := False\<rparr>)" "fs4 ?p = fs3 ?p"
    using meta_write_read [OF en(1,4,5,3,2,8)] by blast
  have st: "fw_storage_writer_close env w fs = (ESP_OK, w2\<lparr>w_path := None, w_active := False\<rparr>, fs4)"
    unfolding fw_storage_writer_close_def w(1) option.case c(1) using w(2) c(3) m(1) by simp
  obtain contents where f: "fs3 ?p = Some contents"
    using c(2) by (auto simp: image_file_ok_def split: if_splits)
  obtain r where r: "fw_storage_reader_open env (fm_file_name m) (fm_file_type m) fs4 = Inr r"
    "r_file r = contents" "r_remaining r = fm_original_size m" "r_buffer r = []" "r_active r"
    "r_encrypted r = e_enc_on env" "e_enc_on env \<longrightarrow> r_key r = key"
    using en(1,6,7) m f
    by (cases "e_enc_on env") (auto simp: fw_storage_reader_open_def paths_ok [OF en(4)] Let_def)
  have rest: "reader_rest env r = D" if "fm_original_size m = length D"
    using image_file_read [OF c(2) _ f r(2) _ r(4-6)] r(3,7) that en(7) by auto
  have "reader_ok env r" using r en(7) by (auto simp: reader_ok_def)
  then have "\<exists>r'. read_loop (fw_storage_reader_read env) n (@) r [] = Some (r', D)"
    if "0 < n" "fm_original_size m = length D" for n
    using storage.read_loop_fold [of env r n "(@)" "[]"] rest that by auto
  then show ?thesis using st r(1) m f by (fastforce simp: read_image_def)
qed

lemma writing_chunks:
  assumes "storage_works env key m" "\<forall>c \<in> set chunks. c \<noteq> []" "writing env key m D w fs"
  shows "\<exists>w' fs'. write_chunks env chunks w fs = (ESP_OK, w', fs') \<and>
    writing env key m (D @ concat chunks) w' fs'"
  using assms(2,3)
proof (induction chunks arbitrary: w fs D)
  case Nil
  then show ?case by simp
next
  case (Cons c cs)
  from writing_write [OF assms(1) Cons.prems(2), of c] Cons.prems(1) obtain w1 fs1 where
    "fw_storage_writer_write env c w fs = (ESP_OK, w1, fs1)" "writing env key m (D @ c) w1 fs1" by auto
  with Cons.IH [of "D @ c" w1 fs1] Cons.prems(1) show ?case by fastforce
qed

text \<open>C6: What is stored is what is read back. An image written to the SD card in any non-empty pieces
  and closed is, when opened again by its name and type and read in pieces of any size, exactly
  the bytes that were written, in the clear as well as encrypted in AES blocks with padding. It
  relies on a working card, on AES decryption inverting encryption, on the JSON library returning
  the meta block it printed, and on that text having at most 511 characters, since the reader's
  buffer holds no more.\<close>

theorem storage_roundtrip:
  assumes "e_sd_ok env" "\<forall>p. e_can_create env p" "fwrite_works env" "fw_meta_wf m" "json_works env m"
    and "meta_fits env m"
    and "e_enc_on env \<Longrightarrow> fw_crypto_init_key env = Some key \<and> aes_works env key \<and> aes_dec_total env key"
    and "fm_encrypted m = e_enc_on env" "fm_original_size m = length (concat chunks)"
    and "\<forall>c \<in> set chunks. c \<noteq> []" "0 < n"
  shows "\<exists>fs'. store_image env m chunks fs = (ESP_OK, fs') \<and>
    read_image env n (fm_file_name m) (fm_file_type m) fs' = Some (concat chunks)"
proof -
  have ok: "storage_works env (if e_enc_on env then key else []) m"
    using assms(1-8) by (simp add: storage_works_def)
  let ?key = "if e_enc_on env then key else []"
  obtain w fs1 where o: "fw_storage_writer_open env fw_storage_writer_zero m fs = (ESP_OK, w, fs1)"
    "writing env ?key m [] w fs1"
    using writing_open [OF ok] by blast
  obtain w1 fs2 where c: "write_chunks env chunks w fs1 = (ESP_OK, w1, fs2)"
    "writing env ?key m (concat chunks) w1 fs2"
    using writing_chunks [OF ok assms(10) o(2)] by auto
  show ?thesis
    using writing_close [OF ok c(2)] assms(9,11) o(1) c(1) by (auto simp: store_image_def)
qed


text \<open>A concrete environment for the witnesses: a byte-wise cipher, and a JSON library that knows the
  one object it is used on.\<close>

definition example_meta :: fw_meta where
  "example_meta = fw_meta_zero\<lparr>fm_file_name := ''APP'', fm_file_type := ''A11'', fm_encrypted := True,
     fm_uart_baud := 115200, fm_exec_format := FW_FMT_ELF, fm_original_size := 4\<rparr>"

definition example_env :: fw_env where
  "example_env = \<lparr>e_enc_on = True, e_sd_ok = True, e_can_create = (\<lambda>_. True),
     e_fwrite = (\<lambda>_ bs. length bs), e_mac = Some [1, 2, 3, 4, 5, 6],
     e_aes_enc = (\<lambda>_ b. Some (map (\<lambda>x. NOT x) b)), e_aes_dec = (\<lambda>_ b. Some (map (\<lambda>x. NOT x) b)),
     e_json_alloc = True, e_json_print = (\<lambda>_. Some [1]),
     e_json_parse = (\<lambda>_. Some (map_of (fw_meta_json_obj example_meta)))\<rparr>"

lemma example_works:
  "e_sd_ok example_env" "\<forall>p. e_can_create example_env p" "fwrite_works example_env"
  "fw_meta_wf example_meta" "json_works example_env example_meta" "meta_fits example_env example_meta"
  "aes_works example_env key" "aes_dec_total example_env key"
  by (simp_all add: example_env_def fwrite_works_def fw_meta_wf_def example_meta_def c_string_def
      fw_meta_zero_def json_works_def meta_fits_def aes_works_def aes_dec_total_def comp_def)

lemma storage_roundtrip_witness:
  "\<exists>fs'. store_image example_env example_meta [[1, 2, 3], [4]] Map.empty = (ESP_OK, fs') \<and>
     read_image example_env 5 ''APP'' ''A11'' fs' = Some [1, 2, 3, 4]"
  using storage_roundtrip [OF example_works(1-6), of "the (fw_crypto_init_key example_env)"
      "[[1, 2, 3], [4]]" 5 Map.empty] example_works(7,8)
  by (simp add: example_env_def example_meta_def fw_crypto_init_key_def)

text \<open>C7: The meta file loses two fields, and a long one everything. On a working card, with a JSON
  library that prints the meta block as some text and parses that text back, writing succeeds.
  If the text has at most 511 characters, reading by name and type gives the same block, except
  that the execution format is back to \<open>FW_FMT_BIN\<close> and the save-only flag is off, since the writer
  does not store them. If it is longer, the reader parses only its first 511 characters, and fails
  when the library refuses these.\<close>

theorem meta_roundtrip:
  assumes "e_sd_ok env" "\<forall>p. e_can_create env p" "fwrite_works env" "fw_meta_wf m" "e_json_alloc env"
    and "e_json_print env (fw_meta_json_obj m) = Some j" "j \<noteq> []"
    and "e_json_parse env j = Some (map_of (fw_meta_json_obj m))"
  shows "\<exists>fs'. fw_storage_meta_write env m fs = (ESP_OK, fs') \<and>
    (length j \<le> 511 \<longrightarrow> fw_storage_meta_read env (fm_file_name m) (fm_file_type m) fs' =
       Inr (m\<lparr>fm_exec_format := FW_FMT_BIN, fm_save_only := False\<rparr>)) \<and>
    (511 < length j \<and> e_json_parse env (take 511 j) = None \<longrightarrow>
       fw_storage_meta_read env (fm_file_name m) (fm_file_type m) fs' = Inl ESP_FAIL)"
proof -
  let ?p = "''/sdcard/'' @ fm_file_name m @ ''.'' @ fm_file_type m @ ''.meta''"
  have kept: "(fs(?p \<mapsto> j)) ?p = Some j" by (rule fun_upd_same)
  show ?thesis
  proof (intro exI [of _ "fs(?p \<mapsto> j)"] conjI impI)
    show "fw_storage_meta_write env m fs = (ESP_OK, fs(?p \<mapsto> j))"
      by (rule meta_write_file [OF assms(1,4,3,2,5-7)])
  next
    assume "length j \<le> 511"
    then show "fw_storage_meta_read env (fm_file_name m) (fm_file_type m) (fs(?p \<mapsto> j)) =
        Inr (m\<lparr>fm_exec_format := FW_FMT_BIN, fm_save_only := False\<rparr>)"
      by (rule meta_read_file [where fs = "fs(?p \<mapsto> j)", OF assms(4,7,8) kept])
  next
    assume "511 < length j \<and> e_json_parse env (take 511 j) = None"
    then show "fw_storage_meta_read env (fm_file_name m) (fm_file_type m) (fs(?p \<mapsto> j)) = Inl ESP_FAIL"
      using meta_read_cut [where fs = "fs(?p \<mapsto> j)", OF assms(4) _ _ kept] by blast
  qed
qed

text \<open>For the witness, a library that prints a text of the given length and knows only this text.\<close>

definition one_text_env :: "nat \<Rightarrow> fw_env" where
  "one_text_env n = example_env\<lparr>e_json_print := (\<lambda>_. Some (replicate n 1)),
     e_json_parse := (\<lambda>t. if length t = n then Some (map_of (fw_meta_json_obj example_meta)) else None)\<rparr>"

lemma meta_roundtrip_witness:
  "(\<exists>fs'. fw_storage_meta_write (one_text_env 400) example_meta Map.empty = (ESP_OK, fs') \<and>
     fw_storage_meta_read (one_text_env 400) ''APP'' ''A11'' fs' =
       Inr (example_meta\<lparr>fm_exec_format := FW_FMT_BIN, fm_save_only := False\<rparr>)) \<and>
   (\<exists>fs'. fw_storage_meta_write (one_text_env 600) example_meta Map.empty = (ESP_OK, fs') \<and>
     fw_storage_meta_read (one_text_env 600) ''APP'' ''A11'' fs' = Inl ESP_FAIL)"
proof -
  have w: "e_sd_ok (one_text_env n)" "\<forall>p. e_can_create (one_text_env n) p" "fwrite_works (one_text_env n)"
    "fw_meta_wf example_meta" "e_json_alloc (one_text_env n)"
    "e_json_print (one_text_env n) (fw_meta_json_obj example_meta) = Some (replicate n 1)"
    "e_json_parse (one_text_env n) (replicate n 1) = Some (map_of (fw_meta_json_obj example_meta))" for n
    using example_works(4) by (simp_all add: one_text_env_def example_env_def fwrite_works_def)
  have n: "replicate 400 (1 :: u8) \<noteq> []" "replicate 600 (1 :: u8) \<noteq> []"
    "e_json_parse (one_text_env 600) (take 511 (replicate 600 1)) = None"
    by (simp_all add: one_text_env_def)
  show ?thesis
    using meta_roundtrip [OF w(1-6) n(1) w(7), of Map.empty] meta_roundtrip [OF w(1-6) n(2) w(7), of Map.empty] n(3)
    by (simp add: example_meta_def)
qed

end
