(* ===== verification/Packaging.thy ===== *)
theory Packaging
  imports Storage Intel_Hex
begin

text \<open>
  Turning a stored firmware file into addressed blocks (\<open>fw_upload_packaging.c\<close>): raw binary, Intel
  HEX text, TI COFF and ELF. Every block goes to a sink, a parameter that threads its own state.
  The loops over the reader are options (they need not end for an arbitrary reader), and so are
  the COFF and ELF branches, where \<open>None\<close> is a read outside the file's buffer.
\<close>

section \<open>Reading and small helpers\<close>

type_synonym 'k pkg_sink = "u32 \<Rightarrow> bytes \<Rightarrow> 'k \<Rightarrow> esp_err \<times> 'k"

definition le16 :: "bytes \<Rightarrow> nat \<Rightarrow> u16 option" where
  "le16 buf i = (if i + 1 < length buf then Some (ucast (buf ! i) OR push_bit 8 (ucast (buf ! (i + 1)))) else None)"

definition le32 :: "bytes \<Rightarrow> nat \<Rightarrow> u32 option" where
  "le32 buf i =
     (if i + 3 < length buf
      then Some (ucast (buf ! i) OR push_bit 8 (ucast (buf ! (i + 1))) OR
                 push_bit 16 (ucast (buf ! (i + 2))) OR push_bit 24 (ucast (buf ! (i + 3))))
      else None)"

text \<open>\<open>read_line\<close>: the line without its end and without carriage returns, and whether the file ended.\<close>

partial_function (option) read_line_loop ::
    "fw_env \<Rightarrow> bytes \<Rightarrow> fw_storage_reader \<Rightarrow> (bytes \<times> bool \<times> fw_storage_reader) option" where
  "read_line_loop env buf r =
     (if 255 \<le> length buf then Some (buf, False, r)
      else let bs = fst (fw_storage_reader_read env r 1); r1 = snd (fw_storage_reader_read env r 1)
           in if bs = [] then Some (buf, True, r1)
              else if hd bs = byte_of CHR 0x0D then read_line_loop env buf r1
              else if hd bs = byte_of CHR 0x0A then Some (buf, False, r1)
              else read_line_loop env (buf @ [hd bs]) r1)"

definition read_line :: "fw_env \<Rightarrow> bool \<Rightarrow> fw_storage_reader \<Rightarrow> (bytes \<times> bool \<times> fw_storage_reader) option" where
  "read_line env eof r = (if eof then Some ([], True, r) else read_line_loop env [] r)"

definition hex_nibble :: "u8 \<Rightarrow> u8 option" where
  "hex_nibble c =
     (if byte_of CHR ''0'' \<le> c \<and> c \<le> byte_of CHR ''9'' then Some (c - byte_of CHR ''0'')
      else if byte_of CHR ''a'' \<le> c \<and> c \<le> byte_of CHR ''f'' then Some (10 + (c - byte_of CHR ''a''))
      else if byte_of CHR ''A'' \<le> c \<and> c \<le> byte_of CHR ''F'' then Some (10 + (c - byte_of CHR ''A''))
      else None)"

text \<open>Two digits at position \<open>i\<close> of a line; behind its end stands the terminator, which is no digit.\<close>

definition hex_byte :: "bytes \<Rightarrow> nat \<Rightarrow> u8 option" where
  "hex_byte line i =
     (if i + 1 < length line
      then (case (hex_nibble (line ! i), hex_nibble (line ! (i + 1))) of
              (Some hi, Some lo) \<Rightarrow> Some (push_bit 4 hi OR lo)
            | _ \<Rightarrow> None)
      else None)"

section \<open>Raw binary\<close>

partial_function (option) process_bin_loop ::
    "fw_env \<Rightarrow> 'k pkg_sink \<Rightarrow> u32 \<Rightarrow> fw_storage_reader \<Rightarrow> 'k \<Rightarrow> (esp_err \<times> 'k) option" where
  "process_bin_loop env sink addr r k =
     (let bs = fst (fw_storage_reader_read env r 512); r1 = snd (fw_storage_reader_read env r 512)
      in if bs = [] then Some (ESP_OK, k)
         else let res = sink addr bs k
              in if fst res \<noteq> ESP_OK then Some res
                 else process_bin_loop env sink (addr + of_nat (length bs)) r1 (snd res))"

definition process_bin ::
    "fw_env \<Rightarrow> 'k pkg_sink \<Rightarrow> fw_storage_reader \<Rightarrow> 'k \<Rightarrow> (esp_err \<times> 'k) option" where
  "process_bin env sink r k = process_bin_loop env sink 0 r k"

section \<open>Intel HEX\<close>

datatype ihex_action =
    Fail | Emit u16 bytes | Stop | Base u32 | Skip

text \<open>What one non-empty line asks for; \<open>Fail\<close> stands for the returns of \<open>ESP_FAIL\<close>.\<close>

definition line_sum :: "bytes \<Rightarrow> u8 option" where
  "line_sum line =
     foldl (\<lambda>acc i. case (acc, hex_byte line i) of (Some c, Some b) \<Rightarrow> Some (c + b) | _ \<Rightarrow> None)
       (Some 0) (map (\<lambda>n. 2 * n + 1) [0..<(length line - 1) div 2])"

fun line_data :: "bytes \<Rightarrow> nat \<Rightarrow> nat \<Rightarrow> bytes option" where
  "line_data line pos 0 = Some []"
| "line_data line pos (Suc n) =
     (case hex_byte line pos of None \<Rightarrow> None
      | Some b \<Rightarrow> (case line_data line (pos + 2) n of None \<Rightarrow> None | Some bs \<Rightarrow> Some (b # bs)))"

definition ihex_line_action :: "bytes \<Rightarrow> ihex_action" where
  "ihex_line_action line =
     (if line ! 0 \<noteq> byte_of CHR '':'' then Fail
      else if length line < 11 then Fail
      else case (hex_byte line 1, hex_byte line 3, hex_byte line 5, hex_byte line 7) of
             (Some byte_count, Some addr_hi, Some addr_lo, Some rec_type) \<Rightarrow>
               if length line < 9 + 2 * unat byte_count + 2 then Fail
               else if line_sum line \<noteq> Some 0 then Fail
               else if rec_type = 0 then
                 (case line_data line 9 (unat byte_count) of
                    None \<Rightarrow> Fail | Some ds \<Rightarrow> Emit (join8 addr_hi addr_lo) ds)
               else if rec_type = 1 then Stop
               else if rec_type = 2 then
                 (case (hex_byte line 9, hex_byte line 11) of
                    (Some msb, Some lsb) \<Rightarrow> Base (push_bit 4 (ucast (join8 msb lsb))) | _ \<Rightarrow> Fail)
               else if rec_type = 4 then
                 (case (hex_byte line 9, hex_byte line 11) of
                    (Some msb, Some lsb) \<Rightarrow> Base (push_bit 16 (ucast (join8 msb lsb))) | _ \<Rightarrow> Fail)
               else Skip
           | _ \<Rightarrow> Fail)"

partial_function (option) process_ihex_loop ::
    "fw_env \<Rightarrow> 'k pkg_sink \<Rightarrow> bool \<Rightarrow> u32 \<Rightarrow> fw_storage_reader \<Rightarrow> 'k \<Rightarrow> (esp_err \<times> 'k) option" where
  "process_ihex_loop env sink eof base_addr r k =
     (case read_line env eof r of
        None \<Rightarrow> None
      | Some (buf, eof1, r1) \<Rightarrow>
          if buf = [] then Some (ESP_OK, k)
          else if cstr buf = [] then process_ihex_loop env sink eof1 base_addr r1 k
          else (case ihex_line_action (cstr buf) of
                  Fail \<Rightarrow> Some (ESP_FAIL, k)
                | Emit addr ds \<Rightarrow>
                    (let res = sink (base_addr + ucast addr) ds k
                     in if fst res \<noteq> ESP_OK then Some res
                        else process_ihex_loop env sink eof1 base_addr r1 (snd res))
                | Stop \<Rightarrow> Some (ESP_OK, k)
                | Base b \<Rightarrow> process_ihex_loop env sink eof1 b r1 k
                | Skip \<Rightarrow> process_ihex_loop env sink eof1 base_addr r1 k))"

definition process_ihex ::
    "fw_env \<Rightarrow> 'k pkg_sink \<Rightarrow> fw_storage_reader \<Rightarrow> 'k \<Rightarrow> (esp_err \<times> 'k) option" where
  "process_ihex env sink r k = process_ihex_loop env sink False 0 r k"

section \<open>COFF and ELF\<close>

text \<open>Reading the whole file: the buffer of the announced size, or as much as the reader gives.\<close>

function read_exact :: "fw_env \<Rightarrow> nat \<Rightarrow> fw_storage_reader \<Rightarrow> bytes" where
  "read_exact env want r =
     (if want = 0 then []
      else let bs = fst (fw_storage_reader_read env r want); r1 = snd (fw_storage_reader_read env r want)
           in if bs = [] then [] else bs @ read_exact env (want - length bs) r1)"
  by auto
termination
  by (relation "measure (\<lambda>(env, want, r). want)") auto

text \<open>A section or segment of \<open>remaining\<close> bytes at \<open>off\<close> goes to the sink in blocks of 1024.\<close>

function emit_chunks ::
    "'k pkg_sink \<Rightarrow> bytes \<Rightarrow> nat \<Rightarrow> u32 \<Rightarrow> nat \<Rightarrow> 'k \<Rightarrow> (esp_err \<times> 'k) option" where
  "emit_chunks sink buf off addr remaining k =
     (if remaining = 0 then Some (ESP_OK, k)
      else let chunk = (if 1024 < remaining then 1024 else remaining)
           in if length buf < off + chunk then None
              else let res = sink addr (take chunk (drop off buf)) k
                   in if fst res \<noteq> ESP_OK then Some res
                      else emit_chunks sink buf (off + chunk) (addr + of_nat chunk)
                             (remaining - chunk) (snd res))"
  by auto
termination
  by (relation "measure (\<lambda>(sink, buf, off, addr, remaining, k). remaining)") (auto split: if_splits)

text \<open>A table of headers is processed in order until an error.\<close>

fun each_header :: "(nat \<Rightarrow> 'k \<Rightarrow> (esp_err \<times> 'k) option) \<Rightarrow> nat list \<Rightarrow> 'k \<Rightarrow> (esp_err \<times> 'k) option" where
  "each_header f [] k = Some (ESP_OK, k)"
| "each_header f (i # is) k =
     (case f i k of None \<Rightarrow> None
      | Some res \<Rightarrow> if fst res \<noteq> ESP_OK then Some res else each_header f is (snd res))"

definition COFF_C28X_ID :: u16 where [model_simps]: "COFF_C28X_ID = 0x9D"
definition COFF_VERSION_0 :: u16 where [model_simps]: "COFF_VERSION_0 = 0xC0"
definition COFF_VERSION_1 :: u16 where [model_simps]: "COFF_VERSION_1 = 0xC1"
definition COFF_VERSION_2 :: u16 where [model_simps]: "COFF_VERSION_2 = 0xC2"

definition coff_skip_flags :: u32 where
  [model_simps]: "coff_skip_flags = 0x0001 OR 0x0002 OR 0x0008 OR 0x0010 OR 0x0080"

text \<open>One section; sizes and offsets are added in 32 bits, as \<open>size_t\<close> is.\<close>

definition coff_section ::
    "'k pkg_sink \<Rightarrow> bytes \<Rightarrow> u16 \<Rightarrow> nat \<Rightarrow> nat \<Rightarrow> nat \<Rightarrow> 'k \<Rightarrow> (esp_err \<times> 'k) option" where
  "coff_section sink buf version section_offset section_header_size i k =
     (let sh = section_offset + i * section_header_size
      in case (le32 buf (sh + 8), le32 buf (sh + 16), le32 buf (sh + 20),
               if version = COFF_VERSION_2 then le32 buf (sh + 40) else map_option ucast (le16 buf (sh + 36))) of
           (Some phys_addr, Some sz, Some raw_ptr, Some flags) \<Rightarrow>
             let sec_size = (if version = COFF_VERSION_2 then sz * 2 else sz)
             in if sec_size = 0 \<or> raw_ptr = 0 then Some (ESP_OK, k)
                else if flags AND coff_skip_flags \<noteq> 0 then Some (ESP_OK, k)
                else if length buf < unat (raw_ptr + sec_size) then Some (ESP_FAIL, k)
                else emit_chunks sink buf (unat raw_ptr) phys_addr (unat sec_size) k
         | _ \<Rightarrow> None)"

definition coff_headers :: "u16 \<Rightarrow> (u16 \<times> nat \<times> nat) option" where
  "coff_headers version =
     (if version = COFF_VERSION_1 \<or> version = COFF_VERSION_2
      then Some (version, 22, if version = COFF_VERSION_2 then 48 else 40)
      else if version = COFF_C28X_ID then Some (COFF_VERSION_0, 20, 40)
      else None)"

definition process_coff ::
    "(nat \<Rightarrow> bool) \<Rightarrow> fw_env \<Rightarrow> 'k pkg_sink \<Rightarrow> fw_storage_reader \<Rightarrow> 'k \<Rightarrow> (esp_err \<times> 'k) option" where
  "process_coff malloc_ok env sink r k =
     (let sz = fm_original_size (r_meta r)
      in if sz = 0 then Some (ESP_ERR_INVALID_SIZE, k)
         else if \<not> malloc_ok sz then Some (ESP_ERR_NO_MEM, k)
         else let buf = read_exact env sz r
              in if length buf \<noteq> sz then Some (ESP_FAIL, k)
                 else case le16 buf 0 of
                        None \<Rightarrow> None
                      | Some v \<Rightarrow>
                          (case coff_headers v of
                             None \<Rightarrow> Some (ESP_ERR_NOT_SUPPORTED, k)
                           | Some (version, header_size, section_header_size) \<Rightarrow>
                               (case (le16 buf 2, le16 buf 16,
                                      if header_size = 22 then le16 buf 20 else Some 0) of
                                  (Some section_count, Some opt_header_bytes, Some _) \<Rightarrow>
                                    let section_offset = header_size + unat opt_header_bytes
                                    in if sz < section_offset + section_header_size * unat section_count
                                       then Some (ESP_FAIL, k)
                                       else each_header
                                              (coff_section sink buf version section_offset section_header_size)
                                              [0..<unat section_count] k
                                | _ \<Rightarrow> None)))"

definition elf_segment ::
    "'k pkg_sink \<Rightarrow> bytes \<Rightarrow> nat \<Rightarrow> nat \<Rightarrow> nat \<Rightarrow> 'k \<Rightarrow> (esp_err \<times> 'k) option" where
  "elf_segment sink buf phoff phentsize i k =
     (let ph = phoff + i * phentsize
      in case le32 buf ph of
           None \<Rightarrow> None
         | Some p_type \<Rightarrow>
             if p_type \<noteq> 1 then Some (ESP_OK, k)
             else case (le32 buf (ph + 4), le32 buf (ph + 12), le32 buf (ph + 16)) of
                    (Some p_offset, Some p_paddr, Some p_filesz) \<Rightarrow>
                      if p_filesz = 0 then Some (ESP_OK, k)
                      else if length buf < unat (p_offset + p_filesz) then Some (ESP_FAIL, k)
                      else emit_chunks sink buf (unat p_offset) p_paddr (unat p_filesz) k
                  | _ \<Rightarrow> None)"

definition process_elf ::
    "(nat \<Rightarrow> bool) \<Rightarrow> fw_env \<Rightarrow> 'k pkg_sink \<Rightarrow> fw_storage_reader \<Rightarrow> 'k \<Rightarrow> (esp_err \<times> 'k) option" where
  "process_elf malloc_ok env sink r k =
     (let sz = fm_original_size (r_meta r)
      in if sz < 52 then Some (ESP_ERR_INVALID_SIZE, k)
         else if \<not> malloc_ok sz then Some (ESP_ERR_NO_MEM, k)
         else let buf = read_exact env sz r
              in if length buf \<noteq> sz then Some (ESP_FAIL, k)
                 else if take 4 buf \<noteq> [0x7f, byte_of CHR ''E'', byte_of CHR ''L'', byte_of CHR ''F'']
                 then Some (ESP_ERR_INVALID_ARG, k)
                 else if buf ! 4 \<noteq> 1 \<or> buf ! 5 \<noteq> 1 then Some (ESP_ERR_NOT_SUPPORTED, k)
                 else case (le16 buf 42, le16 buf 44, le32 buf 28) of
                        (Some phentsize, Some phnum, Some phoff) \<Rightarrow>
                          if phoff = 0 \<or> phentsize = 0 \<or> phnum = 0 then Some (ESP_ERR_INVALID_SIZE, k)
                          else if sz < unat (phoff + ucast phentsize * ucast phnum) then Some (ESP_FAIL, k)
                          else each_header (elf_segment sink buf (unat phoff) (unat phentsize))
                                 [0..<unat phnum] k
                      | _ \<Rightarrow> None)"

definition fw_packaging_process ::
    "(nat \<Rightarrow> bool) \<Rightarrow> fw_env \<Rightarrow> fw_meta \<Rightarrow> fw_storage_reader \<Rightarrow> 'k pkg_sink \<Rightarrow> 'k \<Rightarrow>
     (esp_err \<times> 'k) option" where
  "fw_packaging_process malloc_ok env meta r sink k =
     (case fm_format meta of
        FW_FMT_BIN \<Rightarrow> process_bin env sink r k
      | FW_FMT_IHEX \<Rightarrow> process_ihex env sink r k
      | FW_FMT_COFF \<Rightarrow> process_coff malloc_ok env sink r k
      | FW_FMT_ELF \<Rightarrow> process_elf malloc_ok env sink r k
      | FW_FMT_UNKNOWN \<Rightarrow> Some (ESP_ERR_NOT_SUPPORTED, k))"


section \<open>The abstract specification: a list of blocks fed to the sink\<close>

declare read_exact.simps [simp del] emit_chunks.simps [simp del]

fun feed :: "'k pkg_sink \<Rightarrow> (u32 \<times> bytes) list \<Rightarrow> 'k \<Rightarrow> esp_err \<times> 'k" where
  "feed sink [] k = (ESP_OK, k)"
| "feed sink (w # ws) k =
     (let res = sink (fst w) (snd w) k in if fst res \<noteq> ESP_OK then res else feed sink ws (snd res))"

lemma feed_append:
  "feed sink (xs @ ys) k =
     (let res = feed sink xs k in if fst res \<noteq> ESP_OK then res else feed sink ys (snd res))"
  by (induction xs arbitrary: k) (auto simp: Let_def)

text \<open>Cutting a block into pieces of at most \<open>n\<close> bytes at consecutive addresses.\<close>

function cut :: "nat \<Rightarrow> u32 \<Rightarrow> bytes \<Rightarrow> (u32 \<times> bytes) list" where
  "cut n a bs = (if bs = [] \<or> n = 0 then []
     else (a, take n bs) # cut n (a + of_nat (length (take n bs))) (drop n bs))"
  by auto
termination
  by (relation "measure (\<lambda>(n, a, bs). length bs)") auto

declare cut.simps [simp del]

text \<open>A sink that never fails leaves the fold of its updates.\<close>

locale total_sink =
  fixes sink :: "'k pkg_sink"
  assumes sink_ok: "fst (sink a bs k) = ESP_OK"
begin

lemma feed_ok: "fst (feed sink ws k) = ESP_OK"
  by (induction ws arbitrary: k) (auto simp: Let_def sink_ok)

lemma feed_fold: "snd (feed sink ws k) = fold (\<lambda>w k. snd (sink (fst w) (snd w) k)) ws k"
  by (induction ws arbitrary: k) (auto simp: Let_def sink_ok)

end

section \<open>Raw binary\<close>

text \<open>Blocks that lie one behind the other, from an address on.\<close>

fun contiguous :: "u32 \<Rightarrow> (u32 \<times> bytes) list \<Rightarrow> bool" where
  "contiguous a [] = True"
| "contiguous a (w # ws) = (fst w = a \<and> contiguous (a + of_nat (length (snd w))) ws)"

lemma process_bin_run:
  assumes "reader_ok env r"
  shows "\<exists>ws. process_bin_loop env sink addr r k = Some (feed sink ws k) \<and> contiguous addr ws \<and>
    (\<exists>rest. reader_rest env r = concat (map snd ws) @ rest \<and>
      (fst (feed sink ws k) = ESP_OK \<longrightarrow> rest = []))"
  using assms
proof (induction "length (reader_rest env r)" arbitrary: r addr k rule: less_induct)
  case less
  let ?bs = "fst (fw_storage_reader_read env r 512)" and ?r = "snd (fw_storage_reader_read env r 512)"
  have split: "reader_rest env r = ?bs @ reader_rest env ?r" by (rule storage.rd_split [OF less.prems])
  show ?case
  proof (cases "?bs = []")
    case True
    then have "reader_rest env r = []" using storage.rd_progress [OF less.prems, of 512] by simp
    then show ?thesis using True
      by (subst process_bin_loop.simps) (auto simp: Let_def intro!: exI [of _ "[]"])
  next
    case False
    let ?res = "sink addr ?bs k"
    show ?thesis
    proof (cases "fst ?res = ESP_OK")
      case True
      have "length (reader_rest env ?r) < length (reader_rest env r)" using False by (subst split) simp
      from less.hyps [OF this storage.rd_ok [OF less.prems], of "addr + of_nat (length ?bs)" "snd ?res"]
      obtain ws rest where ws: "process_bin_loop env sink (addr + of_nat (length ?bs)) ?r (snd ?res) =
          Some (feed sink ws (snd ?res))" "contiguous (addr + of_nat (length ?bs)) ws"
        "reader_rest env ?r = concat (map snd ws) @ rest"
        "fst (feed sink ws (snd ?res)) = ESP_OK \<longrightarrow> rest = []" by blast
      have "process_bin_loop env sink addr r k = Some (feed sink ((addr, ?bs) # ws) k)"
        using False True ws(1) by (subst process_bin_loop.simps) (simp add: Let_def)
      moreover have "reader_rest env r = concat (map snd ((addr, ?bs) # ws)) @ rest"
        by (subst split) (simp add: ws(3))
      ultimately show ?thesis
        using ws(2,4) True by (intro exI [of _ "(addr, ?bs) # ws"]) (auto simp: Let_def)
    next
      case err: False
      have "process_bin_loop env sink addr r k = Some (feed sink [(addr, ?bs)] k)"
        using False err by (subst process_bin_loop.simps) (simp add: Let_def)
      then show ?thesis using split err
        by (intro exI [of _ "[(addr, ?bs)]"]) (auto simp: Let_def)
    qed
  qed
qed


section \<open>Intel HEX text\<close>

text \<open>Reading single bytes, and lines, off the rest of a reader.\<close>

lemma read_one:
  assumes "reader_ok env r" "reader_rest env r = c # t"
  shows "\<exists>r'. fw_storage_reader_read env r 1 = ([c], r') \<and> reader_rest env r' = t \<and> reader_ok env r'"
proof -
  obtain bs r' where r: "fw_storage_reader_read env r 1 = (bs, r')" by (cases "fw_storage_reader_read env r 1")
  have "c # t = bs @ reader_rest env r'" "length bs \<le> 1" "bs \<noteq> []" "reader_ok env r'"
    using storage.rd_split [OF assms(1), of 1] storage.rd_bound [OF assms(1), of 1]
      storage.rd_progress [OF assms(1), of 1] storage.rd_ok [OF assms(1), of 1] assms(2) r by auto
  then show ?thesis using r by (cases bs) auto
qed

lemma read_none:
  assumes "reader_ok env r" "reader_rest env r = []"
  shows "\<exists>r'. fw_storage_reader_read env r 1 = ([], r') \<and> reader_rest env r' = [] \<and> reader_ok env r'"
  using storage.rd_split [OF assms(1), of 1] storage.rd_ok [OF assms(1), of 1] assms(2)
  by (cases "fw_storage_reader_read env r 1") auto

definition CR :: u8 where "CR = byte_of CHR 0x0D"
definition LF :: u8 where "LF = byte_of CHR 0x0A"

lemma CR_LF [simp]: "CR \<noteq> LF" "LF \<noteq> CR"
  by (simp_all add: CR_def LF_def byte_of_def)

lemma read_line_loop_LF:
  assumes "reader_ok env r" "reader_rest env r = s @ LF # t" "LF \<notin> set s"
    "length buf + length (filter (\<lambda>c. c \<noteq> CR) s) < 255"
  shows "\<exists>r'. read_line_loop env buf r = Some (buf @ filter (\<lambda>c. c \<noteq> CR) s, False, r') \<and>
    reader_rest env r' = t \<and> reader_ok env r'"
  using assms
proof (induction s arbitrary: buf r)
  case Nil
  obtain r' where "fw_storage_reader_read env r 1 = ([LF], r')" "reader_rest env r' = t" "reader_ok env r'"
    using read_one [OF Nil.prems(1), of LF t] Nil.prems(2) by auto
  then show ?case using Nil.prems(4)
    by (subst read_line_loop.simps) (auto simp: Let_def LF_def [symmetric] CR_def [symmetric])
next
  case (Cons c s)
  obtain r' where r': "fw_storage_reader_read env r 1 = ([c], r')" "reader_rest env r' = s @ LF # t"
    "reader_ok env r'"
    using read_one [OF Cons.prems(1), of c "s @ LF # t"] Cons.prems(2) by auto
  have c: "c \<noteq> LF" using Cons.prems(3) by auto
  let ?buf = "if c = CR then buf else buf @ [c]"
  have "\<exists>r''. read_line_loop env ?buf r' = Some (?buf @ filter (\<lambda>c. c \<noteq> CR) s, False, r'') \<and>
      reader_rest env r'' = t \<and> reader_ok env r''"
    using Cons.prems(3,4) by (intro Cons.IH r') (auto split: if_splits)
  moreover have "read_line_loop env buf r = read_line_loop env ?buf r'"
    using r'(1) Cons.prems(4) c
    by (subst read_line_loop.simps) (auto simp: Let_def LF_def [symmetric] CR_def [symmetric])
  ultimately show ?case by (auto split: if_splits)
qed

text \<open>The digits of a line.\<close>

lemma hex_nibble_hexd: "n < 16 \<Longrightarrow> hex_nibble (hexd n) = Some n"
proof (cases "n < 10")
  case True
  assume "n < 16"
  have "unat n < 10" using True by (simp add: word_less_nat_alt)
  moreover from this have "unat (0x30 + n) = 48 + unat n" by (simp add: unat_word_ariths)
  ultimately show ?thesis using True
    by (simp add: hex_nibble_def hexd_def model_simps word_le_nat_alt)
next
  case False
  assume "n < 16"
  then have n: "10 \<le> unat n" "unat n < 16" using False by (simp_all add: word_less_nat_alt)
  then have u: "unat (n - 10) = unat n - 10" by (simp add: unat_sub word_le_nat_alt)
  then have "unat (0x41 + (n - 10)) = 55 + unat n"
    using n by (subst unat_word_ariths) (simp add: u)
  with n False show ?thesis
    by (simp add: hex_nibble_def hexd_def model_simps word_le_nat_alt)
qed

definition hex_text :: "bytes \<Rightarrow> bytes" where
  "hex_text bs = byte_of CHR '':'' # concat (map hex2 bs)"

lemma length_hexes [simp]: "length (concat (map hex2 bs)) = 2 * length bs"
  by (induction bs) (simp_all add: hex2_def)

lemma hexes_nth:
  "i < length bs \<Longrightarrow> concat (map hex2 bs) ! (2 * i) = hexd (drop_bit 4 (bs ! i)) \<and>
     concat (map hex2 bs) ! Suc (2 * i) = hexd (bs ! i AND 15)"
  by (induction bs arbitrary: i) (auto simp: hex2_def nth_Cons split: nat.splits)

lemma hex_byte_text:
  assumes "i < length bs"
  shows "hex_byte (hex_text bs) (2 * i + 1) = Some (bs ! i)"
  using assms hexes_nth [OF assms] hex_nibble_hexd [OF nibbles(2)] hex_nibble_hexd [OF nibbles(3)]
  by (simp add: hex_byte_def hex_text_def nibbles(1))

lemma foldl_sum_some:
  assumes "\<And>i. i < n \<Longrightarrow> f (2 * i + 1) = Some (g i)"
  shows "foldl (\<lambda>acc i. case (acc, f i) of (Some c, Some b) \<Rightarrow> Some (c + b) | _ \<Rightarrow> None)
    (Some (c :: u8)) (map (\<lambda>n. 2 * n + 1) [0..<n]) = Some (c + sum_list (map g [0..<n]))"
  using assms by (induction n) (simp_all add: ac_simps)

lemma line_sum_text: "line_sum (hex_text bs) = Some (sum_list bs)"
proof -
  have l: "(length (hex_text bs) - 1) div 2 = length bs" by (simp add: hex_text_def)
  have "line_sum (hex_text bs) = Some (0 + sum_list (map (\<lambda>i. bs ! i) [0..<length bs]))"
    unfolding line_sum_def l by (rule foldl_sum_some) (rule hex_byte_text)
  then show ?thesis by (simp add: map_nth)
qed

lemma line_data_text:
  "j + n \<le> length bs \<Longrightarrow> line_data (hex_text bs) (2 * j + 1) n = Some (take n (drop j bs))"
proof (induction n arbitrary: j)
  case 0
  then show ?case by simp
next
  case (Suc n)
  have "line_data (hex_text bs) (2 * Suc j + 1) n = Some (take n (drop (Suc j) bs))"
    using Suc.prems by (intro Suc.IH) simp
  moreover have "take (Suc n) (drop j bs) = bs ! j # take n (drop (Suc j) bs)"
    using Suc.prems by (simp flip: Cons_nth_drop_Suc)
  ultimately show ?case using hex_byte_text [of j bs] Suc.prems by simp
qed

lemma good_line_text:
  "good_line type a ds = hex_text ([of_nat (length ds), hi8 a, lo8 a, type] @ ds @ [- record_sum type a ds])"
  by (simp add: good_line_def ihex_line_def hex_text_def)

lemma good_line_action:
  assumes "length ds \<le> 255"
  shows "ihex_line_action (good_line type a ds) =
    (if type = 0 then Emit a ds
     else if type = 1 then Stop
     else if type = 2 \<and> 2 \<le> length ds then Base (push_bit 4 (ucast (join8 (ds ! 0) (ds ! 1))))
     else if type = 4 \<and> 2 \<le> length ds then Base (push_bit 16 (ucast (join8 (ds ! 0) (ds ! 1))))
     else ihex_line_action (good_line type a ds))"
proof -
  define bs where "bs = [of_nat (length ds), hi8 a, lo8 a, type] @ ds @ [- record_sum type a ds]"
  have t: "good_line type a ds = hex_text bs" by (simp add: good_line_text bs_def)
  have n: "unat (of_nat (length ds) :: u8) = length ds" using assms by (intro unat_of_nat_small) simp
  have len: "length (hex_text bs) = 11 + 2 * length ds" by (simp add: hex_text_def bs_def hex2_def)
  have b: "hex_byte (hex_text bs) (Suc 0) = Some (of_nat (length ds))" "hex_byte (hex_text bs) 3 = Some (hi8 a)"
    "hex_byte (hex_text bs) 5 = Some (lo8 a)" "hex_byte (hex_text bs) 7 = Some type"
    using hex_byte_text [of 0 bs] hex_byte_text [of 1 bs] hex_byte_text [of 2 bs] hex_byte_text [of 3 bs]
    by (simp_all add: bs_def)
  have d: "hex_byte (hex_text bs) 9 = Some (ds ! 0)" "hex_byte (hex_text bs) 11 = Some (ds ! 1)"
    if two: "2 \<le> length ds"
  proof -
    obtain d0 rs where rs: "ds = d0 # rs" using two by (cases ds) auto
    then obtain d1 ds' where "rs = d1 # ds'" using two by (cases rs) auto
    then have ds: "ds = d0 # d1 # ds'" using rs by simp
    show "hex_byte (hex_text bs) 9 = Some (ds ! 0)" "hex_byte (hex_text bs) 11 = Some (ds ! 1)"
      using hex_byte_text [of 4 bs] hex_byte_text [of 5 bs] by (simp_all add: bs_def ds)
  qed
  have s: "line_sum (hex_text bs) = Some 0"
    by (simp add: line_sum_text) (simp add: bs_def record_sum_def algebra_simps)
  have ld: "line_data (hex_text bs) 9 (length ds) = Some ds"
    using line_data_text [of 4 "length ds" bs] by (simp add: bs_def)
  have h: "hex_text bs ! 0 = byte_of CHR '':''" by (simp add: hex_text_def)
  show ?thesis unfolding t
    by (cases "type = 0"; cases "type = 1"; cases "type = 2 \<and> 2 \<le> length ds";
        cases "type = 4 \<and> 2 \<le> length ds") (auto simp: ihex_line_action_def h len b n s ld d)
qed


text \<open>What the text of a well-formed file asks for: its data blocks, up to the end record.\<close>

fun pkg_writes :: "u32 \<Rightarrow> ihex_item list \<Rightarrow> (u32 \<times> bytes) list" where
  "pkg_writes base [] = []"
| "pkg_writes base (Data a ds # items) = (base + ucast a, ds) # pkg_writes base items"
| "pkg_writes base (Ext_Linear h # items) = pkg_writes (push_bit 16 (ucast h)) items"
| "pkg_writes base (Ext_Segment s # items) = pkg_writes (push_bit 4 (ucast s)) items"
| "pkg_writes base (End_Of_File # items) = []"

text \<open>Lines longer than 254 characters do not fit the line buffer: 121 data bytes are the limit.\<close>

fun item_short :: "ihex_item \<Rightarrow> bool" where
  "item_short (Data a ds) = (length ds \<le> 121)"
| "item_short _ = True"

lemma item_line_shape:
  assumes "item_short i"
  shows "length (item_line i) < 255" "item_line i \<noteq> []" "cstr (item_line i) = item_line i"
    "CR \<notin> set (item_line i)" "LF \<notin> set (item_line i)"
proof -
  have c: "hexd n \<notin> {0, CR, LF}" if "n < 16" for n
  proof -
    have "hex_digit 0 = None" "hex_digit CR = None" "hex_digit LF = None"
      by (simp_all add: hex_digit_def CR_def LF_def model_simps)
    then show ?thesis using hex_digit_hexd [OF that] by force
  qed
  have "\<exists>bs. item_line i = hex_text bs \<and> length bs \<le> 126"
    using assms by (cases i) (auto simp: good_line_text)
  then obtain bs where bs: "item_line i = hex_text bs" "length bs \<le> 126" by blast
  have h: "x \<notin> {0, CR, LF}" if "x \<in> set (hex_text bs)" for x
    using that c [OF nibbles(2)] c [OF nibbles(3)]
    by (auto simp: hex_text_def hex2_def CR_def LF_def model_simps)
  show "length (item_line i) < 255" "item_line i \<noteq> []" using bs by (simp_all add: hex_text_def)
  show "CR \<notin> set (item_line i)" "LF \<notin> set (item_line i)" using h bs(1) by auto
  have "\<forall>x \<in> set (item_line i). x \<noteq> 0" using h bs(1) by auto
  then show "cstr (item_line i) = item_line i" by (simp add: cstr_def takeWhile_eq_all_conv)
qed

definition line_end :: "bytes \<Rightarrow> bool" where
  "line_end eol \<longleftrightarrow> eol = [LF] \<or> eol = [CR, LF]"

lemma read_item_line:
  assumes "reader_ok env r" "item_short i" "line_end eol" "reader_rest env r = item_line i @ eol @ t"
  shows "\<exists>r'. read_line env False r = Some (item_line i, False, r') \<and> reader_rest env r' = t \<and>
    reader_ok env r'"
proof -
  obtain crs where e: "eol = crs @ [LF]" "set crs \<subseteq> {CR}"
    using assms(3) by (auto simp: line_end_def)
  have f: "filter (\<lambda>c. c \<noteq> CR) (item_line i @ crs) = item_line i"
  proof -
    have "filter (\<lambda>c. c \<noteq> CR) (item_line i) = item_line i"
      using item_line_shape(4) [OF assms(2)] by (auto simp: filter_id_conv)
    moreover have "filter (\<lambda>c. c \<noteq> CR) crs = []" using e(2) by (auto simp: filter_empty_conv)
    ultimately show ?thesis by simp
  qed
  have "reader_rest env r = (item_line i @ crs) @ LF # t" "LF \<notin> set (item_line i @ crs)"
    "length [] + length (filter (\<lambda>c. c \<noteq> CR) (item_line i @ crs)) < 255"
    unfolding f using assms(4) e item_line_shape [OF assms(2)] by auto
  from read_line_loop_LF [OF assms(1) this] show ?thesis unfolding f by (simp add: read_line_def)
qed

lemma process_ihex_items:
  assumes "reader_ok env r" "\<forall>i \<in> set items. item_short i" "line_end eol"
    and "reader_rest env r = ihex_file eol items @ t"
    and "\<And>r' k' base'. reader_ok env r' \<Longrightarrow> reader_rest env r' = t \<Longrightarrow>
      process_ihex_loop env sink False base' r' k' = Some (ESP_OK, k')"
  shows "process_ihex_loop env sink False base r k = Some (feed sink (pkg_writes base items) k)"
  using assms(1,2,4)
proof (induction items arbitrary: base r k)
  case Nil
  then show ?case using assms(5) by (simp add: ihex_file_def)
next
  case (Cons i items)
  have short: "item_short i" using Cons.prems(2) by simp
  have "reader_rest env r = item_line i @ eol @ (ihex_file eol items @ t)"
    using Cons.prems(3) by (simp add: ihex_file_def)
  then obtain r' where r': "read_line env False r = Some (item_line i, False, r')"
    "reader_rest env r' = ihex_file eol items @ t" "reader_ok env r'"
    using read_item_line [OF Cons.prems(1) short assms(3)] by blast
  have IH: "process_ihex_loop env sink False b r' k' = Some (feed sink (pkg_writes b items) k')" for b k'
    using Cons.IH [OF r'(3)] Cons.prems(2) r'(2) by simp
  note line = item_line_shape [OF short]
  show ?case
  proof (cases i)
    case (Data a ds)
    then have "ihex_line_action (item_line i) = Emit a ds"
      using short good_line_action [of ds 0 a] by simp
    then show ?thesis using r'(1) IH line Data
      by (subst process_ihex_loop.simps) (simp add: Let_def)
  next
    case (Ext_Linear h)
    then have "ihex_line_action (item_line i) = Base (push_bit 16 (ucast h))"
      using good_line_action [of "[hi8 h, lo8 h]" 4 0] by simp
    then show ?thesis using r'(1) IH line Ext_Linear
      by (subst process_ihex_loop.simps) simp
  next
    case (Ext_Segment s)
    then have "ihex_line_action (item_line i) = Base (push_bit 4 (ucast s))"
      using good_line_action [of "[hi8 s, lo8 s]" 2 0] by simp
    then show ?thesis using r'(1) IH line Ext_Segment
      by (subst process_ihex_loop.simps) simp
  next
    case End_Of_File
    then have "ihex_line_action (item_line i) = Stop"
      using good_line_action [of "[]" 1 0] by simp
    then show ?thesis using r'(1) line End_Of_File
      by (subst process_ihex_loop.simps) simp
  qed
qed

lemma process_ihex_end:
  assumes "reader_ok env r" "reader_rest env r = [] \<or> (\<exists>t. reader_rest env r = LF # t)"
  shows "process_ihex_loop env sink False base r k = Some (ESP_OK, k)"
proof -
  have "\<exists>e r'. read_line env False r = Some ([], e, r')"
    using assms(2)
  proof
    assume "reader_rest env r = []"
    then show ?thesis using read_none [OF assms(1)]
      unfolding read_line_def by (subst read_line_loop.simps) (auto simp: Let_def)
  next
    assume "\<exists>t. reader_rest env r = LF # t"
    then show ?thesis using read_line_loop_LF [OF assms(1), of "[]" _ "[]"] by (fastforce simp: read_line_def)
  qed
  then show ?thesis by (subst process_ihex_loop.simps) auto
qed


section \<open>COFF and ELF files\<close>

lemma read_exact_rest:
  "reader_ok env r \<Longrightarrow> read_exact env want r = take want (reader_rest env r)"
proof (induction env want r rule: read_exact.induct)
  case (1 env want r)
  let ?bs = "fst (fw_storage_reader_read env r want)" and ?r = "snd (fw_storage_reader_read env r want)"
  have split: "reader_rest env r = ?bs @ reader_rest env ?r" by (rule storage.rd_split [OF 1(2)])
  show ?case
  proof (cases "want = 0 \<or> ?bs = []")
    case True
    then show ?thesis
      using storage.rd_progress [OF 1(2), of want] by (subst read_exact.simps) (auto simp: Let_def)
  next
    case False
    have "read_exact env want r = ?bs @ take (want - length ?bs) (reader_rest env ?r)"
      using False 1(1) [OF _ refl refl] storage.rd_ok [OF 1(2)]
      by (subst read_exact.simps) (simp add: Let_def)
    also have "\<dots> = take want (?bs @ reader_rest env ?r)"
      using storage.rd_bound [OF 1(2), of want] by simp
    finally show ?thesis using split by simp
  qed
qed

lemma emit_chunks_cut:
  "off + n \<le> length buf \<Longrightarrow>
     emit_chunks sink buf off a n k = Some (feed sink (cut 1024 a (take n (drop off buf))) k)"
proof (induction sink buf off a n k rule: emit_chunks.induct)
  case (1 sink buf off a n k)
  show ?case
  proof (cases "n = 0")
    case True
    then show ?thesis by (subst emit_chunks.simps) (simp add: cut.simps)
  next
    case False
    let ?c = "if 1024 < n then 1024 else n"
    let ?d = "take n (drop off buf)"
    have d: "take ?c (drop off buf) = take 1024 ?d" "length (take 1024 ?d) = ?c"
      "drop 1024 ?d = take (n - ?c) (drop (off + ?c) buf)" "?d \<noteq> []"
      using 1(2) False by (auto simp: min_def drop_take add.commute)
    have IH: "emit_chunks sink buf (off + ?c) (a + of_nat ?c) (n - ?c) k' =
        Some (feed sink (cut 1024 (a + of_nat ?c) (take (n - ?c) (drop (off + ?c) buf))) k')"
      if "k' = snd (sink a (take ?c (drop off buf)) k)" "fst (sink a (take ?c (drop off buf)) k) = ESP_OK" for k'
      using 1(1) [OF False refl _ refl] 1(2) that by (auto split: if_splits)
    have e: "emit_chunks sink buf off a n k =
        (let res = sink a (take ?c (drop off buf)) k
         in if fst res \<noteq> ESP_OK then Some res
            else emit_chunks sink buf (off + ?c) (a + of_nat ?c) (n - ?c) (snd res))"
      using False 1(2) by (subst emit_chunks.simps) (simp add: Let_def)
    have c: "cut 1024 a ?d = (a, take 1024 ?d) # cut 1024 (a + of_nat ?c) (drop 1024 ?d)"
      using d by (subst cut.simps) simp
    show ?thesis
      unfolding e c d(1) by (simp add: Let_def IH d del: take_take)
  qed
qed

lemma emit_chunks_oob:
  assumes "\<And>a bs k. fst (sink a bs k) = ESP_OK" "length buf < off + n" "0 < n"
  shows "emit_chunks sink buf off a n k = None"
  using assms(2,3)
proof (induction n arbitrary: off a k rule: less_induct)
  case (less n)
  let ?c = "if 1024 < n then 1024 else n"
  show ?case
  proof (cases "length buf < off + ?c")
    case True
    then show ?thesis using less.prems by (subst emit_chunks.simps) (simp add: Let_def)
  next
    case False
    then have c: "1024 < n" "?c = 1024" using less.prems by (auto split: if_splits)
    then have "emit_chunks sink buf (off + 1024) (a + of_nat 1024) (n - 1024) k' = None" for k'
      using less.prems by (intro less.IH) auto
    then show ?thesis using less.prems(2) False
      by (subst emit_chunks.simps) (simp add: Let_def assms(1) c)
  qed
qed

text \<open>The fields of an ELF file and the blocks of its loadable segments.\<close>

definition w16 :: "bytes \<Rightarrow> nat \<Rightarrow> u16" where "w16 buf i = the (le16 buf i)"
definition w32 :: "bytes \<Rightarrow> nat \<Rightarrow> u32" where "w32 buf i = the (le32 buf i)"

lemma le_some: "i + 1 < length buf \<Longrightarrow> le16 buf i = Some (w16 buf i)"
  "i + 3 < length buf \<Longrightarrow> le32 buf i = Some (w32 buf i)"
  by (simp_all add: le16_def le32_def w16_def w32_def)

definition elf_ph :: "bytes \<Rightarrow> nat \<Rightarrow> nat" where
  "elf_ph buf i = unat (w32 buf 28) + i * unat (w16 buf 42)"

definition elf_loadable :: "bytes \<Rightarrow> nat \<Rightarrow> bool" where
  "elf_loadable buf ph \<longleftrightarrow> w32 buf ph = 1 \<and> w32 buf (ph + 16) \<noteq> 0"

definition elf_blocks :: "bytes \<Rightarrow> nat \<Rightarrow> (u32 \<times> bytes) list" where
  "elf_blocks buf ph =
     (if elf_loadable buf ph
      then cut 1024 (w32 buf (ph + 12)) (take (unat (w32 buf (ph + 16))) (drop (unat (w32 buf (ph + 4))) buf))
      else [])"

definition elf_file_ok :: "bytes \<Rightarrow> bool" where
  "elf_file_ok buf \<longleftrightarrow> 52 \<le> length buf \<and> length buf < 2 ^ 32 \<and>
     take 6 buf = [0x7f, byte_of CHR ''E'', byte_of CHR ''L'', byte_of CHR ''F'', 1, 1] \<and>
     w32 buf 28 \<noteq> 0 \<and> 20 \<le> w16 buf 42 \<and> w16 buf 44 \<noteq> 0 \<and>
     unat (w32 buf 28) + unat (w16 buf 42) * unat (w16 buf 44) \<le> length buf \<and>
     (\<forall>i < unat (w16 buf 44). elf_loadable buf (elf_ph buf i) \<longrightarrow>
        unat (w32 buf (elf_ph buf i + 4)) + unat (w32 buf (elf_ph buf i + 16)) \<le> length buf)"

lemma unat_add_small: "unat a + unat b < 2 ^ 32 \<Longrightarrow> unat (a + b :: u32) = unat a + unat b"
  by (simp add: unat_word_ariths)

lemma elf_segment_feed:
  assumes "ph = phoff + i * phentsize" "ph + 19 < length buf" "length buf < 2 ^ 32"
    and "elf_loadable buf ph \<Longrightarrow> unat (w32 buf (ph + 4)) + unat (w32 buf (ph + 16)) \<le> length buf"
  shows "elf_segment sink buf phoff phentsize i k = Some (feed sink (elf_blocks buf ph) k)"
proof (cases "elf_loadable buf ph")
  case True
  then have b: "unat (w32 buf (ph + 4)) + unat (w32 buf (ph + 16)) \<le> length buf" by (rule assms(4))
  then have "unat (w32 buf (ph + 4) + w32 buf (ph + 16)) \<le> length buf"
    using assms(3) by (subst unat_add_small) auto
  then show ?thesis
    using True assms(1,2) emit_chunks_cut [OF b] by (simp add: elf_segment_def le_some elf_loadable_def elf_blocks_def Let_def)
next
  case False
  then show ?thesis
    using assms(1,2) by (auto simp: elf_segment_def le_some elf_loadable_def elf_blocks_def Let_def)
qed

lemma each_header_feed:
  assumes "\<And>i k. i \<in> set is \<Longrightarrow> f i k = Some (feed sink (blocks i) k)"
  shows "each_header f is k = Some (feed sink (concat (map blocks is)) k)"
  using assms by (induction "is" arbitrary: k) (auto simp: feed_append Let_def)


lemma unat_table_end:
  assumes "unat (off :: u32) + unat (es :: u16) * unat (n :: u16) < 2 ^ 32"
  shows "unat (off + ucast es * ucast n) = unat off + unat es * unat n"
proof -
  have u: "unat (ucast x :: u32) = unat x" for x :: u16
    by (simp add: unsigned_ucast_eq take_bit_nat_eq_self less_trans [OF unsigned_less])
  have "unat (ucast es * ucast n :: u32) = unat es * unat n"
    unfolding unat_word_ariths u using assms by simp
  then show ?thesis using assms by (simp add: unat_add_small)
qed

section \<open>Properties\<close>

text \<open>A binary image reaches the sink whole and in order: \<open>fw_packaging_process\<close> ends, feeds the
  sink blocks that lie one behind the other from address 0, and, unless the sink refuses one,
  their bytes are exactly the stored image.\<close>

theorem packaging_bin:
  assumes "reader_ok env r" "fm_format meta = FW_FMT_BIN"
  shows "\<exists>ws. fw_packaging_process mo env meta r sink k = Some (feed sink ws k) \<and> contiguous 0 ws \<and>
    (fst (feed sink ws k) = ESP_OK \<longrightarrow> concat (map snd ws) = reader_rest env r)"
  using process_bin_run [OF assms(1), of sink 0 k] assms(2)
  by (auto simp: fw_packaging_process_def process_bin_def)

definition example_reader :: "fw_format \<Rightarrow> bytes \<Rightarrow> fw_storage_reader" where
  "example_reader f d = \<lparr>r_file = d, r_meta = fw_meta_zero\<lparr>fm_format := f, fm_original_size := length d\<rparr>,
     r_remaining = length d, r_buffer = [], r_key = [], r_active = True, r_encrypted = False\<rparr>"

lemma example_reader_ok:
  "reader_ok env (example_reader f d)" "reader_rest env (example_reader f d) = d"
  "r_meta (example_reader f d) = fw_meta_zero\<lparr>fm_format := f, fm_original_size := length d\<rparr>"
  by (simp_all add: example_reader_def reader_ok_def reader_rest_def)

lemma packaging_bin_witness:
  "\<exists>ws. fw_packaging_process (\<lambda>_. True) example_env fw_meta_zero (example_reader FW_FMT_BIN [1, 2, 3])
      (\<lambda>_ bs k. (ESP_OK, k + length bs)) 0 = Some (feed (\<lambda>_ bs k. (ESP_OK, k + length bs)) ws 0) \<and>
    contiguous 0 ws \<and>
    (fst (feed (\<lambda>_ bs k. (ESP_OK, k + length bs)) ws 0) = ESP_OK \<longrightarrow> concat (map snd ws) = [1, 2, 3])"
  using packaging_bin [OF example_reader_ok(1), of fw_meta_zero]
  unfolding example_reader_ok(2) by (simp add: fw_meta_zero_def)

text \<open>C8: A HEX file reaches the sink as the blocks its records ask for. For a file of records of at most
  121 data bytes, with LF or CR LF line ends, \<open>fw_packaging_process\<close> feeds the sink exactly the data
  blocks at the 32 bit addresses of their records, up to the end record or the end of the file.\<close>

theorem packaging_ihex:
  assumes "reader_ok env r" "fm_format meta = FW_FMT_IHEX"
    and "\<forall>i \<in> set items. item_short i" "line_end eol" "reader_rest env r = ihex_file eol items"
  shows "fw_packaging_process mo env meta r sink k = Some (feed sink (pkg_writes 0 items) k)"
proof -
  have "process_ihex_loop env sink False 0 r k = Some (feed sink (pkg_writes 0 items) k)"
    by (rule process_ihex_items [OF assms(1,3,4), of "[]"]) (simp_all add: assms(5) process_ihex_end)
  then show ?thesis using assms(2) by (simp add: fw_packaging_process_def process_ihex_def)
qed

lemma packaging_ihex_witness:
  "fw_packaging_process (\<lambda>_. True) example_env (fw_meta_zero\<lparr>fm_format := FW_FMT_IHEX\<rparr>)
     (example_reader FW_FMT_IHEX (ihex_file [CR, LF] [Ext_Linear 0x0800, Data 4 [1, 2], End_Of_File]))
     (\<lambda>a bs k. (ESP_OK, k @ [(a, bs)])) [] = Some (ESP_OK, [(0x08000004, [1, 2])])"
  using packaging_ihex [OF example_reader_ok(1), where meta = "fw_meta_zero\<lparr>fm_format := FW_FMT_IHEX\<rparr>"
      and items = "[Ext_Linear 0x0800, Data 4 [1, 2], End_Of_File]" and eol = "[CR, LF]"
      and sink = "\<lambda>a bs k. (ESP_OK, k @ [(a, bs)])" and k = "[]"]
  by (simp add: example_reader_ok line_end_def Let_def)

text \<open>A blank line ends a HEX file early, and is reported as success: whatever stands behind it, only
  the records before it reach the sink. (\<open>read_line\<close> returns false for an empty line, so the loop's
  own test for one, which means to skip it, is never reached.)\<close>

theorem packaging_ihex_blank_line:
  assumes "reader_ok env r" "fm_format meta = FW_FMT_IHEX"
    and "\<forall>i \<in> set items. item_short i" "line_end eol"
    and "reader_rest env r = ihex_file eol items @ LF # rest"
  shows "fw_packaging_process mo env meta r sink k = Some (feed sink (pkg_writes 0 items) k)"
proof -
  have "process_ihex_loop env sink False 0 r k = Some (feed sink (pkg_writes 0 items) k)"
    by (rule process_ihex_items [OF assms(1,3,4,5)]) (simp_all add: process_ihex_end)
  then show ?thesis using assms(2) by (simp add: fw_packaging_process_def process_ihex_def)
qed

lemma packaging_ihex_blank_line_witness:
  "fw_packaging_process (\<lambda>_. True) example_env (fw_meta_zero\<lparr>fm_format := FW_FMT_IHEX\<rparr>)
     (example_reader FW_FMT_IHEX (ihex_file [LF] [Data 0 [1]] @ LF # ihex_file [LF] [Data 1 [2]]))
     (\<lambda>a bs k. (ESP_OK, k @ [(a, bs)])) [] = Some (ESP_OK, [(0, [1])])"
  using packaging_ihex_blank_line [OF example_reader_ok(1),
      where meta = "fw_meta_zero\<lparr>fm_format := FW_FMT_IHEX\<rparr>" and items = "[Data 0 [1]]" and eol = "[LF]"
      and sink = "\<lambda>a bs k. (ESP_OK, k @ [(a, bs)])" and k = "[]"]
  by (simp add: example_reader_ok line_end_def Let_def)

text \<open>C9: An ELF file reaches the sink as its loadable segments. For a 32 bit little-endian file whose
  program header table and loadable segments lie inside it, \<open>fw_packaging_process\<close> feeds the sink
  each segment's file contents at its physical address, in table order, in blocks of at most
  1024 bytes, and reads nothing outside the file.\<close>

theorem packaging_elf:
  assumes "reader_ok env r" "fm_format meta = FW_FMT_ELF" "elf_file_ok buf"
    and "reader_rest env r = buf" "fm_original_size (r_meta r) = length buf" "mo (length buf)"
  shows "fw_packaging_process mo env meta r sink k =
    Some (feed sink (concat (map (\<lambda>i. elf_blocks buf (elf_ph buf i)) [0..<unat (w16 buf 44)])) k)"
proof -
  let ?phoff = "unat (w32 buf 28)" and ?es = "unat (w16 buf 42)" and ?n = "unat (w16 buf 44)"
  have ok: "52 \<le> length buf" "length buf < 2 ^ 32" "20 \<le> ?es" "?phoff + ?es * ?n \<le> length buf"
    using assms(3) by (auto simp: elf_file_ok_def word_le_nat_alt)
  have t6: "take 6 buf = [0x7f, byte_of CHR ''E'', byte_of CHR ''L'', byte_of CHR ''F'', 1, 1]"
    using assms(3) by (simp add: elf_file_ok_def)
  have magic: "take 4 buf = [0x7f, byte_of CHR ''E'', byte_of CHR ''L'', byte_of CHR ''F'']"
    using arg_cong [OF t6, of "take 4"] by simp
  have cls: "buf ! 4 = 1" "buf ! 5 = 1"
    using arg_cong [OF t6, of "\<lambda>xs. xs ! 4"] arg_cong [OF t6, of "\<lambda>xs. xs ! 5"] by simp_all
  have tab: "unat (w32 buf 28 + ucast (w16 buf 42) * ucast (w16 buf 44)) \<le> length buf"
    using ok by (subst unat_table_end) auto
  have nz: "w32 buf 28 \<noteq> 0" "w16 buf 42 \<noteq> 0" "w16 buf 44 \<noteq> 0"
    using assms(3) ok(3) by (auto simp: elf_file_ok_def)
  have seg: "elf_segment sink buf ?phoff ?es i k' = Some (feed sink (elf_blocks buf (elf_ph buf i)) k')"
    if i: "i \<in> set [0..<?n]" for i k'
  proof (rule elf_segment_feed)
    have "Suc i * ?es \<le> ?n * ?es" using i by (intro mult_le_mono1) simp
    then have "i * ?es + ?es \<le> ?es * ?n" by (simp add: mult.commute)
    then show "elf_ph buf i + 19 < length buf" using ok by (simp add: elf_ph_def)
    show "length buf < 2 ^ 32" by (rule ok)
    show "unat (w32 buf (elf_ph buf i + 4)) + unat (w32 buf (elf_ph buf i + 16)) \<le> length buf"
      if "elf_loadable buf (elf_ph buf i)"
      using that i assms(3) by (simp add: elf_file_ok_def)
  qed (simp add: elf_ph_def)
  have "process_elf mo env sink r k = each_header (elf_segment sink buf ?phoff ?es) [0..<?n] k"
    using ok assms(4,5,6) magic cls nz tab
    by (simp add: process_elf_def read_exact_rest [OF assms(1)] le_some Let_def not_less)
  then show ?thesis
    using each_header_feed [of "[0..<?n]", OF seg] assms(2) by (simp add: fw_packaging_process_def)
qed


text \<open>An 88 byte ELF file with one loadable segment: its last four bytes, at address 0x08000000.\<close>

definition example_elf :: bytes where
  "example_elf = [0x7f, 0x45, 0x4c, 0x46, 1, 1] @ replicate 22 0 @ [52, 0, 0, 0] @ replicate 10 0 @
     [32, 0, 1, 0] @ replicate 6 0 @ [1, 0, 0, 0, 84, 0, 0, 0, 0, 0, 0, 0, 0, 0, 0, 8, 4, 0, 0, 0] @
     replicate 12 0 @ [1, 2, 3, 4]"

lemma example_elf_fields:
  "length example_elf = 88" "w32 example_elf 28 = 52" "w16 example_elf 42 = 32" "w16 example_elf 44 = 1"
  "w32 example_elf 52 = 1" "w32 example_elf 56 = 84" "w32 example_elf 64 = 0x08000000"
  "w32 example_elf 68 = 4"
  "take 6 example_elf = [0x7f, byte_of CHR ''E'', byte_of CHR ''L'', byte_of CHR ''F'', 1, 1]"
  "take 4 (drop 84 example_elf) = [1, 2, 3, 4]"
  by (simp_all add: example_elf_def w32_def w16_def le32_def le16_def byte_of_def nth_append)

lemma packaging_elf_witness:
  "fw_packaging_process (\<lambda>_. True) example_env (fw_meta_zero\<lparr>fm_format := FW_FMT_ELF\<rparr>)
     (example_reader FW_FMT_ELF example_elf) (\<lambda>a bs k. (ESP_OK, k @ [(a, bs)])) [] =
   Some (ESP_OK, [(0x08000000, [1, 2, 3, 4])])"
proof -
  have ph: "elf_ph example_elf 0 = 52" by (simp add: elf_ph_def example_elf_fields)
  have ok: "elf_file_ok example_elf"
    by (simp add: elf_file_ok_def elf_loadable_def example_elf_fields ph)
  have b: "elf_blocks example_elf 52 = [(0x08000000, [1, 2, 3, 4])]"
    by (simp add: elf_blocks_def elf_loadable_def example_elf_fields cut.simps)
  show ?thesis
    using packaging_elf [OF example_reader_ok(1) [of example_env FW_FMT_ELF example_elf] _ ok,
        where meta = "fw_meta_zero\<lparr>fm_format := FW_FMT_ELF\<rparr>"
        and sink = "\<lambda>a bs k. (ESP_OK, k @ [(a, bs)])" and k = "[]"]
    by (simp add: example_reader_ok example_elf_fields ph b)
qed

text \<open>The range check of a segment is done in 32 bits and can wrap. For a loadable segment whose
  header can be read, and a sink that takes everything, processing it reads outside the file buffer
  exactly when offset plus size, as integers, exceed the file while their 32 bit sum does not.\<close>

theorem elf_segment_overflow:
  assumes "ph = phoff + i * phentsize" "ph + 19 < length buf" "elf_loadable buf ph"
    and "\<And>a bs k. fst (sink a bs k) = ESP_OK"
  shows "elf_segment sink buf phoff phentsize i k = None \<longleftrightarrow>
    length buf < unat (w32 buf (ph + 4)) + unat (w32 buf (ph + 16)) \<and>
    unat (w32 buf (ph + 4) + w32 buf (ph + 16)) \<le> length buf"
proof -
  let ?off = "w32 buf (ph + 4)" and ?n = "w32 buf (ph + 16)"
  have e: "elf_segment sink buf phoff phentsize i k =
      (if length buf < unat (?off + ?n) then Some (ESP_FAIL, k)
       else emit_chunks sink buf (unat ?off) (w32 buf (ph + 12)) (unat ?n) k)"
    using assms(1-3) by (simp add: elf_segment_def le_some elf_loadable_def Let_def)
  show ?thesis
  proof (cases "unat ?off + unat ?n \<le> length buf")
    case True
    then show ?thesis unfolding e by (simp add: emit_chunks_cut)
  next
    case False
    moreover have "0 < unat ?n" using assms(3) by (simp add: elf_loadable_def unat_gt_0)
    ultimately show ?thesis unfolding e
      using emit_chunks_oob [OF assms(4), of buf "unat ?off" "unat ?n"] by auto
  qed
qed

lemma elf_segment_overflow_witness:
  "\<exists>buf. elf_loadable buf 0 \<and> elf_segment (\<lambda>_ _ k. (ESP_OK, k)) buf 0 0 0 () = None"
proof -
  let ?buf = "[1, 0, 0, 0, 0xFE, 0xFF, 0xFF, 0xFF, 0, 0, 0, 0, 0, 0, 0, 0, 2, 0, 0, 0 :: u8]"
  have f: "w32 ?buf 0 = 1" "w32 ?buf 4 = 0xFFFFFFFE" "w32 ?buf 16 = 2" "length ?buf = 20"
    by (simp_all add: w32_def le32_def)
  then have l: "elf_loadable ?buf 0" by (simp add: elf_loadable_def)
  have "elf_segment (\<lambda>_ _ k. (ESP_OK, k)) ?buf 0 0 0 () = None"
    using elf_segment_overflow [OF _ _ l, where phoff = 0 and i = 0 and phentsize = 0
        and sink = "\<lambda>_ _ k. (ESP_OK, k)" and k = "()"] f by simp
  with l show ?thesis by blast
qed

end
