(* ===== verification/Fw_Manager.thy ===== *)
theory Fw_Manager
  imports Packaging
begin

text \<open>
  Uploading and running firmware: meta data, buffered and streamed uploads, and starting a job from
  the SD card (\<open>fw_upload_manager.c\<close>), and the worker that takes jobs off its queue, converts HEX to
  binary and dispatches to the updater of the target (\<open>fw_update_worker.c\<close>). The updaters
  themselves are modelled in their own theories; here the dispatch says which one is called.
\<close>

section \<open>Upload manager\<close>

definition fw_upload_prepare_meta :: "bool \<Rightarrow> string \<Rightarrow> string \<Rightarrow> fw_format \<Rightarrow> fw_meta" where
  "fw_upload_prepare_meta enc_on name type format =
     (let m = fw_meta_init_defaults enc_on
                (fw_meta_zero\<lparr>fm_file_name := c_copy 64 name, fm_file_type := c_copy 8 type\<rparr>)
      in if format \<noteq> FW_FMT_UNKNOWN
         then let m1 = m\<lparr>fm_format := format\<rparr>
              in if fm_exec_format m1 = FW_FMT_UNKNOWN then m1\<lparr>fm_exec_format := fm_format m1\<rparr> else m1
         else m)"

record fw_upload_session =
  us_writer :: fw_storage_writer
  us_meta :: fw_meta
  us_received :: u32

record fw_job =
  jb_meta :: fw_meta
  jb_file_name :: string
  jb_file_type :: string

text \<open>The state the functions share: files, progress, the job queue (\<open>None\<close> before its creation) and
  whether the worker task exists.\<close>

record fw_sys =
  sy_fs :: fs
  sy_state :: fw_state
  sy_queue :: "fw_job list option"
  sy_task :: bool

definition set_step :: "fw_step \<Rightarrow> string \<Rightarrow> fw_sys \<Rightarrow> fw_sys" where
  "set_step st msg s = s\<lparr>sy_state := fw_state_set_step st msg (sy_state s)\<rparr>"

definition set_progress :: "u8 \<Rightarrow> fw_sys \<Rightarrow> fw_sys" where
  "set_progress p s = s\<lparr>sy_state := fw_state_set_progress p (sy_state s)\<rparr>"

definition fw_upload_save_buffer :: "fw_env \<Rightarrow> fw_meta \<Rightarrow> bytes \<Rightarrow> fw_sys \<Rightarrow> esp_err \<times> fw_sys" where
  "fw_upload_save_buffer env m data s =
     (if data = [] then (ESP_ERR_INVALID_ARG, s)
      else let s1 = set_step FW_STEP_TRANSFER ''store buffer'' s;
               (r, w, fs1) = fw_storage_writer_open env fw_storage_writer_zero
                 (m\<lparr>fm_original_size := length data\<rparr>) (sy_fs s1)
           in if r \<noteq> ESP_OK then (ESP_FAIL, s1\<lparr>sy_fs := fs1\<rparr>)
              else let (r, w1, fs2) = fw_storage_writer_write env data w fs1
                   in if r \<noteq> ESP_OK
                      then let (r, w2, fs3) = fw_storage_writer_close env w1 fs2
                           in (ESP_FAIL, s1\<lparr>sy_fs := fs3\<rparr>)
                      else let (r, w2, fs3) = fw_storage_writer_close env w1 fs2
                           in if r \<noteq> ESP_OK then (ESP_FAIL, s1\<lparr>sy_fs := fs3\<rparr>)
                              else (ESP_OK, set_step FW_STEP_DONE ''store done'' (s1\<lparr>sy_fs := fs3\<rparr>)))"

definition fw_upload_session_begin ::
    "fw_env \<Rightarrow> fw_meta \<Rightarrow> nat \<Rightarrow> fw_upload_session \<Rightarrow> fw_sys \<Rightarrow> esp_err \<times> fw_upload_session \<times> fw_sys" where
  "fw_upload_session_begin env m total_size us s =
     (if total_size = 0 then (ESP_ERR_INVALID_ARG, us, s)
      else let m1 = m\<lparr>fm_original_size := total_size\<rparr>;
               s1 = set_progress 0 (set_step FW_STEP_TRANSFER ''store stream'' s);
               (r, w, fs1) = fw_storage_writer_open env fw_storage_writer_zero m1 (sy_fs s1)
           in (r, \<lparr>us_writer = w, us_meta = m1, us_received = 0\<rparr>, s1\<lparr>sy_fs := fs1\<rparr>))"

text \<open>\<open>received\<close> and the product with 100 are 32 bits wide.\<close>

definition session_percent :: "u32 \<Rightarrow> nat \<Rightarrow> u32" where
  "session_percent received tot =
     (let percent = (received * 100) div of_nat tot in if 100 < percent then 100 else percent)"

definition fw_upload_session_write ::
    "fw_env \<Rightarrow> bytes \<Rightarrow> fw_upload_session \<Rightarrow> fw_sys \<Rightarrow> esp_err \<times> fw_upload_session \<times> fw_sys" where
  "fw_upload_session_write env data us s =
     (if data = [] then (ESP_ERR_INVALID_ARG, us, s)
      else let (r, w, fs1) = fw_storage_writer_write env data (us_writer us) (sy_fs s);
               us1 = us\<lparr>us_writer := w\<rparr>; s1 = s\<lparr>sy_fs := fs1\<rparr>
           in if r \<noteq> ESP_OK then (r, us1, s1)
              else let us2 = us1\<lparr>us_received := us_received us + of_nat (length data)\<rparr>
                   in (r, us2,
                       if 0 < fm_original_size (us_meta us2)
                       then set_progress (ucast (session_percent (us_received us2)
                              (fm_original_size (us_meta us2)))) s1
                       else s1))"

definition fw_upload_session_finish ::
    "fw_env \<Rightarrow> fw_upload_session \<Rightarrow> fw_sys \<Rightarrow> esp_err \<times> fw_upload_session \<times> fw_sys" where
  "fw_upload_session_finish env us s =
     (let (r, w, fs1) = fw_storage_writer_close env (us_writer us) (sy_fs s);
          us1 = us\<lparr>us_writer := w\<rparr>; s1 = s\<lparr>sy_fs := fs1\<rparr>
      in (r, us1, if r = ESP_OK then set_progress 100 (set_step FW_STEP_DONE ''store done'' s1) else s1))"

section \<open>File names\<close>

text \<open>\<open>strrchr(s, '.')\<close>: what stands before and behind the last dot.\<close>

definition split_last_dot :: "string \<Rightarrow> (string \<times> string) option" where
  "split_last_dot s =
     (if CHR ''.'' \<in> set s
      then let ext = rev (takeWhile (\<lambda>c. c \<noteq> CHR ''.'') (rev s))
           in Some (take (length s - length ext - 1) s, ext)
      else None)"

definition fw_get_filename_without_extension :: "nat \<Rightarrow> string \<Rightarrow> string" where
  "fw_get_filename_without_extension out_size name =
     (case split_last_dot name of None \<Rightarrow> c_copy out_size name | Some (base, _) \<Rightarrow> c_copy out_size base)"

definition fw_get_filename_ext :: "string \<Rightarrow> string" where
  "fw_get_filename_ext name =
     (case split_last_dot name of None \<Rightarrow> [] | Some (base, ext) \<Rightarrow> if base = [] then [] else ext)"

definition fw_trim_whitespace :: "string \<Rightarrow> string" where
  "fw_trim_whitespace s = rev (dropWhile isspace (rev (dropWhile isspace s)))"

definition fw_split_name_type :: "nat \<Rightarrow> nat \<Rightarrow> string \<Rightarrow> string \<Rightarrow> string \<times> string" where
  "fw_split_name_type name_size type_size name type =
     (case split_last_dot name of
        Some (base, ext) \<Rightarrow>
          if ext \<noteq> [] then (c_copy name_size base, c_copy type_size ext)
          else (c_copy name_size name, c_copy type_size type)
      | None \<Rightarrow> (c_copy name_size name, c_copy type_size type))"

text \<open>The directory scan: an exact match at once, else the first file of that name.\<close>

fun find_sdmmc_scan :: "string \<Rightarrow> string \<Rightarrow> (string \<times> string) option \<Rightarrow> string list \<Rightarrow> (string \<times> string) option" where
  "find_sdmmc_scan name type fallback [] = fallback"
| "find_sdmmc_scan name type fallback (ent # ents) =
     (let ext = fw_get_filename_ext ent; base = fw_get_filename_without_extension 64 ent
      in if length ext \<noteq> 3 then find_sdmmc_scan name type fallback ents
         else if strcaseeq base name \<and> strcaseeq ext type then Some (base, ext)
         else if fallback = None \<and> strcaseeq base name \<and> base \<noteq> []
         then find_sdmmc_scan name type (Some (base, ext)) ents
         else find_sdmmc_scan name type fallback ents)"

definition fw_find_sdmmc_file :: "string list option \<Rightarrow> string \<Rightarrow> string \<Rightarrow> (string \<times> string) option" where
  "fw_find_sdmmc_file dir name type =
     (case dir of None \<Rightarrow> None | Some ents \<Rightarrow> find_sdmmc_scan name type None ents)"

section \<open>The job queue\<close>

definition FW_UPDATE_QUEUE_LEN :: nat where [model_simps]: "FW_UPDATE_QUEUE_LEN = 2"

text \<open>\<open>queue_ok\<close> and \<open>task_ok\<close> say whether the queue and the task can be created.\<close>

definition fw_update_worker_start :: "bool \<Rightarrow> bool \<Rightarrow> fw_sys \<Rightarrow> esp_err \<times> fw_sys" where
  "fw_update_worker_start queue_ok task_ok s =
     (if sy_queue s = None \<and> \<not> queue_ok then (ESP_FAIL, s)
      else let s1 = (if sy_queue s = None then s\<lparr>sy_queue := Some []\<rparr> else s)
           in if sy_task s1 then (ESP_OK, s1)
              else if task_ok then (ESP_OK, s1\<lparr>sy_task := True\<rparr>)
              else (ESP_FAIL, s1))"

definition fw_update_enqueue_job :: "fw_meta \<Rightarrow> string \<Rightarrow> string \<Rightarrow> fw_sys \<Rightarrow> esp_err \<times> fw_sys" where
  "fw_update_enqueue_job m name type s =
     (case sy_queue s of
        None \<Rightarrow> (ESP_ERR_INVALID_ARG, set_step FW_STEP_ERROR ''invalid job'' s)
      | Some q \<Rightarrow>
          if FW_UPDATE_QUEUE_LEN \<le> length q
          then (ESP_FAIL, set_step FW_STEP_ERROR ''update queue full'' s)
          else (ESP_OK, s\<lparr>sy_queue := Some (q @ [\<lparr>jb_meta = m, jb_file_name = c_copy 64 name,
                                                jb_file_type = c_copy 8 type\<rparr>])\<rparr>))"

section \<open>Running a stored file\<close>

text \<open>
  The meta block a run works with: the stored one, corrected by the route of the type, or one made
  from the route. The size of a file without meta data is looked up by the names as given.
\<close>

definition run_meta :: "fw_env \<Rightarrow> string \<Rightarrow> string \<Rightarrow> string \<Rightarrow> string \<Rightarrow> fs \<Rightarrow> fw_meta \<times> fs" where
  "run_meta env name type name_buf type_buf fs =
     (case fw_storage_meta_read env name_buf type_buf fs of
        Inl _ \<Rightarrow>
          let m = fw_meta_zero\<lparr>fm_file_name := c_copy 64 name_buf, fm_file_type := c_copy 8 type_buf,
                fm_format := (case fw_registry_lookup type_buf of Some r \<Rightarrow> fr_format r | None \<Rightarrow> FW_FMT_UNKNOWN),
                fm_exec := (case fw_registry_lookup type_buf of Some r \<Rightarrow> fr_exec r | None \<Rightarrow> FW_EXEC_UNKNOWN)\<rparr>;
              m1 = (case fw_storage_build_path 384 name type of
                      None \<Rightarrow> m
                    | Some p \<Rightarrow> (case fs p of None \<Rightarrow> m | Some c \<Rightarrow> m\<lparr>fm_original_size := length c\<rparr>))
          in (m1, snd (fw_storage_meta_write env m1 fs))
      | Inr m \<Rightarrow>
          (case fw_registry_lookup type_buf of
             None \<Rightarrow> (m, fs)
           | Some r \<Rightarrow>
               let m1 = (if \<not> fm_exec_override m \<and> fm_exec m \<noteq> fr_exec r then m\<lparr>fm_exec := fr_exec r\<rparr> else m);
                   m2 = (if fm_format m1 = FW_FMT_UNKNOWN \<and> fr_format r \<noteq> FW_FMT_UNKNOWN
                         then m1\<lparr>fm_format := fr_format r\<rparr> else m1)
               in (m2, if m2 \<noteq> m then snd (fw_storage_meta_write env m2 fs) else fs)))"

definition fw_upload_run_from_sdmmc ::
    "fw_env \<Rightarrow> string list option \<Rightarrow> bool \<Rightarrow> bool \<Rightarrow> string \<Rightarrow> string \<Rightarrow> fw_sys \<Rightarrow> esp_err \<times> fw_sys" where
  "fw_upload_run_from_sdmmc env dir queue_ok task_ok name type s =
     (let (n0, t0) = fw_split_name_type 64 8 name type;
          name_buf = fw_trim_whitespace n0; type_buf = fw_trim_whitespace t0;
          (meta, fs1) = run_meta env name type name_buf type_buf (sy_fs s);
          s1 = s\<lparr>sy_fs := fs1\<rparr>;
          found = (if fm_exec meta = FW_EXEC_ESP32_OTA then Inr (name_buf, type_buf)
                   else if \<not> e_sd_ok env then Inl ''SDMMC not ready''
                   else case fw_find_sdmmc_file dir name_buf type_buf of
                          None \<Rightarrow> Inl ''file not found'' | Some nt \<Rightarrow> Inr (c_copy 64 (fst nt), c_copy 8 (snd nt)))
      in case found of
           Inl msg \<Rightarrow> (ESP_FAIL, set_step FW_STEP_ERROR msg s1)
         | Inr nt \<Rightarrow>
             let (r, s2) = fw_update_worker_start queue_ok task_ok s1
             in if r \<noteq> ESP_OK then (ESP_FAIL, set_step FW_STEP_ERROR ''update task start fail'' s2)
                else fw_update_enqueue_job meta (fst nt) (snd nt) s2)"

section \<open>The worker\<close>

record fw_process_stats =
  ps_total :: nat
  ps_last_addr :: u32

definition fw_process_sink :: "fw_process_stats pkg_sink" where
  "fw_process_sink addr data k = (ESP_OK, k\<lparr>ps_total := ps_total k + length data, ps_last_addr := addr\<rparr>)"

text \<open>
  Preparing the executable file: a HEX file whose target wants a binary is converted into
  \<open><name>_bin\<close>. The input is opened before the output is created, and read afterwards; \<open>io\<close> and
  \<open>junk\<close> are the file writes and the uninitialised memory of \<open>Intel_Hex\<close>.
\<close>

definition fw_prepare_exec_file ::
    "fw_env \<Rightarrow> (u32 \<Rightarrow> bytes \<Rightarrow> nat option) \<Rightarrow> bytes \<Rightarrow> fw_job \<Rightarrow> fs \<Rightarrow> (esp_err \<times> fw_job \<times> fs) option" where
  "fw_prepare_exec_file env io junk job fs =
     (if fm_format (jb_meta job) = fm_exec_format (jb_meta job) then Some (ESP_OK, job, fs)
      else if fm_format (jb_meta job) = FW_FMT_IHEX \<and> fm_exec_format (jb_meta job) = FW_FMT_BIN
      then (case fw_storage_build_path 384 (jb_file_name job) (jb_file_type job) of
              None \<Rightarrow> Some (ESP_ERR_INVALID_ARG, job, fs)
            | Some in_path \<Rightarrow>
                let out_name = c_copy 64 (jb_file_name job @ ''_bin''); out_type = c_copy 8 (jb_file_type job)
                in case fw_storage_build_path 384 out_name out_type of
                     None \<Rightarrow> Some (ESP_ERR_INVALID_ARG, job, fs)
                   | Some out_path \<Rightarrow>
                       if fs in_path = None
                       then Some (ESP_FAIL, job, if e_can_create env out_path then fs(out_path \<mapsto> []) else fs)
                       else if \<not> e_can_create env out_path then Some (ESP_FAIL, job, fs)
                       else let fs1 = fs(out_path \<mapsto> [])
                            in case ihex2bin_file_to_file io junk (the (fs1 in_path)) [] of
                                 None \<Rightarrow> None
                               | Some (conv, out) \<Rightarrow>
                                   if conv \<noteq> ESP_OK then Some (conv, job, fs1(out_path := None))
                                   else Some (ESP_OK,
                                          job\<lparr>jb_meta := (jb_meta job)\<lparr>fm_format := fm_exec_format (jb_meta job)\<rparr>,
                                              jb_file_name := out_name, jb_file_type := out_type\<rparr>,
                                          fs1(out_path \<mapsto> out)))
      else Some (ESP_OK, job, fs))"

datatype fw_exec_call =
    Call_Ota | Call_Can | Call_Uart_Isp | Call_Stm32 | Call_Swd | Call_Jtag | Call_Packaged | Call_Unknown

fun worker_dispatch :: "fw_exec \<Rightarrow> fw_exec_call" where
  "worker_dispatch FW_EXEC_ESP32_OTA = Call_Ota"
| "worker_dispatch FW_EXEC_CAN = Call_Can"
| "worker_dispatch FW_EXEC_UART_ISP = Call_Uart_Isp"
| "worker_dispatch FW_EXEC_STM32_UART = Call_Stm32"
| "worker_dispatch FW_EXEC_SWD = Call_Swd"
| "worker_dispatch FW_EXEC_JTAG = Call_Jtag"
| "worker_dispatch FW_EXEC_BOOTLOADER = Call_Packaged"
| "worker_dispatch FW_EXEC_UNKNOWN = Call_Unknown"

text \<open>One round of the task: the updater it calls and the job it hands over, if any.\<close>

definition fw_update_worker_step ::
    "fw_env \<Rightarrow> (u32 \<Rightarrow> bytes \<Rightarrow> nat option) \<Rightarrow> bytes \<Rightarrow> fw_sys \<Rightarrow> (fw_sys \<times> (fw_exec_call \<times> fw_job) list) option" where
  "fw_update_worker_step env io junk s =
     (case sy_queue s of
        Some (job # q) \<Rightarrow>
          (case fw_prepare_exec_file env io junk job (sy_fs s) of
             None \<Rightarrow> None
           | Some (r, job1, fs1) \<Rightarrow>
               let s1 = s\<lparr>sy_queue := Some q, sy_fs := fs1\<rparr>
               in if r \<noteq> ESP_OK then Some (set_step FW_STEP_ERROR ''prepare exec file fail'' s1, [])
                  else Some (s1, [(worker_dispatch (fm_exec (jb_meta job1)), job1)]))
      | _ \<Rightarrow> Some (s, []))"

definition fw_update_exec_packaged ::
    "(nat \<Rightarrow> bool) \<Rightarrow> fw_env \<Rightarrow> fw_job \<Rightarrow> fw_sys \<Rightarrow> ((esp_err \<times> fw_process_stats) \<times> fw_sys) option" where
  "fw_update_exec_packaged malloc_ok env job s =
     (let st0 = \<lparr>ps_total = 0, ps_last_addr = 0\<rparr>
      in if \<not> e_sd_ok env then Some ((ESP_FAIL, st0), set_step FW_STEP_ERROR ''SDMMC not ready'' s)
         else case fw_storage_reader_open env (jb_file_name job) (jb_file_type job) (sy_fs s) of
                Inl _ \<Rightarrow> Some ((ESP_FAIL, st0), set_step FW_STEP_ERROR ''file open fail'' s)
              | Inr r \<Rightarrow>
                  (case fw_packaging_process malloc_ok env (jb_meta job) r fw_process_sink st0 of
                     None \<Rightarrow> None
                   | Some (ret, k) \<Rightarrow>
                       Some ((ret, k), if ret = ESP_OK then s else set_step FW_STEP_ERROR ''process fail'' s)))"

interpretation stats: total_sink fw_process_sink
  by unfold_locales (simp add: fw_process_sink_def)


section \<open>Queue and worker together\<close>

text \<open>Enqueueing and rounds of the worker in any order. What can be observed is the answer to a caller,
  and of a round that takes a job the updater with the job it is handed, or that there is none.\<close>

datatype worker_event = Enqueue fw_meta string string | Work
datatype worker_output = Reply esp_err | Updater fw_exec_call fw_job | Skipped

fun worker_event_step :: "fw_env \<Rightarrow> (u32 \<Rightarrow> bytes \<Rightarrow> nat option) \<Rightarrow> bytes \<Rightarrow> fw_sys \<Rightarrow> worker_event \<Rightarrow>
    (fw_sys \<times> worker_output list) option" where
  "worker_event_step env io junk s (Enqueue m name type) =
     (let (r, s1) = fw_update_enqueue_job m name type s in Some (s1, [Reply r]))"
| "worker_event_step env io junk s Work =
     (case fw_update_worker_step env io junk s of
        None \<Rightarrow> None
      | Some (s1, calls) \<Rightarrow>
          Some (s1, if sy_queue s = None \<or> sy_queue s = Some [] then []
                    else if calls = [] then [Skipped] else map (\<lambda>(c, j). Updater c j) calls))"

definition queue_wf :: "fw_sys \<Rightarrow> bool" where
  "queue_wf s \<longleftrightarrow> (\<exists>q. sy_queue s = Some q \<and> length q \<le> FW_UPDATE_QUEUE_LEN)"

lemma set_step_queue [simp]: "sy_queue (set_step st msg s) = sy_queue s"
  by (simp add: set_step_def)

interpretation worker: partial_machine "worker_event_step env io junk" queue_wf for env io junk
proof
  fix s e s' os
  assume "queue_wf s" "worker_event_step env io junk s e = Some (s', os)"
  then show "queue_wf s'"
    by (cases e) (auto simp: queue_wf_def fw_update_enqueue_job_def fw_update_worker_step_def Let_def
        split: option.splits if_splits prod.splits list.splits)
qed

text \<open>
  What the queue and the worker promise: a request is answered with \<open>ESP_OK\<close> and kept, with its names
  cut to the sizes of the job's fields, unless two are waiting; a round starts the oldest one.
\<close>

datatype queue_output = Answer esp_err | Start_Job fw_job

fun queue_step :: "fw_job list \<Rightarrow> worker_event \<Rightarrow> fw_job list \<times> queue_output list" where
  "queue_step q (Enqueue m name type) =
     (if length q < 2
      then (q @ [\<lparr>jb_meta = m, jb_file_name = take 63 name, jb_file_type = take 7 type\<rparr>], [Answer ESP_OK])
      else (q, [Answer ESP_FAIL]))"
| "queue_step [] Work = ([], [])"
| "queue_step (j # q) Work = (q, [Start_Job j])"

text \<open>
  What starting a job means: the updater that its execution type names is handed the job; if a HEX
  file is to be run as a binary it is handed the job of the converted file, or nobody is.
\<close>

definition needs_bin :: "fw_job \<Rightarrow> bool" where
  "needs_bin j \<longleftrightarrow> fm_format (jb_meta j) = FW_FMT_IHEX \<and> fm_exec_format (jb_meta j) = FW_FMT_BIN"

definition as_bin :: "fw_job \<Rightarrow> fw_job" where
  "as_bin j = j\<lparr>jb_meta := (jb_meta j)\<lparr>fm_format := FW_FMT_BIN\<rparr>,
     jb_file_name := take 63 (jb_file_name j @ ''_bin''), jb_file_type := take 7 (jb_file_type j)\<rparr>"

fun observed :: "queue_output \<Rightarrow> worker_output \<Rightarrow> bool" where
  "observed (Answer r) x = (x = Reply r)"
| "observed (Start_Job j) (Updater c j') =
     (c = worker_dispatch (fm_exec (jb_meta j)) \<and> j' = (if needs_bin j then as_bin j else j))"
| "observed (Start_Job j) Skipped = needs_bin j"
| "observed (Start_Job j) (Reply r) = False"

lemma file_to_file_ends: "ihex2bin_file_to_file io junk f g \<noteq> None"
  using ihex2bin_convert_to_sink_run [OF refl refl, where sink = "ihex2bin_file_sink io"]
  by (simp add: ihex2bin_file_to_file_def)

text \<open>Preparing a job ends, leaves other jobs as they are, and converts the ones it should.\<close>

lemma prepare_outcome:
  "case fw_prepare_exec_file env io junk j fs of
     None \<Rightarrow> False
   | Some (r, j', fs') \<Rightarrow> if r = ESP_OK then j' = (if needs_bin j then as_bin j else j) else needs_bin j"
proof (cases "needs_bin j")
  case False
  then show ?thesis by (auto simp: fw_prepare_exec_file_def needs_bin_def)
next
  case True
  then have f: "fm_format (jb_meta j) \<noteq> fm_exec_format (jb_meta j)" "fm_format (jb_meta j) = FW_FMT_IHEX"
    "fm_exec_format (jb_meta j) = FW_FMT_BIN" by (simp_all add: needs_bin_def)
  show ?thesis
    using True f
    by (simp add: file_to_file_ends fw_prepare_exec_file_def as_bin_def Let_def c_copy_def split: option.split)
qed

lemma worker_step_refines:
  assumes "sy_queue s = Some q"
  shows "\<exists>s' os. worker_event_step env io junk s e = Some (s', os) \<and>
    sy_queue s' = Some (fst (queue_step q e)) \<and> list_all2 observed (snd (queue_step q e)) os"
proof (cases e)
  case (Enqueue m name type)
  then show ?thesis
    using assms by (simp add: fw_update_enqueue_job_def FW_UPDATE_QUEUE_LEN_def c_copy_def)
next
  case Work
  show ?thesis
  proof (cases q)
    case Nil
    then show ?thesis using assms Work by (simp add: fw_update_worker_step_def)
  next
    case (Cons j q1)
    obtain r j' fs' where "fw_prepare_exec_file env io junk j (sy_fs s) = Some (r, j', fs')"
      "if r = ESP_OK then j' = (if needs_bin j then as_bin j else j) else needs_bin j"
      using prepare_outcome [where env = env and io = io and junk = junk and j = j and fs = "sy_fs s"] by (auto split: option.splits)
    moreover have "fm_exec (jb_meta (as_bin j)) = fm_exec (jb_meta j)" by (simp add: as_bin_def)
    ultimately show ?thesis
      using assms Work Cons by (cases "r = ESP_OK") (auto simp: fw_update_worker_step_def Let_def)
  qed
qed

lemma queue_step_bound: "length q \<le> 2 \<Longrightarrow> length (fst (queue_step q e)) \<le> 2"
  by (cases "(q, e)" rule: queue_step.cases) auto

interpretation job_queue: invariant_machine queue_step "\<lambda>q. length q \<le> 2"
  by unfold_locales (rule queue_step_bound)


definition example_sys :: fw_sys where
  "example_sys = \<lparr>sy_fs = Map.empty,
     sy_state = \<lparr>s_step = FW_STEP_PREPARE, s_progress = 0, s_message = []\<rparr>, sy_queue = Some [], sy_task = True\<rparr>"


section \<open>Preparing the executable file\<close>

lemma prepare_paths:
  assumes "length name < 64" "length type < 8"
  shows "fw_storage_build_path 384 name type = Some (''/sdcard/'' @ name @ ''.'' @ type)"
    "c_copy 8 type = type"
    "fw_storage_build_path 384 (c_copy 64 (name @ ''_bin'')) type =
       Some (''/sdcard/'' @ c_copy 64 (name @ ''_bin'') @ ''.'' @ type)"
  using assms by (simp_all add: fw_storage_build_path_def c_copy_id)

text \<open>Preparing a HEX job for a binary target converts it beside the original. For a name of at most
  62 characters and a HEX file that converts, the job then names the new file, its format is
  the execution format, the new file holds the converted image, and the original is unchanged.\<close>

theorem prepare_exec_ihex:
  assumes "length (jb_file_name job) \<le> 62" "length (jb_file_type job) < 8"
    and "fm_format (jb_meta job) = FW_FMT_IHEX" "fm_exec_format (jb_meta job) = FW_FMT_BIN"
    and "\<forall>p. e_can_create env p"
    and "fs (''/sdcard/'' @ jb_file_name job @ ''.'' @ jb_file_type job) = Some src"
    and "ihex2bin_file_to_file io junk src [] = Some (ESP_OK, out)"
  shows "\<exists>job' fs'. fw_prepare_exec_file env io junk job fs = Some (ESP_OK, job', fs') \<and>
    fm_format (jb_meta job') = FW_FMT_BIN \<and> jb_file_type job' = jb_file_type job \<and>
    fs' (''/sdcard/'' @ jb_file_name job' @ ''.'' @ jb_file_type job') = Some out \<and>
    fs' (''/sdcard/'' @ jb_file_name job @ ''.'' @ jb_file_type job) = Some src"
proof -
  let ?out = "c_copy 64 (jb_file_name job @ ''_bin'')"
  have "length ?out \<noteq> length (jb_file_name job)" using assms(1) by simp
  then have ne: "?out \<noteq> jb_file_name job" by metis
  show ?thesis
    using assms ne prepare_paths [of "jb_file_name job" "jb_file_type job"]
    by (simp add: fw_prepare_exec_file_def Let_def)
qed

text \<open>The longest names destroy the original. With a name of 63 characters the appended \<open>_bin\<close> is
  cut off again, input and output are the same file, and creating the output empties it before it
  is read: the job is prepared with success and the firmware is gone.\<close>

theorem prepare_exec_same_file:
  assumes "length (jb_file_name job) = 63" "length (jb_file_type job) < 8" "length junk = 256"
    and "fm_format (jb_meta job) = FW_FMT_IHEX" "fm_exec_format (jb_meta job) = FW_FMT_BIN"
    and "\<forall>p. e_can_create env p"
    and "fs (''/sdcard/'' @ jb_file_name job @ ''.'' @ jb_file_type job) = Some src"
  shows "\<exists>job' fs'. fw_prepare_exec_file env io junk job fs = Some (ESP_OK, job', fs') \<and>
    fs' (''/sdcard/'' @ jb_file_name job @ ''.'' @ jb_file_type job) = Some []"
proof -
  have out: "c_copy 64 (jb_file_name job @ ''_bin'') = jb_file_name job"
    using assms(1) by (simp add: c_copy_def)
  have "ihex2bin_file_to_file io junk [] [] = Some (ESP_OK, [])"
    using start_reader [OF assms(3)] ihex2bin_convert_to_sink_run
      [OF refl refl, where sink = "ihex2bin_file_sink io" and junk = junk and k = "[]" and d = "[]"]
    by (simp add: ihex2bin_file_to_file_def end_read_idle reader_at_def ihex2bin_ctx_init_def)
  then show ?thesis
    using assms prepare_paths [of "jb_file_name job" "jb_file_type job"] out
    by (simp add: fw_prepare_exec_file_def Let_def)
qed


definition example_job :: "string \<Rightarrow> fw_job" where
  "example_job name = \<lparr>jb_meta = fw_meta_zero\<lparr>fm_format := FW_FMT_IHEX\<rparr>, jb_file_name = name,
     jb_file_type = ''A11''\<rparr>"

lemma prepare_exec_ihex_witness:
  "\<exists>job' fs'. fw_prepare_exec_file example_env (\<lambda>_ ds. Some (length ds)) (replicate 256 0)
      (example_job ''F'') [''/sdcard/F.A11'' \<mapsto> []] = Some (ESP_OK, job', fs') \<and>
    fs' (''/sdcard/'' @ jb_file_name job' @ ''.'' @ jb_file_type job') = Some []"
proof -
  have c: "ihex2bin_file_to_file (\<lambda>_ ds. Some (length ds)) (replicate 256 0) [] [] = Some (ESP_OK, [])"
    using start_reader [of "replicate 256 0"] ihex2bin_convert_to_sink_run
      [OF refl refl, where sink = "ihex2bin_file_sink (\<lambda>_ ds. Some (length ds))"
        and junk = "replicate 256 0" and k = "[]" and d = "[]"]
    by (simp add: ihex2bin_file_to_file_def end_read_idle reader_at_def ihex2bin_ctx_init_def)
  show ?thesis
    using prepare_exec_ihex [OF _ _ _ _ example_works(2) _ c, of "example_job ''F''"
        "[''/sdcard/F.A11'' \<mapsto> []]"]
    by (fastforce simp: example_job_def fw_meta_zero_def)
qed

lemma prepare_exec_same_file_witness:
  "\<exists>job' fs'. fw_prepare_exec_file example_env (\<lambda>_ ds. Some (length ds)) (replicate 256 0)
      (example_job (replicate 63 CHR ''F''))
      [''/sdcard/'' @ replicate 63 CHR ''F'' @ ''.A11'' \<mapsto> [1, 2, 3]] = Some (ESP_OK, job', fs') \<and>
    fs' (''/sdcard/'' @ replicate 63 CHR ''F'' @ ''.A11'') = Some []"
  using prepare_exec_same_file [OF _ _ _ _ _ example_works(2), of "example_job (replicate 63 CHR ''F'')"
      "replicate 256 0" "[''/sdcard/'' @ replicate 63 CHR ''F'' @ ''.A11'' \<mapsto> [1, 2, 3]]" "[1, 2, 3]"]
  by (simp add: example_job_def fw_meta_zero_def)

section \<open>Progress and routes\<close>

text \<open>Upload progress is exact only for the first 42949672 bytes. Up to there the percentage of a
  streamed upload is the rounded-down quotient and at most 100; one byte further the 32 bit
  product wraps, and progress falls from 85 to 0 percent in an upload of 50000000 bytes.\<close>

theorem session_progress:
  "(0 < tot \<longrightarrow> tot < 2 ^ 32 \<longrightarrow> unat received \<le> tot \<longrightarrow> unat received \<le> 42949672 \<longrightarrow>
     unat (session_percent received tot) = unat received * 100 div tot \<and>
     session_percent received tot \<le> 100) \<and>
   session_percent 42949672 50000000 = 85 \<and> session_percent 42949673 50000000 = 0"
proof (intro conjI impI)
  assume a: "0 < tot" "tot < 2 ^ 32" "unat received \<le> tot" "unat received \<le> 42949672"
  have t: "unat (of_nat tot :: u32) = tot" using a(2) by (intro unat_of_nat_small) simp
  have m: "unat (received * 100) = unat received * 100"
    using a(4) by (simp add: unat_word_ariths)
  have q: "unat (received * 100 div of_nat tot) = unat received * 100 div tot"
    by (simp add: unat_div m t)
  have "unat received * 100 div tot \<le> tot * 100 div tot"
    using a(3) by (intro div_le_mono) simp
  also have "\<dots> = 100" using a(1) by simp
  finally have "unat received * 100 div tot \<le> 100" .
  then have le: "received * 100 div of_nat tot \<le> 100" using q by (simp add: word_le_nat_alt)
  then have "\<not> 100 < received * 100 div of_nat tot" by (rule leD)
  then have eq: "session_percent received tot = received * 100 div of_nat tot"
    by (simp add: session_percent_def Let_def)
  show "unat (session_percent received tot) = unat received * 100 div tot"
    "session_percent received tot \<le> 100"
    unfolding eq using q le by simp_all
qed (simp_all add: session_percent_def)

lemma session_progress_witness:
  "unat (session_percent 25 200) = 12 \<and> session_percent 25 200 \<le> 100"
  using session_progress [of 200 25] by simp

text \<open>Which updater runs a stored file: for a known file type the route decides, except that a stored
  meta block with the override flag keeps its own choice; for an unknown type it is the stored
  choice, or none without a meta file.\<close>

theorem run_meta_exec:
  "fm_exec (fst (run_meta env name type name_buf type_buf fs)) =
     (case fw_storage_meta_read env name_buf type_buf fs of
        Inl _ \<Rightarrow> (case fw_registry_lookup type_buf of Some r \<Rightarrow> fr_exec r | None \<Rightarrow> FW_EXEC_UNKNOWN)
      | Inr m \<Rightarrow> (case fw_registry_lookup type_buf of
                   Some r \<Rightarrow> if fm_exec_override m then fm_exec m else fr_exec r
                 | None \<Rightarrow> fm_exec m))"
  by (auto simp: run_meta_def Let_def split: sum.splits option.splits)

end
