(* ===== verification/Hht_Keys.thy ===== *)
theory Hht_Keys
  imports Prelude
begin

text \<open>
  Sending handheld-terminal keys (\<open>hht_keys.c\<close>): a short key is repeated four times on the polls of
  the HHT task and then released, a long key is repeated until its release. The static variables
  of the file are a record, and every function returns the bytes it writes to the UART; log flags
  are kept, log output is not.
\<close>

datatype hht_type = HHT_TYPE_WB100 | HHT_TYPE_3000 | HHT_TYPE_100 | HHT_TYPE_COUNT

definition HHT_KEY_NONE :: u8 where [model_simps]: "HHT_KEY_NONE = 0x00"
definition HHT3K_CMD_BTN :: u8 where [model_simps]: "HHT3K_CMD_BTN = 0x02"
definition HHT_KEY_SHORT_SEND_COUNT :: nat where [model_simps]: "HHT_KEY_SHORT_SEND_COUNT = 4"

record hht_keys =
  s_hold_ticks :: nat
  s_hold_key :: u8
  s_hold_active :: bool
  s_hold_long :: bool
  s_release_pending :: bool
  s_release_log_immediate :: bool
  s_press_log_pending :: bool

definition hht_keys_init :: hht_keys where
  "hht_keys_init = \<lparr>s_hold_ticks = 0, s_hold_key = HHT_KEY_NONE, s_hold_active = False,
     s_hold_long = False, s_release_pending = False, s_release_log_immediate = False,
     s_press_log_pending = False\<rparr>"

definition hht_keys_send_internal :: "hht_type \<Rightarrow> u8 \<Rightarrow> bytes" where
  "hht_keys_send_internal ty key = (if ty = HHT_TYPE_3000 then [HHT3K_CMD_BTN, key] else [key])"

definition hht_keys_cancel_short_on_display_change :: "hht_type \<Rightarrow> hht_keys \<Rightarrow> hht_keys \<times> bytes list" where
  "hht_keys_cancel_short_on_display_change ty s =
     (if \<not> s_hold_active s \<or> s_hold_long s then (s, [])
      else (s\<lparr>s_hold_active := False, s_hold_long := False, s_hold_ticks := 0,
              s_hold_key := HHT_KEY_NONE, s_press_log_pending := False,
              s_release_pending := False, s_release_log_immediate := False\<rparr>,
            [hht_keys_send_internal ty HHT_KEY_NONE]))"

definition hht_keys_poll :: "hht_type \<Rightarrow> hht_keys \<Rightarrow> hht_keys \<times> bytes list" where
  "hht_keys_poll ty s =
     (if s_release_pending s \<and> \<not> (s_hold_active s \<and> \<not> s_hold_long s \<and> 0 < s_hold_ticks s)
      then (s\<lparr>s_release_pending := False, s_hold_active := False, s_hold_long := False,
              s_hold_ticks := 0, s_hold_key := HHT_KEY_NONE, s_press_log_pending := False,
              s_release_log_immediate := False\<rparr>,
            [hht_keys_send_internal ty HHT_KEY_NONE])
      else if \<not> s_hold_active s then (s, [hht_keys_send_internal ty HHT_KEY_NONE])
      else let out = [hht_keys_send_internal ty (s_hold_key s)];
               s1 = s\<lparr>s_press_log_pending := False\<rparr>
           in if s_hold_long s1 then (s1, out)
              else let s2 = s1\<lparr>s_hold_ticks := s_hold_ticks s1 - 1\<rparr>
                   in (if s_hold_ticks s2 = 0
                       then s2\<lparr>s_hold_active := False, s_hold_key := HHT_KEY_NONE,
                               s_release_pending := True, s_release_log_immediate := False\<rparr>
                       else s2, out))"

definition hht_keys_send :: "u8 \<Rightarrow> hht_keys \<Rightarrow> hht_keys" where
  "hht_keys_send key s =
     (if key = HHT_KEY_NONE then s\<lparr>s_release_pending := True, s_release_log_immediate := True\<rparr>
      else s\<lparr>s_release_pending := False, s_release_log_immediate := False, s_hold_key := key,
             s_hold_ticks := HHT_KEY_SHORT_SEND_COUNT, s_hold_active := True, s_hold_long := False,
             s_press_log_pending := True\<rparr>)"

definition hht_keys_send_long :: "u8 \<Rightarrow> hht_keys \<Rightarrow> hht_keys" where
  "hht_keys_send_long key s =
     (if key = HHT_KEY_NONE then s
      else s\<lparr>s_hold_key := key, s_hold_ticks := 0, s_hold_active := True, s_hold_long := True,
             s_release_pending := False, s_release_log_immediate := False,
             s_press_log_pending := False\<rparr>)"

section \<open>The keys as a machine\<close>

datatype key_event = Key_Poll | Key_Send u8 | Key_Send_Long u8 | Key_Display_Change

fun keys_step :: "hht_type \<Rightarrow> hht_keys \<Rightarrow> key_event \<Rightarrow> hht_keys \<times> bytes list" where
  "keys_step ty s Key_Poll = hht_keys_poll ty s"
| "keys_step ty s (Key_Send k) = (hht_keys_send k s, [])"
| "keys_step ty s (Key_Send_Long k) = (hht_keys_send_long k s, [])"
| "keys_step ty s Key_Display_Change = hht_keys_cancel_short_on_display_change ty s"

fun_cases keys_stepE: "keys_step ty s e = r"

text \<open>
  What holds of the variables at all times: a short key being sent has one to four repeats left,
  a key that is not being sent is no key, and only a key being sent is long.
\<close>

definition keys_inv :: "hht_keys \<Rightarrow> bool" where
  "keys_inv s \<longleftrightarrow>
     (if s_hold_active s
      then s_hold_key s \<noteq> HHT_KEY_NONE \<and>
           (if s_hold_long s then s_hold_ticks s = 0
            else 1 \<le> s_hold_ticks s \<and> s_hold_ticks s \<le> HHT_KEY_SHORT_SEND_COUNT)
      else s_hold_key s = HHT_KEY_NONE \<and> s_hold_ticks s = 0 \<and> \<not> s_hold_long s)"

lemmas keys_defs = hht_keys_poll_def hht_keys_send_def hht_keys_send_long_def
  hht_keys_cancel_short_on_display_change_def Let_def HHT_KEY_SHORT_SEND_COUNT_def

lemma keys_step_inv: "keys_inv s \<Longrightarrow> keys_inv (fst (keys_step ty s e))"
  by (cases e) (auto simp: keys_inv_def keys_defs split: if_splits)

lemma keys_init_inv: "keys_inv hht_keys_init"
  by (simp add: keys_inv_def hht_keys_init_def)

interpretation keys: invariant_machine "keys_step ty" keys_inv for ty
  by unfold_locales (rule keys_step_inv)

text \<open>
  The phase of a machine: the key it repeats and how often it still will (\<open>None\<close>: until released),
  or no key. Events other than polls and releases start a new phase.
\<close>

definition short_phase :: "u8 \<Rightarrow> nat \<Rightarrow> hht_keys \<Rightarrow> bool" where
  "short_phase k n s \<longleftrightarrow>
     (if n = 0 then \<not> s_hold_active s
      else s_hold_active s \<and> \<not> s_hold_long s \<and> s_hold_key s = k \<and> s_hold_ticks s = n)"

lemma short_phase_poll:
  "short_phase k n s \<Longrightarrow>
     short_phase k (n - 1) (fst (hht_keys_poll ty s)) \<and>
     snd (hht_keys_poll ty s) = [hht_keys_send_internal ty (if n = 0 then HHT_KEY_NONE else k)]"
  by (auto simp: short_phase_def hht_keys_poll_def Let_def split: if_splits)

lemma short_phase_release:
  "short_phase k n s \<Longrightarrow> short_phase k n (hht_keys_send HHT_KEY_NONE s)"
  by (simp add: short_phase_def hht_keys_send_def)

definition polls :: "key_event list \<Rightarrow> nat" where
  "polls es = length (filter (\<lambda>e. e = Key_Poll) es)"

lemma short_phase_run:
  assumes "short_phase k n s" "set es \<subseteq> {Key_Poll, Key_Send HHT_KEY_NONE}"
  shows "snd (run_out (keys_step ty) s es) =
    map (hht_keys_send_internal ty) (replicate (min n (polls es)) k @ replicate (polls es - n) HHT_KEY_NONE)"
  using assms
proof (induction es arbitrary: s n)
  case Nil
  then show ?case by (simp add: polls_def)
next
  case (Cons e es)
  show ?case
  proof (cases "e = Key_Poll")
    case True
    have p: "short_phase k (n - 1) (fst (hht_keys_poll ty s))"
      "snd (hht_keys_poll ty s) = [hht_keys_send_internal ty (if n = 0 then HHT_KEY_NONE else k)]"
      using short_phase_poll [OF Cons.prems(1)] by auto
    have "polls (e # es) = Suc (polls es)" using True by (simp add: polls_def)
    then show ?thesis
      using Cons.IH [OF p(1)] Cons.prems(2) p(2) True
      by (cases n) (auto simp: Let_def case_prod_beta)
  next
    case False
    then have e: "e = Key_Send HHT_KEY_NONE" using Cons.prems(2) by auto
    have "polls (e # es) = polls es" using False by (simp add: polls_def)
    then show ?thesis
      using Cons.IH [OF short_phase_release [OF Cons.prems(1)]] Cons.prems(2) e
      by (auto simp: Let_def case_prod_beta)
  qed
qed

section \<open>Properties\<close>

text \<open>A display change ends a burst that is not over, with one release at once, and does nothing else.\<close>

lemma short_phase_display_change:
  "short_phase k n s \<Longrightarrow> short_phase k 0 (fst (hht_keys_cancel_short_on_display_change ty s)) \<and>
     snd (hht_keys_cancel_short_on_display_change ty s) =
       (if n = 0 then [] else [hht_keys_send_internal ty HHT_KEY_NONE])"
  by (auto simp: short_phase_def hht_keys_cancel_short_on_display_change_def)

lemma idle_phase_run:
  assumes "short_phase k 0 s" "set es \<subseteq> {Key_Poll, Key_Send HHT_KEY_NONE, Key_Display_Change}"
  shows "snd (run_out (keys_step ty) s es) = replicate (polls es) (hht_keys_send_internal ty HHT_KEY_NONE)"
  using assms
proof (induction es arbitrary: s)
  case Nil
  then show ?case by (simp add: polls_def)
next
  case (Cons e es)
  have "short_phase k 0 (fst (keys_step ty s e)) \<and> snd (keys_step ty s e) =
      (if e = Key_Poll then [hht_keys_send_internal ty HHT_KEY_NONE] else [])"
    using Cons.prems short_phase_poll [OF Cons.prems(1), of ty] short_phase_release [OF Cons.prems(1)]
      short_phase_display_change [OF Cons.prems(1), of ty] by auto
  then show ?case
    using Cons.IH Cons.prems(2) by (auto simp: Let_def case_prod_beta polls_def)
qed

text \<open>The outputs of \<open>n\<close> polls behind a key: the key up to four times, then the release code.\<close>

definition burst :: "hht_type \<Rightarrow> u8 \<Rightarrow> nat \<Rightarrow> bytes list" where
  "burst ty k n =
     replicate (min 4 n) (hht_keys_send_internal ty k) @ replicate (n - 4) (hht_keys_send_internal ty HHT_KEY_NONE)"

lemma short_phase_fst:
  assumes "short_phase k n s" "set es \<subseteq> {Key_Poll, Key_Send HHT_KEY_NONE}"
  shows "short_phase k (n - polls es) (fst (run_out (keys_step ty) s es))"
  using assms
proof (induction es arbitrary: s n)
  case Nil
  then show ?case by (simp add: polls_def)
next
  case (Cons e es)
  show ?case
  proof (cases "e = Key_Poll")
    case True
    then show ?thesis
      using Cons.IH [of "n - 1" "fst (hht_keys_poll ty s)"] short_phase_poll [OF Cons.prems(1), of ty] Cons.prems(2)
      by (simp add: Let_def case_prod_beta polls_def)
  next
    case False
    then show ?thesis
      using Cons.IH [OF short_phase_release [OF Cons.prems(1)]] Cons.prems(2)
      by (auto simp: Let_def case_prod_beta polls_def)
  qed
qed

lemma burst_run:
  assumes "k \<noteq> HHT_KEY_NONE" "set es \<subseteq> {Key_Poll, Key_Send HHT_KEY_NONE}"
  shows "snd (run_out (keys_step ty) s (Key_Send k # es)) = burst ty k (polls es)"
    and "short_phase k (4 - polls es) (fst (run_out (keys_step ty) s (Key_Send k # es)))"
proof -
  have "short_phase k 4 (hht_keys_send k s)"
    using assms(1) by (simp add: short_phase_def hht_keys_send_def HHT_KEY_SHORT_SEND_COUNT_def)
  from short_phase_run [OF this assms(2)] short_phase_fst [OF this assms(2)]
  show "snd (run_out (keys_step ty) s (Key_Send k # es)) = burst ty k (polls es)"
    "short_phase k (4 - polls es) (fst (run_out (keys_step ty) s (Key_Send k # es)))"
    by (simp_all add: Let_def case_prod_beta burst_def)
qed

text \<open>C11: A short key is sent four times unless something ends it. Whatever state the key machine is
  in, after \<open>hht_keys_send\<close> with a key the polls send that key on the first four of them and the
  release code on later ones, no matter when, or how often, the app's own release arrives. Two
  events end this earlier: a display change (which sends the release code at once if polls of the
  four are left, and nothing otherwise; from then on only the release code is sent), and another
  key (whose own four sends begin with the next poll).\<close>

theorem short_key_four_times:
  assumes "k \<noteq> HHT_KEY_NONE" "set es \<subseteq> {Key_Poll, Key_Send HHT_KEY_NONE}"
    and "set fs \<subseteq> {Key_Poll, Key_Send HHT_KEY_NONE, Key_Display_Change}"
    and "k' \<noteq> HHT_KEY_NONE" "set gs \<subseteq> {Key_Poll, Key_Send HHT_KEY_NONE}"
  shows "snd (run_out (keys_step ty) s (Key_Send k # es)) = burst ty k (polls es) \<and>
    snd (run_out (keys_step ty) s (Key_Send k # es @ Key_Display_Change # fs)) =
      burst ty k (polls es) @ (if polls es < 4 then [hht_keys_send_internal ty HHT_KEY_NONE] else []) @
      replicate (polls fs) (hht_keys_send_internal ty HHT_KEY_NONE) \<and>
    snd (run_out (keys_step ty) s (Key_Send k # es @ Key_Send k' # gs)) =
      burst ty k (polls es) @ burst ty k' (polls gs)"
proof -
  let ?s1 = "fst (run_out (keys_step ty) s (Key_Send k # es))"
  have 1: "snd (run_out (keys_step ty) s (Key_Send k # es)) = burst ty k (polls es)"
    "short_phase k (4 - polls es) ?s1"
    using burst_run [OF assms(1,2)] by simp_all
  have split: "snd (run_out (keys_step ty) s (Key_Send k # es @ hs)) =
      burst ty k (polls es) @ snd (run_out (keys_step ty) ?s1 hs)" for hs
    using run_out_append [of "keys_step ty" s "Key_Send k # es" hs] 1(1)
    by (simp add: case_prod_beta Let_def)
  have "snd (run_out (keys_step ty) ?s1 (Key_Display_Change # fs)) =
      (if polls es < 4 then [hht_keys_send_internal ty HHT_KEY_NONE] else []) @
      replicate (polls fs) (hht_keys_send_internal ty HHT_KEY_NONE)"
    using short_phase_display_change [OF 1(2), of ty] idle_phase_run [OF _ assms(3)]
    by (auto simp: Let_def case_prod_beta)
  then show ?thesis
    using 1(1) split burst_run(1) [OF assms(4,5)] by metis
qed

lemma short_key_four_times_witness:
  "snd (run_out (keys_step HHT_TYPE_WB100) hht_keys_init
     (Key_Send 2 # [Key_Poll, Key_Send HHT_KEY_NONE, Key_Poll] @ Key_Display_Change # [Key_Poll])) =
   [[2], [2], [0], [0]]"
proof -
  have p: "polls [Key_Poll, Key_Send HHT_KEY_NONE, Key_Poll] = 2" "polls [Key_Poll] = 1"
    by (simp_all add: polls_def)
  have k: "(2 :: u8) \<noteq> HHT_KEY_NONE" by (simp add: HHT_KEY_NONE_def)
  from short_key_four_times [OF k, of "[Key_Poll, Key_Send HHT_KEY_NONE, Key_Poll]" "[Key_Poll]" 2 "[]"
      HHT_TYPE_WB100 hht_keys_init] k
  show ?thesis unfolding p by (simp add: burst_def hht_keys_send_internal_def HHT_KEY_NONE_def numeral_eq_Suc)
qed

definition long_phase :: "u8 \<Rightarrow> hht_keys \<Rightarrow> bool" where
  "long_phase k s \<longleftrightarrow> s_hold_active s \<and> s_hold_long s \<and> s_hold_key s = k \<and> \<not> s_release_pending s"

lemma long_phase_run:
  assumes "long_phase k s" "set es \<subseteq> {Key_Poll, Key_Display_Change}"
  shows "long_phase k (fst (run_out (keys_step ty) s es)) \<and>
    snd (run_out (keys_step ty) s es) = replicate (polls es) (hht_keys_send_internal ty k)"
  using assms
proof (induction es arbitrary: s)
  case Nil
  then show ?case by (simp add: polls_def)
next
  case (Cons e es)
  have e: "long_phase k (fst (keys_step ty s e))"
    "snd (keys_step ty s e) = (if e = Key_Poll then [hht_keys_send_internal ty k] else [])"
    using Cons.prems by (auto simp: long_phase_def keys_defs)
  then show ?case
    using Cons.IH [OF e(1)] Cons.prems(2)
    by (auto simp: Let_def case_prod_beta polls_def)
qed

text \<open>C12: A long key is held until it is released. After \<open>hht_keys_send_long\<close> every poll sends the key,
  display changes notwithstanding, and from the first poll after the release on only the release
  code is sent.\<close>

theorem long_key_until_release:
  assumes "k \<noteq> HHT_KEY_NONE" "set es \<subseteq> {Key_Poll, Key_Display_Change}"
    and "set fs \<subseteq> {Key_Poll, Key_Send HHT_KEY_NONE}"
  shows "snd (run_out (keys_step ty) s
      (Key_Send_Long k # es @ Key_Send HHT_KEY_NONE # Key_Poll # fs)) =
    replicate (polls es) (hht_keys_send_internal ty k) @
    replicate (Suc (polls fs)) (hht_keys_send_internal ty HHT_KEY_NONE)"
proof -
  define s1 where "s1 = hht_keys_send_long k s"
  define s2 where "s2 = fst (run_out (keys_step ty) s1 es)"
  have "long_phase k s1" using assms(1) by (simp add: s1_def long_phase_def hht_keys_send_long_def)
  then have 2: "long_phase k s2" "snd (run_out (keys_step ty) s1 es) = replicate (polls es) (hht_keys_send_internal ty k)"
    using long_phase_run [OF _ assms(2)] by (auto simp: s2_def)
  define s3 where "s3 = fst (hht_keys_poll ty (hht_keys_send HHT_KEY_NONE s2))"
  have 3: "short_phase k 0 s3"
    "snd (hht_keys_poll ty (hht_keys_send HHT_KEY_NONE s2)) = [hht_keys_send_internal ty HHT_KEY_NONE]"
    using 2(1) by (auto simp: s3_def short_phase_def long_phase_def hht_keys_send_def hht_keys_poll_def)
  have "snd (run_out (keys_step ty) s3 fs) =
      replicate (polls fs) (hht_keys_send_internal ty HHT_KEY_NONE)"
    using short_phase_run [OF 3(1) assms(3)] by simp
  then show ?thesis
    using 2(2) 3(2) by (simp add: run_out_append Let_def case_prod_beta s1_def [symmetric] s2_def [symmetric]
        s3_def [symmetric])
qed

lemma long_key_until_release_witness:
  "snd (run_out (keys_step HHT_TYPE_3000) hht_keys_init
     (Key_Send_Long 4 # [Key_Poll, Key_Display_Change, Key_Poll] @ Key_Send HHT_KEY_NONE # Key_Poll # [Key_Poll])) =
   [[2, 4], [2, 4], [2, 0], [2, 0]]"
proof -
  have "(4 :: u8) \<noteq> HHT_KEY_NONE" by (simp add: HHT_KEY_NONE_def)
  from long_key_until_release [OF this, of "[Key_Poll, Key_Display_Change, Key_Poll]" "[Key_Poll]" HHT_TYPE_3000]
  show ?thesis
    by (simp add: hht_keys_send_internal_def HHT_KEY_NONE_def HHT3K_CMD_BTN_def polls_def numeral_2_eq_2)
qed

text \<open>C13: The key variables stay consistent. In every run from \<open>hht_keys_init\<close>, a key being sent is a real
  key with one to four short repeats left (none if it is a long key), and while no key is being
  sent there is none remembered.\<close>

theorem keys_invariant: "keys_inv (fst (run_out (keys_step ty) hht_keys_init es))"
  by (rule keys.run_inv [OF keys_init_inv])

end
