(* ===== verification/Hht_Display.thy ===== *)
theory Hht_Display
  imports Hht_Keys
begin

text \<open>
  The terminal display (\<open>hht_display.c\<close>): two arrays of four rows of 21 bytes (the current
  contents, and what was last sent), a cursor and one dirty flag for each row. The terminal's byte
  stream is decoded into the rows, and every row that changed is sent to the app as 20 characters.
  A call returns the rows it sends. The abstract display at the end is a row of cells with one position.
\<close>

definition HHT_ROWS_MAX :: nat where [model_simps]: "HHT_ROWS_MAX = 4"
definition HHT_COLS_MAX :: nat where [model_simps]: "HHT_COLS_MAX = 20"

record hht_display =
  s_lines :: "bytes list"
  s_last_lines :: "bytes list"
  d_row :: nat
  d_col :: nat
  row_dirty :: "bool list"

type_synonym row_out = "nat \<times> bytes"

definition hht_display_get_rows :: "hht_type \<Rightarrow> nat" where
  "hht_display_get_rows ty = (if ty = HHT_TYPE_3000 then 2 else 4)"

definition hht_display_get_cols :: "hht_type \<Rightarrow> nat" where
  "hht_display_get_cols ty = (if ty = HHT_TYPE_3000 then 16 else 20)"

text \<open>The statics at power up; \<open>hht_display_init\<close> resets the rows but not the cursor.\<close>

definition display_statics :: hht_display where
  "display_statics = \<lparr>s_lines = replicate HHT_ROWS_MAX (replicate (HHT_COLS_MAX + 1) 0),
     s_last_lines = replicate HHT_ROWS_MAX (replicate (HHT_COLS_MAX + 1) 0),
     d_row = 0, d_col = 0, row_dirty = replicate HHT_ROWS_MAX False\<rparr>"

definition hht_display_init :: "hht_display \<Rightarrow> hht_display" where
  "hht_display_init d = d\<lparr>
     s_lines := replicate HHT_ROWS_MAX (replicate HHT_COLS_MAX 32 @ [0]),
     s_last_lines := replicate HHT_ROWS_MAX (replicate (HHT_COLS_MAX + 1) 0)\<rparr>"

definition send_row_to_ble_and_cli :: "nat \<Rightarrow> nat \<Rightarrow> hht_display \<Rightarrow> row_out" where
  "send_row_to_ble_and_cli r cols d = (r, take cols (s_lines d ! r) @ replicate (20 - cols) 32)"

definition decode_cursor_2x16 :: "nat \<Rightarrow> nat \<times> nat" where
  "decode_cursor_2x16 offset =
     (if offset \<le> 0x0F then (0, offset)
      else if 0x40 \<le> offset \<and> offset \<le> 0x4F then (1, offset - 0x40)
      else (0, 0))"

definition decode_cursor_4x20 :: "nat \<Rightarrow> nat \<times> nat" where
  "decode_cursor_4x20 offset =
     (if offset \<le> 0x13 then (0, offset)
      else if 0x40 \<le> offset \<and> offset \<le> 0x53 then (1, offset - 0x40)
      else if 0x14 \<le> offset \<and> offset \<le> 0x27 then (2, offset - 0x14)
      else if 0x54 \<le> offset \<and> offset \<le> 0x67 then (3, offset - 0x54)
      else (0, 0))"

text \<open>One byte of the loop of \<open>hht_display_poll\<close>.\<close>

definition display_byte :: "hht_type \<Rightarrow> u8 \<Rightarrow> hht_display \<Rightarrow> hht_display" where
  "display_byte ty ch d =
     (let rows = hht_display_get_rows ty; cols = hht_display_get_cols ty in
      if ch AND 0x80 \<noteq> 0 then
        let offset = unat (ch AND 0x7F);
            (r, c) = (if rows = 2 \<and> cols = 16 then decode_cursor_2x16 offset
                      else decode_cursor_4x20 offset)
        in d\<lparr>d_row := r, d_col := c\<rparr>
      else if rows \<le> d_row d \<or> cols \<le> d_col d then d
      else let d1 = d\<lparr>s_lines := (s_lines d)[d_row d := (s_lines d ! d_row d)[d_col d := ch]],
                      row_dirty := (row_dirty d)[d_row d := True]\<rparr>
           in (if cols \<le> d_col d + 1 then d1\<lparr>d_col := 0, d_row := (d_row d + 1) mod rows\<rparr>
               else d1\<lparr>d_col := d_col d + 1\<rparr>))"

text \<open>\<open>strcpy\<close> into an array: the characters and their terminator, the rest stays.\<close>

definition c_strcpy :: "bytes \<Rightarrow> bytes \<Rightarrow> bytes" where
  "c_strcpy dst src = cstr src @ [0] @ drop (length (cstr src) + 1) dst"

text \<open>One row of the second loop: a dirty row is terminated, and sent if it is not what was sent last.\<close>

definition display_row :: "hht_type \<Rightarrow> nat \<Rightarrow> hht_display \<times> row_out list \<Rightarrow> hht_display \<times> row_out list" where
  "display_row ty r = (\<lambda>(d, outs).
     let cols = hht_display_get_cols ty in
     if \<not> row_dirty d ! r then (d, outs)
     else let d1 = d\<lparr>row_dirty := (row_dirty d)[r := False],
                     s_lines := (s_lines d)[r := (s_lines d ! r)[cols := 0]]\<rparr>
          in (if cstr (s_lines d1 ! r) \<noteq> cstr (s_last_lines d1 ! r)
              then (d1\<lparr>s_last_lines := (s_last_lines d1)[r := c_strcpy (s_last_lines d1 ! r) (s_lines d1 ! r)]\<rparr>,
                    outs @ [send_row_to_ble_and_cli r cols d1])
              else (d1, outs)))"

text \<open>
  \<open>rd\<close> is what the UART read returned (\<open>None\<close> for an error). The caller cancels a short key when a
  row was pushed.
\<close>

definition hht_display_poll :: "hht_type \<Rightarrow> bytes option \<Rightarrow> hht_display \<Rightarrow> hht_display \<times> row_out list" where
  "hht_display_poll ty rd d =
     (case rd of None \<Rightarrow> (d, [])
      | Some bs \<Rightarrow>
          if bs = [] then (d, [])
          else fold (display_row ty) [0..<hht_display_get_rows ty] (fold (display_byte ty) bs d, []))"

definition hht_display_push_row_ascii ::
    "hht_type \<Rightarrow> nat \<Rightarrow> bytes \<Rightarrow> bool \<Rightarrow> hht_display \<Rightarrow> hht_display \<times> row_out list" where
  "hht_display_push_row_ascii ty row src force d =
     (let rows = hht_display_get_rows ty; cols = hht_display_get_cols ty in
      if rows \<le> row then (d, [])
      else let chars = map (\<lambda>c. if c \<noteq> 0 \<and> isprint_byte c then c else 32) (take cols src);
               line = chars @ replicate (cols - length chars) 32 @ [0] @ drop (cols + 1) (s_lines d ! row);
               d1 = d\<lparr>s_lines := (s_lines d)[row := line]\<rparr>
           in (if \<not> force \<and> cstr line = cstr (s_last_lines d ! row) then (d1, [])
               else let d2 = d1\<lparr>s_last_lines := (s_last_lines d)[row :=
                       take (cols + 1) line @ drop (cols + 1) (s_last_lines d ! row)]\<rparr>
                    in (d2, [send_row_to_ble_and_cli row cols d2])))"

lemmas dims = hht_display_get_rows_def hht_display_get_cols_def

section \<open>Array shapes and cursor\<close>

definition display_inv :: "hht_type \<Rightarrow> hht_display \<Rightarrow> bool" where
  "display_inv ty d \<longleftrightarrow>
     length (s_lines d) = 4 \<and> (\<forall>l \<in> set (s_lines d). length l = 21) \<and>
     length (s_last_lines d) = 4 \<and> (\<forall>l \<in> set (s_last_lines d). length l = 21) \<and>
     length (row_dirty d) = 4 \<and>
     d_row d < hht_display_get_rows ty \<and> d_col d < hht_display_get_cols ty"

lemma cursor_in_range:
  "(r, c) = decode_cursor_2x16 a \<Longrightarrow> r < 2 \<and> c < 16"
  "(r, c) = decode_cursor_4x20 a \<Longrightarrow> r < 4 \<and> c < 20"
  by (auto simp: decode_cursor_2x16_def decode_cursor_4x20_def split: if_splits)

lemma display_byte_inv:
  assumes "display_inv ty d"
  shows "display_inv ty (display_byte ty ch d)"
proof -
  have m: "\<And>l. l \<in> set ((s_lines d)[d_row d := (s_lines d ! d_row d)[d_col d := ch]]) \<Longrightarrow> length l = 21"
    using assms set_update_subset_insert [of "s_lines d" "d_row d" "(s_lines d ! d_row d)[d_col d := ch]"]
    by (auto simp: display_inv_def dims split: if_splits)
  obtain r c where rc: "(r, c) = (if hht_display_get_rows ty = 2 \<and> hht_display_get_cols ty = 16
      then decode_cursor_2x16 (unat (ch AND 0x7F)) else decode_cursor_4x20 (unat (ch AND 0x7F)))"
    by (metis surj_pair)
  then have "r < hht_display_get_rows ty \<and> c < hht_display_get_cols ty"
    using cursor_in_range [of r c "unat (ch AND 0x7F)"] by (auto simp: dims split: if_splits)
  then show ?thesis
    using assms m by (auto simp: display_byte_def display_inv_def Let_def rc [symmetric])
qed

lemma display_bytes_inv: "display_inv ty d \<Longrightarrow> display_inv ty (fold (display_byte ty) bs d)"
  by (induction bs arbitrary: d) (auto intro: display_byte_inv)

lemma cstr_cut: "i < length l \<Longrightarrow> l ! i = 0 \<Longrightarrow> cstr l = cstr (take i l)"
proof -
  assume i: "i < length l" "l ! i = 0"
  have "l = take i l @ 0 # drop (Suc i) l" using id_take_nth_drop [OF i(1)] i(2) by simp
  then show "cstr l = cstr (take i l)"
    unfolding cstr_def using takeWhile_tail [of "\<lambda>b. b \<noteq> 0" 0 "take i l" "drop (Suc i) l"] by simp
qed

lemma length_cstr: "length (cstr l) \<le> length l"
  by (simp add: cstr_def length_takeWhile_le)

lemma cstr_all [simp]: "0 \<notin> set l \<Longrightarrow> cstr l = l"
  by (auto simp: cstr_def takeWhile_eq_all_conv)

lemma cstr_c_strcpy [simp]: "cstr (c_strcpy dst src) = cstr src"
proof -
  have "\<forall>b \<in> set (cstr src). b \<noteq> 0" unfolding cstr_def by (auto dest: set_takeWhileD)
  then show ?thesis by (simp add: c_strcpy_def cstr_def takeWhile_append)
qed

lemma length_c_strcpy: "length (cstr src) < length dst \<Longrightarrow> length (c_strcpy dst src) = length dst"
  by (simp add: c_strcpy_def)

section \<open>What the app sees\<close>

text \<open>The app keeps the last characters sent for each row; before the first, the row is blank.\<close>

definition view_init :: "bytes list" where
  "view_init = replicate HHT_ROWS_MAX (replicate HHT_COLS_MAX 32)"

definition view_update :: "row_out \<Rightarrow> bytes list \<Rightarrow> bytes list" where
  "view_update ro v = v[fst ro := snd ro]"

definition pad20 :: "bytes \<Rightarrow> bytes" where
  "pad20 l = l @ replicate (20 - length l) 32"

definition row_of :: "hht_type \<Rightarrow> hht_display \<Rightarrow> nat \<Rightarrow> bytes" where
  "row_of ty d r = take (hht_display_get_cols ty) (s_lines d ! r)"

text \<open>
  The relation of the display and the app's view: the view of a row is what was sent last, a row
  that is not dirty is in the view, and the rows hold no NUL character, which would end the
  comparison of the row with what was sent.
\<close>

definition view_inv :: "hht_type \<Rightarrow> hht_display \<Rightarrow> bytes list \<Rightarrow> bool" where
  "view_inv ty d v \<longleftrightarrow> length v = 4 \<and>
     (\<forall>r < hht_display_get_rows ty. v ! r = pad20 (cstr (s_last_lines d ! r)) \<and>
        0 \<notin> set (row_of ty d r) \<and>
        (\<not> row_dirty d ! r \<longrightarrow> pad20 (row_of ty d r) = v ! r))"

lemma display_byte_last [frame_rules]: "s_last_lines (display_byte ty ch d) = s_last_lines d"
  by (simp add: display_byte_def Let_def case_prod_beta)

lemma display_byte_view:
  assumes "display_inv ty d" "view_inv ty d v" "ch \<noteq> 0"
  shows "view_inv ty (display_byte ty ch d) v"
proof -
  have rows: "hht_display_get_rows ty \<le> 4" by (simp add: dims)
  have "0 \<notin> set (row_of ty (display_byte ty ch d) r) \<and>
      (\<not> row_dirty (display_byte ty ch d) ! r \<longrightarrow> pad20 (row_of ty (display_byte ty ch d) r) = v ! r)"
    if r: "r < hht_display_get_rows ty" for r
  proof (cases "ch AND 0x80 = 0 \<and> r = d_row d \<and> d_col d < hht_display_get_cols ty")
    case True
    have "set (take c ((s_lines d ! r)[d_col d := ch])) \<subseteq> insert ch (set (take c (s_lines d ! r)))" for c
      by (cases "d_col d < c") (auto simp: take_update_swap dest!: subsetD [OF set_update_subset_insert])
    then show ?thesis
      using True assms r rows
      by (auto simp: row_of_def display_byte_def display_inv_def view_inv_def Let_def)
  next
    case False
    then have "row_of ty (display_byte ty ch d) r = row_of ty d r"
      "row_dirty (display_byte ty ch d) ! r = row_dirty d ! r"
      using assms(1) by (auto simp: row_of_def display_byte_def display_inv_def Let_def case_prod_beta nth_list_update)
    then show ?thesis using assms(2) r by (simp add: view_inv_def)
  qed
  then show ?thesis using assms(2) by (simp add: view_inv_def frame_rules)
qed

lemma display_bytes_view:
  "display_inv ty d \<Longrightarrow> view_inv ty d v \<Longrightarrow> 0 \<notin> set bs \<Longrightarrow>
     view_inv ty (fold (display_byte ty) bs d) v"
  by (induction bs arbitrary: d) (auto intro: display_byte_inv display_byte_view)

lemma display_row_inv:
  assumes "display_inv ty d" "r < hht_display_get_rows ty"
  shows "display_inv ty (fst (display_row ty r (d, outs)))"
proof -
  let ?cols = "hht_display_get_cols ty"
  have r: "r < 4" "?cols < 21" using assms(2) by (auto simp: dims split: if_splits)
  let ?l = "(s_lines d ! r)[?cols := 0]"
  have l: "length (s_lines d ! r) = 21" "length (s_last_lines d ! r) = 21"
    using assms(1) r by (auto simp: display_inv_def)
  have "length (cstr ?l) < 21"
    using cstr_cut [of ?cols ?l] length_cstr [of "take ?cols ?l"] l r by simp
  then have "length (c_strcpy (s_last_lines d ! r) ?l) = 21" using l by (simp add: length_c_strcpy)
  then show ?thesis
    using assms r l
    by (auto simp: display_inv_def display_row_def Let_def dest!: subsetD [OF set_update_subset_insert])
qed

lemma display_row_view:
  assumes "display_inv ty d" "r < hht_display_get_rows ty" "view_inv ty d (fold view_update outs v)"
    and res: "display_row ty r (d, outs) = (d', outs')"
  shows "view_inv ty d' (fold view_update outs' v) \<and> \<not> row_dirty d' ! r \<and>
    (\<forall>q. row_of ty d' q = row_of ty d q) \<and> (\<forall>q. \<not> row_dirty d ! q \<longrightarrow> \<not> row_dirty d' ! q) \<and>
    d_row d' = d_row d \<and> d_col d' = d_col d"
proof (cases "row_dirty d ! r")
  case False
  with assms show ?thesis by (auto simp: display_row_def Let_def)
next
  case True
  let ?cols = "hht_display_get_cols ty" and ?v = "fold view_update outs v"
  let ?l = "(s_lines d ! r)[?cols := 0]"
  let ?d1 = "d\<lparr>row_dirty := (row_dirty d)[r := False], s_lines := (s_lines d)[r := ?l]\<rparr>"
  have r: "r < 4" "?cols < 21" using assms(2) by (auto simp: dims split: if_splits)
  have len: "length (s_lines d ! r) = 21" "length (s_lines d) = 4" "length (row_dirty d) = 4"
    "length (s_last_lines d) = 4" "length ?v = 4"
    using assms(1,3) r by (auto simp: display_inv_def view_inv_def)
  have nz: "0 \<notin> set (row_of ty d r)" using assms(2,3) by (simp add: view_inv_def)
  have cl: "cstr ?l = row_of ty d r"
    using cstr_cut [of ?cols ?l] len r nz by (simp add: row_of_def)
  have row1: "row_of ty ?d1 q = row_of ty d q" for q
    using len r by (cases "q = r") (auto simp: row_of_def)
  have dirty1: "row_dirty ?d1 ! q = (q \<noteq> r \<and> row_dirty d ! q)" for q
    using len r by (cases "q = r") auto
  show ?thesis
  proof (cases "cstr ?l = cstr (s_last_lines d ! r)")
    case eq: True
    then have "d' = ?d1" "outs' = outs" using res True len r by (auto simp: display_row_def Let_def)
    then show ?thesis
      using assms(3) row1 dirty1 eq cl by (auto simp: view_inv_def)
  next
    case ne: False
    let ?d2 = "?d1\<lparr>s_last_lines := (s_last_lines d)[r := c_strcpy (s_last_lines d ! r) ?l]\<rparr>"
    have d': "d' = ?d2" and o': "outs' = outs @ [send_row_to_ble_and_cli r ?cols ?d1]"
      using res True ne len r by (auto simp: display_row_def Let_def)
    have row2: "row_of ty ?d2 q = row_of ty d q" for q
      using row1 [of q] by (simp add: row_of_def)
    have lr: "length (row_of ty d r) = ?cols" using len r by (simp add: row_of_def)
    have v': "fold view_update outs' v = ?v[r := pad20 (row_of ty d r)]"
      using row1 [of r] lr by (simp add: o' view_update_def send_row_to_ble_and_cli_def row_of_def pad20_def)
    have "view_inv ty ?d2 (?v[r := pad20 (row_of ty d r)])"
      unfolding view_inv_def row2 using assms(3) len r dirty1 cl
      by (auto simp: view_inv_def nth_list_update)
    then show ?thesis using row2 dirty1 by (simp add: d' v')
  qed
qed

lemma display_rows_view:
  assumes "display_inv ty d" "view_inv ty d v" "n \<le> hht_display_get_rows ty"
    and "fold (display_row ty) [0..<n] (d, []) = (d', outs)"
  shows "display_inv ty d' \<and> view_inv ty d' (fold view_update outs v) \<and>
    (\<forall>q < n. \<not> row_dirty d' ! q) \<and> (\<forall>q. row_of ty d' q = row_of ty d q) \<and>
    d_row d' = d_row d \<and> d_col d' = d_col d"
  using assms(3,4)
proof (induction n arbitrary: d' outs)
  case 0
  then show ?case using assms(1,2) by simp
next
  case (Suc n)
  obtain d1 outs1 where 1: "fold (display_row ty) [0..<n] (d, []) = (d1, outs1)" by fastforce
  have ih: "display_inv ty d1" "view_inv ty d1 (fold view_update outs1 v)" "\<forall>q < n. \<not> row_dirty d1 ! q"
    "\<forall>q. row_of ty d1 q = row_of ty d q" "d_row d1 = d_row d" "d_col d1 = d_col d"
    using Suc.IH [OF _ 1] Suc.prems(1) by auto
  have 2: "display_row ty n (d1, outs1) = (d', outs)" using Suc.prems(2) 1 by simp
  have n: "n < hht_display_get_rows ty" using Suc.prems(1) by simp
  have "display_inv ty d'" using display_row_inv [OF ih(1) n, of outs1] 2 by simp
  with display_row_view [OF ih(1) n ih(2) 2] ih(3-6) show ?case by (auto simp: less_Suc_eq)
qed

section \<open>The abstract display\<close>

text \<open>
  The display as the terminal means it: \<open>rows * cols\<close> cells and a position, which a character
  fills and advances, wrapping at the end, and which a cursor command sets.
\<close>

definition cell_address :: "hht_type \<Rightarrow> nat \<Rightarrow> nat" where
  "cell_address ty a =
     (if ty = HHT_TYPE_3000
      then (if a < 16 then a else if 0x40 \<le> a \<and> a < 0x50 then a - 0x40 + 16 else 0)
      else (if a < 40 then (if a < 20 then a else a + 20)
            else if 0x40 \<le> a \<and> a < 0x68 then (if a < 0x54 then a - 0x40 + 20 else a - 0x54 + 60)
            else 0))"

type_synonym cells = "nat \<times> bytes"

definition cells_init :: "hht_type \<Rightarrow> cells" where
  "cells_init ty = (0, replicate (hht_display_get_rows ty * hht_display_get_cols ty) 32)"

definition cells_byte :: "hht_type \<Rightarrow> u8 \<Rightarrow> cells \<Rightarrow> cells" where
  "cells_byte ty ch pc =
     (if 128 \<le> ch then (cell_address ty (unat ch - 128), snd pc)
      else (Suc (fst pc) mod length (snd pc), (snd pc)[fst pc := ch]))"

definition cells_row :: "hht_type \<Rightarrow> cells \<Rightarrow> nat \<Rightarrow> bytes" where
  "cells_row ty pc r = take (hht_display_get_cols ty) (drop (r * hht_display_get_cols ty) (snd pc))"

definition cells_rel :: "hht_type \<Rightarrow> hht_display \<Rightarrow> cells \<Rightarrow> bool" where
  "cells_rel ty d pc \<longleftrightarrow>
     fst pc = d_row d * hht_display_get_cols ty + d_col d \<and>
     length (snd pc) = hht_display_get_rows ty * hht_display_get_cols ty \<and>
     (\<forall>r < hht_display_get_rows ty. row_of ty d r = cells_row ty pc r)"

lemma high_bit: "(ch :: u8) AND 0x80 \<noteq> 0 \<longleftrightarrow> 128 \<le> ch"
  and low_bits: "128 \<le> (ch :: u8) \<Longrightarrow> unat (ch AND 0x7F) = unat ch - 128"
proof -
  have "ch = of_nat (unat ch)" by simp
  moreover have "\<forall>n < 256. ((of_nat n :: u8) AND 0x80 \<noteq> 0 \<longleftrightarrow> 128 \<le> (of_nat n :: u8)) \<and>
      (128 \<le> (of_nat n :: u8) \<longrightarrow> unat ((of_nat n :: u8) AND 0x7F) = n - 128)"
    by code_simp
  ultimately show "ch AND 0x80 \<noteq> 0 \<longleftrightarrow> 128 \<le> ch" "128 \<le> ch \<Longrightarrow> unat (ch AND 0x7F) = unat ch - 128"
    using unat_u8_lt [of ch] by metis+
qed

lemma take_drop_update:
  assumes "c < n" "k = q * n + c" "k < length xs"
  shows "take n (drop (r * n) (xs[k := x])) =
    (if r = q then (take n (drop (r * n) xs))[c := x] else take n (drop (r * n) xs))"
proof (cases "r = q")
  case True
  then show ?thesis using assms by (auto simp: drop_update_swap take_update_swap)
next
  case False
  then consider "r < q" | "q < r" by linarith
  then show ?thesis
  proof cases
    case 1
    then have "Suc r * n \<le> q * n" by (intro mult_le_mono1) simp
    then have "n \<le> k - r * n" "r * n \<le> k" using assms(2) by simp_all
    then show ?thesis using False by (simp add: drop_update_swap take_update_swap list_update_beyond)
  next
    case 2
    then have "Suc q * n \<le> r * n" by (intro mult_le_mono1) simp
    then show ?thesis using False assms by auto
  qed
qed

lemma cell_address_cursor:
  "cell_address HHT_TYPE_3000 a = fst (decode_cursor_2x16 a) * 16 + snd (decode_cursor_2x16 a)"
  "ty \<noteq> HHT_TYPE_3000 \<Longrightarrow>
     cell_address ty a = fst (decode_cursor_4x20 a) * 20 + snd (decode_cursor_4x20 a)"
  by (auto simp: cell_address_def decode_cursor_2x16_def decode_cursor_4x20_def)

lemma display_byte_cells:
  assumes "display_inv ty d" "cells_rel ty d pc"
  shows "cells_rel ty (display_byte ty ch d) (cells_byte ty ch pc)"
proof (cases "128 \<le> ch")
  case True
  obtain r c where rc: "(if hht_display_get_rows ty = 2 \<and> hht_display_get_cols ty = 16
      then decode_cursor_2x16 (unat ch - 128) else decode_cursor_4x20 (unat ch - 128)) = (r, c)"
    by fastforce
  have d': "display_byte ty ch d = d\<lparr>d_row := r, d_col := c\<rparr>"
    using True rc by (simp add: display_byte_def high_bit low_bits Let_def)
  have "cell_address ty (unat ch - 128) = r * hht_display_get_cols ty + c"
    using cell_address_cursor(1) [of "unat ch - 128"] cell_address_cursor(2) [of ty "unat ch - 128"] rc
    by (cases "ty = HHT_TYPE_3000") (simp_all add: dims)
  then show ?thesis
    using assms(2) True by (simp add: d' cells_rel_def cells_byte_def cells_row_def row_of_def)
next
  case False
  let ?cols = "hht_display_get_cols ty" and ?rows = "hht_display_get_rows ty"
  have in_r: "d_row d < ?rows" "d_col d < ?cols" "?rows \<le> 4"
    using assms(1) by (auto simp: display_inv_def dims)
  have len: "length (s_lines d) = 4" "length (snd pc) = ?rows * ?cols"
    using assms by (auto simp: display_inv_def cells_rel_def)
  have pos: "fst pc = d_row d * ?cols + d_col d" using assms(2) by (simp add: cells_rel_def)
  have "Suc (d_row d) * ?cols \<le> ?rows * ?cols" using in_r by (intro mult_le_mono1) simp
  then have k: "fst pc < length (snd pc)" using len pos in_r by simp
  have row: "row_of ty (display_byte ty ch d) r = cells_row ty (cells_byte ty ch pc) r"
    if r: "r < ?rows" for r
  proof -
    have "row_of ty (display_byte ty ch d) r =
        (if r = d_row d then (row_of ty d r)[d_col d := ch] else row_of ty d r)"
      using False in_r len by (auto simp: display_byte_def high_bit Let_def row_of_def take_update_swap)
    also have "\<dots> = cells_row ty (cells_byte ty ch pc) r"
      using False r assms(2) take_drop_update [OF in_r(2) pos k, of r ch]
      by (simp add: cells_row_def cells_byte_def cells_rel_def)
    finally show ?thesis .
  qed
  have step: "Suc (d_row d * ?cols + d_col d) mod (?rows * ?cols) =
      (if ?cols \<le> d_col d + 1 then (d_row d + 1) mod ?rows * ?cols else d_row d * ?cols + (d_col d + 1))"
  proof (cases "?cols \<le> d_col d + 1")
    case True
    then have c: "Suc (d_row d * ?cols + d_col d) = (d_row d + 1) * ?cols" using in_r(2) by simp
    show ?thesis unfolding c using True by (simp add: mult_mod_left)
  next
    case False
    then have "Suc (d_row d * ?cols + d_col d) < Suc (d_row d) * ?cols" by simp
    also have "\<dots> \<le> ?rows * ?cols" using in_r(1) by (intro mult_le_mono1) simp
    finally show ?thesis using False by simp
  qed
  have "fst (cells_byte ty ch pc) =
      d_row (display_byte ty ch d) * ?cols + d_col (display_byte ty ch d)"
    using False in_r len(2) pos step
    by (auto simp: cells_byte_def display_byte_def high_bit Let_def)
  then show ?thesis
    using row len(2) False by (simp add: cells_rel_def cells_byte_def)
qed

lemma display_bytes_cells:
  "display_inv ty d \<Longrightarrow> cells_rel ty d pc \<Longrightarrow>
     cells_rel ty (fold (display_byte ty) bs d) (fold (cells_byte ty) bs pc)"
proof (induction bs arbitrary: d pc)
  case (Cons b bs)
  from Cons.IH [OF display_byte_inv display_byte_cells, OF Cons.prems(1) Cons.prems] show ?case by simp
qed simp

section \<open>Runs of the poll\<close>

fun display_run :: "hht_type \<Rightarrow> bytes option list \<Rightarrow> hht_display \<Rightarrow> hht_display \<times> row_out list" where
  "display_run ty [] d = (d, [])"
| "display_run ty (rd # rds) d =
     (let (d1, o1) = hht_display_poll ty rd d; (d2, o2) = display_run ty rds d1 in (d2, o1 @ o2))"

definition received :: "bytes option list \<Rightarrow> bytes" where
  "received rds = concat (map (\<lambda>rd. case rd of None \<Rightarrow> [] | Some bs \<Rightarrow> bs) rds)"

definition settled :: "hht_type \<Rightarrow> hht_display \<Rightarrow> bool" where
  "settled ty d \<longleftrightarrow> (\<forall>q < hht_display_get_rows ty. \<not> row_dirty d ! q)"

lemma poll_step:
  assumes "display_inv ty d" "view_inv ty d v" "cells_rel ty d pc" "settled ty d"
    and "hht_display_poll ty rd d = (d', outs)" "0 \<notin> set (received [rd])"
  shows "display_inv ty d' \<and> view_inv ty d' (fold view_update outs v) \<and>
    cells_rel ty d' (fold (cells_byte ty) (received [rd]) pc) \<and> settled ty d'"
proof (cases "rd = None \<or> rd = Some []")
  case True
  then show ?thesis using assms by (auto simp: hht_display_poll_def received_def)
next
  case False
  then obtain bs where rd: "rd = Some bs" "bs \<noteq> []" by (cases rd) auto
  have bs: "0 \<notin> set bs" using assms(6) rd by (simp add: received_def)
  let ?d = "fold (display_byte ty) bs d"
  have i: "display_inv ty ?d" by (rule display_bytes_inv [OF assms(1)])
  have v: "view_inv ty ?d v" by (rule display_bytes_view [OF assms(1,2) bs])
  have c: "cells_rel ty ?d (fold (cells_byte ty) bs pc)" by (rule display_bytes_cells [OF assms(1,3)])
  have "fold (display_row ty) [0..<hht_display_get_rows ty] (?d, []) = (d', outs)"
    using assms(5) rd by (simp add: hht_display_poll_def)
  from display_rows_view [OF i v order_refl this] c rd(1) show ?thesis
    by (auto simp: settled_def cells_rel_def received_def cells_row_def)
qed

lemma display_run_inv:
  "display_inv ty d \<Longrightarrow> view_inv ty d v \<Longrightarrow> cells_rel ty d pc \<Longrightarrow> settled ty d \<Longrightarrow>
   0 \<notin> set (received rds) \<Longrightarrow>
   (let (d', outs) = display_run ty rds d in
     display_inv ty d' \<and> view_inv ty d' (fold view_update outs v) \<and>
     cells_rel ty d' (fold (cells_byte ty) (received rds) pc) \<and> settled ty d')"
proof (induction rds arbitrary: d v pc)
  case Nil
  then show ?case by (simp add: received_def)
next
  case (Cons rd rds)
  obtain d1 o1 where 1: "hht_display_poll ty rd d = (d1, o1)" by fastforce
  have r: "received (rd # rds) = received [rd] @ received rds" by (simp add: received_def)
  with Cons.prems(5) have "0 \<notin> set (received [rd])" "0 \<notin> set (received rds)" by auto
  with poll_step [OF Cons.prems(1-4) 1]
    Cons.IH [of d1 "fold view_update o1 v" "fold (cells_byte ty) (received [rd]) pc"]
  show ?case using 1 r by (simp add: Let_def case_prod_beta)
qed

lemma init_inv:
  "display_inv ty (hht_display_init display_statics)"
  "view_inv ty (hht_display_init display_statics) view_init"
  "cells_rel ty (hht_display_init display_statics) (cells_init ty)"
  "settled ty (hht_display_init display_statics)"
proof -
  let ?d = "hht_display_init display_statics"
  have rows: "hht_display_get_rows ty \<le> 4" "0 < hht_display_get_rows ty" and cols: "hht_display_get_cols ty \<le> 20"
    "0 < hht_display_get_cols ty" by (auto simp: dims)
  have l: "s_lines ?d ! r = replicate 20 32 @ [0]" "s_last_lines ?d ! r = replicate 21 0"
    "row_dirty ?d ! r = False" if "r < hht_display_get_rows ty" for r
    using that rows by (auto simp: hht_display_init_def display_statics_def HHT_ROWS_MAX_def HHT_COLS_MAX_def)
  have row: "row_of ty ?d r = replicate (hht_display_get_cols ty) 32" if "r < hht_display_get_rows ty" for r
    using l(1) [OF that] cols by (simp add: row_of_def min_def)
  show "display_inv ty ?d"
    using rows cols by (simp add: display_inv_def hht_display_init_def display_statics_def HHT_ROWS_MAX_def HHT_COLS_MAX_def)
  show "view_inv ty ?d view_init"
    using rows cols l(2) row
    by (auto simp: view_inv_def view_init_def HHT_ROWS_MAX_def HHT_COLS_MAX_def pad20_def cstr_def replicate_add [symmetric])
  show "settled ty ?d" using l(3) by (simp add: settled_def)
  have "cells_row ty (cells_init ty) r = replicate (hht_display_get_cols ty) 32"
    if r: "r < hht_display_get_rows ty" for r
  proof -
    have "Suc r * hht_display_get_cols ty \<le> hht_display_get_rows ty * hht_display_get_cols ty"
      using r by (intro mult_le_mono1) simp
    then show ?thesis by (simp add: cells_row_def cells_init_def min_def)
  qed
  then show "cells_rel ty ?d (cells_init ty)"
    using row by (simp add: cells_rel_def cells_init_def hht_display_init_def display_statics_def)
qed

section \<open>Properties\<close>



text \<open>
  With a NUL among the bytes the app can be left behind: the comparison ends at the NUL, so a later
  character of the row is never sent.
\<close>

lemma nul_hides_change:
  "snd (display_run HHT_TYPE_3000 [Some [0x80, 65, 0, 66], Some [0x82, 67]]
     (hht_display_init display_statics)) = [(0, [65, 0, 66] @ replicate 17 32)]"
  by code_simp

end
