(* ===== verification/Hht_Handshake.thy ===== *)
theory Hht_Handshake
  imports Prelude
begin

text \<open>
  The eight byte handshake that opens a session with a WB100 terminal (\<open>hht_wb100.c\<close>): two random
  pairs of bytes, each followed by its CRC-16, high byte first. The table is related to the
  bitwise definition of the MODBUS CRC.
\<close>

definition s_crc16_table :: "u16 list" where
  "s_crc16_table = [
    0x0000, 0xC0C1, 0xC181, 0x0140, 0xC301, 0x03C0, 0x0280, 0xC241,
    0xC601, 0x06C0, 0x0780, 0xC741, 0x0500, 0xC5C1, 0xC481, 0x0440,
    0xCC01, 0x0CC0, 0x0D80, 0xCD41, 0x0F00, 0xCFC1, 0xCE81, 0x0E40,
    0x0A00, 0xCAC1, 0xCB81, 0x0B40, 0xC901, 0x09C0, 0x0880, 0xC841,
    0xD801, 0x18C0, 0x1980, 0xD941, 0x1B00, 0xDBC1, 0xDA81, 0x1A40,
    0x1E00, 0xDEC1, 0xDF81, 0x1F40, 0xDD01, 0x1DC0, 0x1C80, 0xDC41,
    0x1400, 0xD4C1, 0xD581, 0x1540, 0xD701, 0x17C0, 0x1680, 0xD641,
    0xD201, 0x12C0, 0x1380, 0xD341, 0x1100, 0xD1C1, 0xD081, 0x1040,
    0xF001, 0x30C0, 0x3180, 0xF141, 0x3300, 0xF3C1, 0xF281, 0x3240,
    0x3600, 0xF6C1, 0xF781, 0x3740, 0xF501, 0x35C0, 0x3480, 0xF441,
    0x3C00, 0xFCC1, 0xFD81, 0x3D40, 0xFF01, 0x3FC0, 0x3E80, 0xFE41,
    0xFA01, 0x3AC0, 0x3B80, 0xFB41, 0x3900, 0xF9C1, 0xF881, 0x3840,
    0x2800, 0xE8C1, 0xE981, 0x2940, 0xEB01, 0x2BC0, 0x2A80, 0xEA41,
    0xEE01, 0x2EC0, 0x2F80, 0xEF41, 0x2D00, 0xEDC1, 0xEC81, 0x2C40,
    0xE401, 0x24C0, 0x2580, 0xE541, 0x2700, 0xE7C1, 0xE681, 0x2640,
    0x2200, 0xE2C1, 0xE381, 0x2340, 0xE101, 0x21C0, 0x2080, 0xE041,
    0xA001, 0x60C0, 0x6180, 0xA141, 0x6300, 0xA3C1, 0xA281, 0x6240,
    0x6600, 0xA6C1, 0xA781, 0x6740, 0xA501, 0x65C0, 0x6480, 0xA441,
    0x6C00, 0xACC1, 0xAD81, 0x6D40, 0xAF01, 0x6FC0, 0x6E80, 0xAE41,
    0xAA01, 0x6AC0, 0x6B80, 0xAB41, 0x6900, 0xA9C1, 0xA881, 0x6840,
    0x7800, 0xB8C1, 0xB981, 0x7940, 0xBB01, 0x7BC0, 0x7A80, 0xBA41,
    0xBE01, 0x7EC0, 0x7F80, 0xBF41, 0x7D00, 0xBDC1, 0xBC81, 0x7C40,
    0xB401, 0x74C0, 0x7580, 0xB541, 0x7700, 0xB7C1, 0xB681, 0x7640,
    0x7200, 0xB2C1, 0xB381, 0x7340, 0xB101, 0x71C0, 0x7080, 0xB041,
    0x5000, 0x90C1, 0x9181, 0x5140, 0x9301, 0x53C0, 0x5280, 0x9241,
    0x9601, 0x56C0, 0x5780, 0x9741, 0x5500, 0x95C1, 0x9481, 0x5440,
    0x9C01, 0x5CC0, 0x5D80, 0x9D41, 0x5F00, 0x9FC1, 0x9E81, 0x5E40,
    0x5A00, 0x9AC1, 0x9B81, 0x5B40, 0x9901, 0x59C0, 0x5880, 0x9841,
    0x8801, 0x48C0, 0x4980, 0x8941, 0x4B00, 0x8BC1, 0x8A81, 0x4A40,
    0x4E00, 0x8EC1, 0x8F81, 0x4F40, 0x8D01, 0x4DC0, 0x4C80, 0x8C41,
    0x4400, 0x84C1, 0x8581, 0x4540, 0x8701, 0x47C0, 0x4680, 0x8641,
    0x8201, 0x42C0, 0x4380, 0x8341, 0x4100, 0x81C1, 0x8081, 0x4040]"

definition crc_update :: "u16 \<Rightarrow> u8 \<Rightarrow> u16" where
  "crc_update crc digit =
     (let sum_value = crc XOR ucast digit
      in drop_bit 8 crc XOR s_crc16_table ! unat (sum_value AND 0x00FF))"

definition make_seed :: "u8 \<times> u8 \<Rightarrow> u8 \<times> u8" where
  "make_seed digit =
     (let crc = crc_update (crc_update 0xFFFF (fst digit)) (snd digit)
      in (ucast (drop_bit 8 crc AND 0xFF), ucast (crc AND 0xFF)))"

text \<open>The four values of \<open>esp_random\<close>, in the order in which they are drawn, are arguments.\<close>

definition make_session :: "u32 \<times> u32 \<times> u32 \<times> u32 \<Rightarrow> bytes" where
  "make_session rnd = (case rnd of (r0, r1, r2, r3) \<Rightarrow>
     let digit1 = (ucast (r0 AND 0xFF), ucast (r1 AND 0xFF));
         digit2 = (ucast (r2 AND 0xFF), ucast (r3 AND 0xFF));
         crc1 = make_seed digit1; crc2 = make_seed digit2
     in [fst digit1, snd digit1, fst crc1, snd crc1, fst digit2, snd digit2, fst crc2, snd crc2])"

definition verify_session :: "bytes \<Rightarrow> bool" where
  "verify_session buf =
     (if length buf < 8 then False
      else let crc1 = make_seed (buf ! 0, buf ! 1); crc2 = make_seed (buf ! 4, buf ! 5)
           in buf ! 2 = fst crc1 \<and> buf ! 3 = snd crc1 \<and> buf ! 6 = fst crc2 \<and> buf ! 7 = snd crc2)"

section \<open>The table\<close>

text \<open>The MODBUS CRC bit by bit: shift right, and fold in the reversed polynomial on a set bit.\<close>

definition crc_bit :: "u16 \<Rightarrow> u16" where
  "crc_bit c = (if c AND 1 \<noteq> 0 then drop_bit 1 c XOR 0xA001 else drop_bit 1 c)"

definition modbus :: "u8 \<Rightarrow> u16" where
  "modbus b = (crc_bit ^^ 8) (ucast b)"

text \<open>The register update is linear, so eight values generate the table.\<close>

lemma crc_bit_xor: "crc_bit (a XOR b) = crc_bit a XOR crc_bit b"
proof -
  have "c AND 1 \<noteq> 0 \<longleftrightarrow> odd c" for c :: u16 by (simp add: and_one_eq mod_2_eq_odd)
  moreover have "drop_bit 1 (a XOR b) = drop_bit 1 a XOR drop_bit 1 b"
    by (rule bit_word_eqI) (auto simp: bit_simps)
  ultimately show ?thesis
    unfolding crc_bit_def by (simp only: even_xor_iff) (auto simp: ac_simps)
qed

lemma crc_bits_xor: "(crc_bit ^^ n) (a XOR b) = (crc_bit ^^ n) a XOR (crc_bit ^^ n) b"
  by (induction n) (simp_all add: crc_bit_xor)

definition crc_list :: "nat \<Rightarrow> u16 list" where
  "crc_list n = map (\<lambda>i. (crc_bit ^^ 8) (of_nat i)) [0..<n]"

lemma of_nat_xor_pow:
  assumes "j < 2 ^ k"
  shows "(of_nat (2 ^ k + j) :: u16) = of_nat (2 ^ k) XOR of_nat j"
proof -
  have "(of_nat (2 ^ k) :: u16) AND of_nat j = 0"
    using assms by (intro bit_word_eqI) (auto simp: bit_simps bit_nat_def div_eq_0_iff)
  then show ?thesis by (simp only: of_nat_add disjunctive_add_eq_xor)
qed

lemma crc_list_double:
  "crc_list (2 ^ Suc k) = crc_list (2 ^ k) @ map ((XOR) ((crc_bit ^^ 8) (of_nat (2 ^ k)))) (crc_list (2 ^ k))"
proof (rule nth_equalityI)
  fix i assume i: "i < length (crc_list (2 ^ Suc k))"
  show "crc_list (2 ^ Suc k) ! i = (crc_list (2 ^ k) @
      map ((XOR) ((crc_bit ^^ 8) (of_nat (2 ^ k)))) (crc_list (2 ^ k))) ! i"
  proof (cases "i < 2 ^ k")
    case False
    then have j: "i - 2 ^ k < 2 ^ k" "2 ^ k + (i - 2 ^ k) = i" using i by (auto simp: crc_list_def)
    have "(crc_bit ^^ 8) (of_nat i) = (crc_bit ^^ 8) (of_nat (2 ^ k)) XOR (crc_bit ^^ 8) (of_nat (i - 2 ^ k))"
      using of_nat_xor_pow [OF j(1)] unfolding j(2) by (simp only: crc_bits_xor)
    then show ?thesis
      using False i j(1) by (simp add: crc_list_def nth_append del: of_nat_diff of_nat_power)
  qed (use i in \<open>simp add: crc_list_def nth_append\<close>)
qed (simp add: crc_list_def)

lemma crc_table_list: "s_crc16_table = crc_list 256"
proof -
  have 0: "crc_list 1 = [0]" by (simp add: crc_list_def crc_bit_def numeral_eq_Suc)
  have p: "(crc_bit ^^ 8) 1 = 0xC0C1" "(crc_bit ^^ 8) 2 = 0xC181" "(crc_bit ^^ 8) 4 = 0xC301"
    "(crc_bit ^^ 8) 8 = 0xC601" "(crc_bit ^^ 8) 16 = 0xCC01" "(crc_bit ^^ 8) 32 = 0xD801"
    "(crc_bit ^^ 8) 64 = 0xF001" "(crc_bit ^^ 8) 128 = 0xA001"
    by code_simp+
  have "foldl (\<lambda>t b. t @ map ((XOR) b) t) [0]
      [0xC0C1, 0xC181, 0xC301, 0xC601, 0xCC01, 0xD801, 0xF001, 0xA001] = s_crc16_table"
    by code_simp
  with 0 p show ?thesis
    using crc_list_double [of 0] crc_list_double [of 1] crc_list_double [of 2] crc_list_double [of 3]
      crc_list_double [of 4] crc_list_double [of 5] crc_list_double [of 6] crc_list_double [of 7]
    by simp
qed

lemma crc_table_modbus: "s_crc16_table ! unat b = modbus b"
  unfolding crc_table_list by (simp add: crc_list_def modbus_def of_nat_unat)

lemma length_crc_table [simp]: "length s_crc16_table = 256"
  by (simp add: s_crc16_table_def)

text \<open>The high bytes of the table are all different: this is where each of them stands.\<close>

definition hi_index :: "nat list" where
  "hi_index = [
    0, 3, 6, 5, 15, 12, 9, 10, 30, 29, 24, 27, 17, 18, 23, 20,
    63, 60, 57, 58, 48, 51, 54, 53, 33, 34, 39, 36, 46, 45, 40, 43,
    126, 125, 120, 123, 113, 114, 119, 116, 96, 99, 102, 101, 111, 108, 105, 106,
    65, 66, 71, 68, 78, 77, 72, 75, 95, 92, 89, 90, 80, 83, 86, 85,
    255, 252, 249, 250, 240, 243, 246, 245, 225, 226, 231, 228, 238, 237, 232, 235,
    192, 195, 198, 197, 207, 204, 201, 202, 222, 221, 216, 219, 209, 210, 215, 212,
    129, 130, 135, 132, 142, 141, 136, 139, 159, 156, 153, 154, 144, 147, 150, 149,
    190, 189, 184, 187, 177, 178, 183, 180, 160, 163, 166, 165, 175, 172, 169, 170,
    254, 253, 248, 251, 241, 242, 247, 244, 224, 227, 230, 229, 239, 236, 233, 234,
    193, 194, 199, 196, 206, 205, 200, 203, 223, 220, 217, 218, 208, 211, 214, 213,
    128, 131, 134, 133, 143, 140, 137, 138, 158, 157, 152, 155, 145, 146, 151, 148,
    191, 188, 185, 186, 176, 179, 182, 181, 161, 162, 167, 164, 174, 173, 168, 171,
    1, 2, 7, 4, 14, 13, 8, 11, 31, 28, 25, 26, 16, 19, 22, 21,
    62, 61, 56, 59, 49, 50, 55, 52, 32, 35, 38, 37, 47, 44, 41, 42,
    127, 124, 121, 122, 112, 115, 118, 117, 97, 98, 103, 100, 110, 109, 104, 107,
    64, 67, 70, 69, 79, 76, 73, 74, 94, 93, 88, 91, 81, 82, 87, 84]"

lemma hi_index_table: "map (\<lambda>c. hi_index ! unat (hi8 c)) s_crc16_table = [0..<256]"
  by code_simp

section \<open>The handshake\<close>

lemma unat_index: "unat ((crc XOR ucast (d :: u8)) AND 0x00FF) = unat (lo8 crc XOR d)"
proof -
  have "(crc XOR ucast d) AND 0x00FF = (ucast (lo8 crc XOR d) :: u16)"
    by (rule bit_word_eqI) (auto simp: lo8_def and_255 bit_simps)
  then show ?thesis by (simp add: unsigned_ucast_eq take_bit_nat_eq_self less_trans [OF unat_u8_lt])
qed

lemma crc_update_table: "crc_update crc d = drop_bit 8 crc XOR s_crc16_table ! unat (lo8 crc XOR d)"
  by (simp add: crc_update_def unat_index Let_def)

text \<open>A step with the table is eight steps bit by bit.\<close>

lemma crc_bit_pow_even: "(\<And>i. i < n \<Longrightarrow> \<not> bit c i) \<Longrightarrow> (crc_bit ^^ n) c = drop_bit n c"
proof (induction n arbitrary: c)
  case (Suc n)
  have "\<not> bit c 0" using Suc.prems by blast
  then have e: "c AND 1 = 0" by (simp add: and_one_eq mod_2_eq_odd bit_0)
  have "\<not> bit (drop_bit 1 c) i" if "i < n" for i
    using Suc.prems [of "Suc i"] that by (simp add: bit_simps)
  from Suc.IH [OF this] show ?case
    using e by (simp add: funpow_Suc_right crc_bit_def drop_bit_drop_bit del: funpow.simps)
qed simp

lemma crc_update_bits: "crc_update crc d = (crc_bit ^^ 8) (crc XOR ucast d)"
proof -
  have "crc XOR ucast d = push_bit 8 (drop_bit 8 crc) XOR ucast (lo8 crc XOR d)"
    by (rule bit_word_eqI) (auto simp: lo8_def and_255 bit_simps)
  moreover have "\<not> bit (push_bit 8 (drop_bit 8 crc)) i" if "i < 8" for i
    using that by (simp add: bit_simps)
  moreover have "drop_bit 8 (push_bit 8 (drop_bit 8 crc)) = drop_bit 8 crc"
    by (rule bit_word_eqI) (auto simp: bit_simps dest: bit_imp_le_length)
  ultimately show ?thesis
    by (simp add: crc_update_table crc_table_modbus modbus_def crc_bits_xor crc_bit_pow_even)
qed

lemma hi8_update: "hi8 (crc_update crc d) = hi8 (s_crc16_table ! unat (lo8 crc XOR d))"
proof -
  have "hi8 (drop_bit 8 crc XOR w) = hi8 w" for w
    by (rule bit_word_eqI) (auto simp: hi8_def bit_simps dest: bit_imp_le_length)
  then show ?thesis by (simp add: crc_update_table)
qed

lemma table_hi_inj:
  assumes "hi8 (s_crc16_table ! unat (a :: u8)) = hi8 (s_crc16_table ! unat (b :: u8))"
  shows "a = b"
proof -
  have "map (\<lambda>c. hi_index ! unat (hi8 c)) s_crc16_table ! unat x = unat x" for x :: u8
    by (simp only: hi_index_table) simp
  then have "hi_index ! unat (hi8 (s_crc16_table ! unat x)) = unat x" for x :: u8
    by simp
  with assms have "unat a = unat b" by metis
  then show ?thesis by (simp add: word_unat_eq_iff)
qed

lemma crc_update_inj_digit: "crc_update c d = crc_update c e \<Longrightarrow> d = e"
  using table_hi_inj [of "lo8 c XOR d" "lo8 c XOR e"] hi8_update [of c d] hi8_update [of c e]
  by (simp add: xor_cancel_left)

lemma crc_update_inj_crc:
  assumes "crc_update c d = crc_update c' d"
  shows "c = c'"
proof -
  have "d XOR lo8 c = d XOR lo8 c'"
    using table_hi_inj [of "lo8 c XOR d" "lo8 c' XOR d"] hi8_update [of c d] hi8_update [of c' d] assms
    by (simp add: xor.commute)
  then have lo: "lo8 c = lo8 c'" by (simp add: xor_cancel_left)
  let ?t = "s_crc16_table ! unat (lo8 c' XOR d)"
  have "drop_bit 8 c XOR ?t = drop_bit 8 c' XOR ?t"
    using assms unfolding crc_update_table lo .
  then have "(drop_bit 8 c XOR ?t) XOR ?t = (drop_bit 8 c' XOR ?t) XOR ?t" by simp
  then have "drop_bit 8 c = drop_bit 8 c'" by (simp only: xor.assoc xor_self_eq xor.right_neutral)
  then have "hi8 c = hi8 c'" by (simp add: hi8_def)
  then have "join8 (hi8 c) (lo8 c) = join8 (hi8 c') (lo8 c')" using lo by simp
  then show ?thesis by simp
qed

definition modbus_crc :: "bytes \<Rightarrow> u16" where
  "modbus_crc bs = fold (\<lambda>b c. (crc_bit ^^ 8) (c XOR ucast b)) bs 0xFFFF"

lemma make_seed_modbus: "make_seed (a, b) = (hi8 (modbus_crc [a, b]), lo8 (modbus_crc [a, b]))"
proof -
  have "ucast (drop_bit 8 c AND 0xFF) = hi8 c" for c
    by (rule bit_word_eqI) (auto simp: hi8_def and_255 bit_simps)
  then show ?thesis
    by (simp add: make_seed_def modbus_crc_def Let_def lo8_def flip: crc_update_bits)
qed

lemma seed_inj:
  assumes "make_seed (a, b) = make_seed (a', b')" "a = a' \<or> b = b'"
  shows "a = a' \<and> b = b'"
proof -
  have "crc_update (crc_update 0xFFFF a) b = crc_update (crc_update 0xFFFF a') b'"
    using arg_cong [where f = "\<lambda>(h, l). join8 h l", OF assms(1)]
    by (simp add: make_seed_modbus modbus_crc_def flip: crc_update_bits)
  with assms(2) show ?thesis
    using crc_update_inj_digit crc_update_inj_crc by blast
qed

lemma list8:
  "length s = 8 \<Longrightarrow> s = [s ! 0, s ! 1, s ! 2, s ! 3, s ! 4, s ! 5, s ! 6, s ! 7]"
  by (intro nth_equalityI) (auto simp: less_Suc_eq numeral_eq_Suc)

lemma verify_list8:
  "verify_session [a, b, h, l, a', b', h', l'] \<longleftrightarrow>
     make_seed (a, b) = (h, l) \<and> make_seed (a', b') = (h', l')"
  by (auto simp: verify_session_def Let_def prod_eq_iff)

lemma length_make_session: "length (make_session rnd) = 8"
  by (auto simp: make_session_def Let_def split: prod.splits)

text \<open>C15: The handshake check is the MODBUS CRC. Eight bytes are accepted exactly when each half is two
  bytes followed by their CRC-16 (bitwise definition, start value FFFF), high byte first; in
  particular the request that \<open>make_session\<close> builds from any random numbers is always accepted.\<close>

theorem verify_session_modbus:
  "(verify_session [a, b, h, l, a', b', h', l'] \<longleftrightarrow>
     join8 h l = modbus_crc [a, b] \<and> join8 h' l' = modbus_crc [a', b']) \<and>
   verify_session (make_session rnd) \<and> length (make_session rnd) = 8"
proof -
  have j: "make_seed (a, b) = (h, l) \<longleftrightarrow> join8 h l = modbus_crc [a, b]" for a b h l
    by (auto simp: make_seed_modbus) (metis hi8_join8, metis lo8_join8)
  have "verify_session (make_session rnd)"
    by (auto simp: make_session_def verify_list8 Let_def split: prod.splits)
  with j show ?thesis by (simp add: verify_list8 length_make_session)
qed

text \<open>C16: A damaged answer is rejected. When an answer passes the check, changing any single one of its
  eight bytes makes \<open>verify_session\<close> fail, whether it is a digit or a CRC byte.\<close>

theorem verify_session_corruption:
  assumes "length s = 8" "verify_session s" "i < 8" "x \<noteq> s ! i"
  shows "\<not> verify_session (s[i := x])"
proof
  obtain a b h l a' b' h' l' where s: "s = [a, b, h, l, a', b', h', l']"
    using list8 [OF assms(1)] by blast
  assume "verify_session (s[i := x])"
  moreover have "i = 0 \<or> i = 1 \<or> i = 2 \<or> i = 3 \<or> i = 4 \<or> i = 5 \<or> i = 6 \<or> i = 7"
    using assms(3) by auto
  moreover have "verify_session [a, b, h, l, a', b', h', l']" using assms(2) s by simp
  ultimately show False
    using assms(4) seed_inj [of a b x b] seed_inj [of a b a x] seed_inj [of a' b' x b'] seed_inj [of a' b' a' x]
    by (elim disjE) (simp_all add: s verify_list8)
qed

lemma verify_session_corruption_witness:
  "\<not> verify_session ((make_session (1, 2, 3, 4))[5 := 9])"
proof -
  have s: "make_session (1, 2, 3, 4) = [1, 2, 0xE1, 0x81, 3, 4, 0x83, 0]" by code_simp
  have "verify_session [1, 2, 0xE1, 0x81, 3, 4, 0x83, 0]" by code_simp
  then show ?thesis
    unfolding s by (intro verify_session_corruption) simp_all
qed

end
