(* ===== verification/Hht_Link.thy ===== *)
theory Hht_Link
  imports Hht_Display Hht_Handshake
begin

text \<open>
  The link to a handheld terminal: the UART wrapper (\<open>hht_uart.c\<close>), the WB100 and HHT-3000 sessions
  (\<open>hht_wb100.c\<close>, \<open>hht_3000.c\<close>), the session layer (\<open>hht_session.c\<close>), start and stop (\<open>hht_main.c\<close>) and the
  polling task (\<open>hht_task.c\<close>). The UART driver of ESP-IDF is a record of functions over a driver
  state of any type; a read returns \<open>None\<close> for an error. Delays and log output are left out, and the
  commands and rows for the app are kept with the bytes written to the terminal in one trace.
\<close>

datatype hht_session_result =
    HHT_SESSION_OK | HHT_SESSION_ERR_TIMEOUT | HHT_SESSION_ERR_PROTOCOL
  | HHT_SESSION_ERR_UART | HHT_SESSION_ERR_UNSUPPORTED

datatype hht_out = Tx bytes | Row nat bytes | Cmd u16 bytes

record 'u uart_drv =
  drv_install :: "bool \<Rightarrow> 'u \<Rightarrow> 'u"
  drv_delete :: "'u \<Rightarrow> 'u"
  drv_flush :: "'u \<Rightarrow> 'u"
  drv_flush_input :: "'u \<Rightarrow> 'u"
  drv_buffered :: "'u \<Rightarrow> nat option"
  drv_read :: "'u \<Rightarrow> nat \<Rightarrow> nat \<Rightarrow> bytes option \<times> 'u"
  drv_write :: "'u \<Rightarrow> bytes \<Rightarrow> int \<times> 'u"

record 'u hht =
  uart_ready :: bool
  uart_state :: 'u
  hht_ty :: hht_type
  hht_running :: bool
  hht_task_up :: bool
  hht_key_state :: hht_keys
  hht_disp :: hht_display
  s_key_tick_div :: u8
  report_tick :: nat
  trace :: "hht_out list"

definition hht_boot :: "'u \<Rightarrow> 'u hht" where
  "hht_boot u = \<lparr>uart_ready = False, uart_state = u, hht_ty = HHT_TYPE_WB100, hht_running = False,
     hht_task_up = False, hht_key_state = hht_keys_init, hht_disp = display_statics,
     s_key_tick_div = 0, report_tick = 0, trace = []\<rparr>"

definition emit :: "hht_out list \<Rightarrow> 'u hht \<Rightarrow> 'u hht" where
  "emit os s = s\<lparr>trace := trace s @ os\<rparr>"

section \<open>UART\<close>

definition hht_uart_init :: "'u uart_drv \<Rightarrow> 'u hht \<Rightarrow> 'u hht" where
  "hht_uart_init drv s =
     (if uart_ready s then s
      else s\<lparr>uart_state := drv_install drv False (uart_state s), uart_ready := True\<rparr>)"

definition hht_uart_init_3000 :: "'u uart_drv \<Rightarrow> 'u hht \<Rightarrow> 'u hht" where
  "hht_uart_init_3000 drv s =
     (let u = (if uart_ready s then drv_delete drv (uart_state s) else uart_state s)
      in s\<lparr>uart_state := drv_install drv True u, uart_ready := True\<rparr>)"

definition hht_uart_deinit :: "'u uart_drv \<Rightarrow> 'u hht \<Rightarrow> 'u hht" where
  "hht_uart_deinit drv s =
     (if \<not> uart_ready s then s
      else s\<lparr>uart_state := drv_delete drv (uart_state s), uart_ready := False\<rparr>)"

definition hht_uart_flush :: "'u uart_drv \<Rightarrow> 'u hht \<Rightarrow> 'u hht" where
  "hht_uart_flush drv s = (if uart_ready s then s\<lparr>uart_state := drv_flush drv (uart_state s)\<rparr> else s)"

definition hht_uart_flush_rx :: "'u uart_drv \<Rightarrow> 'u hht \<Rightarrow> 'u hht" where
  "hht_uart_flush_rx drv s =
     (if uart_ready s then s\<lparr>uart_state := drv_flush_input drv (uart_state s)\<rparr> else s)"

definition hht_uart_rx_buffered_bytes :: "'u uart_drv \<Rightarrow> 'u hht \<Rightarrow> nat" where
  "hht_uart_rx_buffered_bytes drv s =
     (if \<not> uart_ready s then 0
      else case drv_buffered drv (uart_state s) of None \<Rightarrow> 0 | Some n \<Rightarrow> n)"

definition hht_uart_read :: "'u uart_drv \<Rightarrow> nat \<Rightarrow> nat \<Rightarrow> 'u hht \<Rightarrow> bytes option \<times> 'u hht" where
  "hht_uart_read drv len timeout s =
     (if \<not> uart_ready s then (None, s)
      else let (r, u) = drv_read drv (uart_state s) len timeout in (r, s\<lparr>uart_state := u\<rparr>))"

definition hht_uart_write :: "'u uart_drv \<Rightarrow> bytes \<Rightarrow> 'u hht \<Rightarrow> int \<times> 'u hht" where
  "hht_uart_write drv bs s =
     (if \<not> uart_ready s then (- 1, s)
      else let (n, u) = drv_write drv (uart_state s) bs in (n, emit [Tx bs] (s\<lparr>uart_state := u\<rparr>)))"

definition uart_write_all :: "'u uart_drv \<Rightarrow> bytes list \<Rightarrow> 'u hht \<Rightarrow> 'u hht" where
  "uart_write_all drv bss s = fold (\<lambda>bs s. snd (hht_uart_write drv bs s)) bss s"

text \<open>The key and display components on the link: what they write or send goes to the trace.\<close>

definition link_keys_poll :: "'u uart_drv \<Rightarrow> 'u hht \<Rightarrow> 'u hht" where
  "link_keys_poll drv s =
     (let (k, bss) = hht_keys_poll (hht_ty s) (hht_key_state s)
      in uart_write_all drv bss (s\<lparr>hht_key_state := k\<rparr>))"

definition link_display_poll :: "'u uart_drv \<Rightarrow> 'u hht \<Rightarrow> 'u hht" where
  "link_display_poll drv s =
     (let (rd, s1) = hht_uart_read drv 64 20 s;
          (d, rows) = hht_display_poll (hht_ty s) rd (hht_disp s1);
          s2 = emit (map (\<lambda>(r, l). Row r l) rows) (s1\<lparr>hht_disp := d\<rparr>)
      in if rows = [] then s2
         else let (k, bss) = hht_keys_cancel_short_on_display_change (hht_ty s2) (hht_key_state s2)
              in uart_write_all drv bss (s2\<lparr>hht_key_state := k\<rparr>))"

definition link_push_row :: "nat \<Rightarrow> bytes \<Rightarrow> bool \<Rightarrow> 'u hht \<Rightarrow> 'u hht" where
  "link_push_row row src force s =
     (let (d, rows) = hht_display_push_row_ascii (hht_ty s) row src force (hht_disp s)
      in emit (map (\<lambda>(r, l). Row r l) rows) (s\<lparr>hht_disp := d\<rparr>))"

section \<open>WB100\<close>

definition ACK_START_HHT_WB100 :: u16 where [model_simps]: "ACK_START_HHT_WB100 = 0x8201"
definition ACK_START_HHT_3000 :: u16 where [model_simps]: "ACK_START_HHT_3000 = 0x8203"
definition CMD_HHT_PROJ_100 :: u16 where [model_simps]: "CMD_HHT_PROJ_100 = 0x0066"
definition HHT_SESSION_WB100_RETRY_MAX :: nat where [model_simps]: "HHT_SESSION_WB100_RETRY_MAX = 5"

definition s_code_wbvf :: bytes where
  "s_code_wbvf = bytes_of ''WBHHTWBSMARTHHT00012''"

definition hht_wb100_init :: "'u uart_drv \<Rightarrow> 'u hht \<Rightarrow> 'u hht" where
  "hht_wb100_init drv s =
     (let s1 = hht_uart_init drv s
      in s1\<lparr>hht_disp := hht_display_init (hht_disp s1), hht_key_state := hht_keys_init\<rparr>)"

text \<open>The reads of the answer: at most \<open>n\<close> of them, stopping at eight bytes.\<close>

fun wb100_read_loop :: "'u uart_drv \<Rightarrow> nat \<Rightarrow> bytes \<Rightarrow> 'u hht \<Rightarrow> bytes \<times> 'u hht" where
  "wb100_read_loop drv 0 resp s = (resp, s)"
| "wb100_read_loop drv (Suc n) resp s =
     (let (rd, s1) = hht_uart_read drv (8 - length resp) 100 s;
          resp1 = (case rd of None \<Rightarrow> resp | Some bs \<Rightarrow> resp @ bs)
      in if rd \<noteq> None \<and> rd \<noteq> Some [] \<and> 8 \<le> length resp1 then (resp1, s1)
         else wb100_read_loop drv n resp1 s1)"

definition hht_wb100_session_open ::
    "'u uart_drv \<Rightarrow> u32 \<times> u32 \<times> u32 \<times> u32 \<Rightarrow> 'u hht \<Rightarrow> hht_session_result \<times> 'u hht" where
  "hht_wb100_session_open drv rnd s =
     (let req = make_session rnd;
          (wn, s1) = hht_uart_write drv req (hht_uart_flush drv s)
      in if wn < 0 \<or> nat wn \<noteq> length req then (HHT_SESSION_ERR_UART, s1)
         else let (resp, s2) = wb100_read_loop drv HHT_SESSION_WB100_RETRY_MAX [] s1
              in (if length resp \<noteq> 8 then HHT_SESSION_ERR_TIMEOUT
                  else if \<not> verify_session resp then HHT_SESSION_ERR_PROTOCOL
                  else HHT_SESSION_OK, s2))"

fun wb100_project_loop :: "'u uart_drv \<Rightarrow> nat \<Rightarrow> 'u hht \<Rightarrow> 'u hht" where
  "wb100_project_loop drv 0 s = s"
| "wb100_project_loop drv (Suc n) s =
     (let avail = hht_uart_rx_buffered_bytes drv s in
      if 16 \<le> avail then
        let (rd, s1) = hht_uart_read drv (if 256 < avail then 256 else avail) 1000 s;
            packet_proj = (case rd of
                None \<Rightarrow> replicate 10 0
              | Some bs \<Rightarrow> if 16 \<le> length bs then take 9 (drop 6 bs) @ [0] else replicate 10 0)
        in emit [Cmd CMD_HHT_PROJ_100 packet_proj] s1
      else wb100_project_loop drv n (emit [Cmd CMD_HHT_PROJ_100 (replicate 10 0)] s))"

definition hht_wb100_post_verify_workflow :: "'u uart_drv \<Rightarrow> 'u hht \<Rightarrow> 'u hht" where
  "hht_wb100_post_verify_workflow drv s =
     (let s1 = emit [Cmd ACK_START_HHT_WB100 [0x01], Cmd ACK_START_HHT_3000 [0x00]] s;
          s2 = uart_write_all drv [bytes_of ''OK'', s_code_wbvf, [0x01]] s1;
          s3 = uart_write_all drv [[0x00]] (hht_uart_flush drv s2)
      in wb100_project_loop drv 10 s3)"

definition hht_wb100_session_close :: "'u uart_drv \<Rightarrow> 'u hht \<Rightarrow> 'u hht" where
  "hht_wb100_session_close drv s = hht_uart_flush drv s"

definition hht_wb100_poll :: "'u uart_drv \<Rightarrow> 'u hht \<Rightarrow> 'u hht" where
  "hht_wb100_poll drv s =
     (let t = s_key_tick_div s + 1;
          s1 = (if 2 \<le> t then link_keys_poll drv (s\<lparr>s_key_tick_div := 0\<rparr>) else s\<lparr>s_key_tick_div := t\<rparr>)
      in link_display_poll drv s1)"

section \<open>HHT-3000\<close>

definition HHT3K_CMD_EXIT :: u8 where [model_simps]: "HHT3K_CMD_EXIT = 0x00"
definition HHT3K_CMD_REPORT :: u8 where [model_simps]: "HHT3K_CMD_REPORT = 0x01"
definition HHT3K_MODE_HHT2K :: u8 where [model_simps]: "HHT3K_MODE_HHT2K = 0x02"
definition HHT3K_SUB_SNIFF :: u8 where [model_simps]: "HHT3K_SUB_SNIFF = 0x02"
definition HHT3K_LINE_LEN :: nat where [model_simps]: "HHT3K_LINE_LEN = 16"

definition REPORT_PREFIX0 :: bytes where [model_simps]: "REPORT_PREFIX0 = [48, 58]"
definition REPORT_PREFIX1 :: bytes where [model_simps]: "REPORT_PREFIX1 = [13, 10, 49, 58]"
definition REPORT_SUFFIX :: bytes where [model_simps]: "REPORT_SUFFIX = [13, 10]"

definition report_clean :: "bytes \<Rightarrow> bytes" where
  "report_clean l = map (\<lambda>c. if c = 0 \<or> \<not> isprint_byte c then 32 else c) l"

definition report_parse :: "bytes \<Rightarrow> (bytes \<times> bytes) option" where
  "report_parse bs =
     (let p = cstr bs in
      case strstr REPORT_PREFIX0 p of
        None \<Rightarrow> None
      | Some i \<Rightarrow>
          (let q = drop (i + length REPORT_PREFIX0) p in
           case strstr REPORT_PREFIX1 q of
             None \<Rightarrow> None
           | Some j \<Rightarrow>
               if j < HHT3K_LINE_LEN then None
               else let line0 = report_clean (take HHT3K_LINE_LEN q);
                        q1 = drop (j + length REPORT_PREFIX1) q
                    in (case strstr REPORT_SUFFIX q1 of
                          None \<Rightarrow> None
                        | Some k \<Rightarrow>
                            if k < HHT3K_LINE_LEN then None
                            else Some (line0, report_clean (take HHT3K_LINE_LEN q1)))))"

text \<open>
  The reply is read into 96 bytes and terminated behind what was read: a full read makes the
  terminator land behind the array, which is the outer \<open>None\<close>.
\<close>

definition hht_3000_read_report_lines ::
    "'u uart_drv \<Rightarrow> 'u hht \<Rightarrow> ((bytes \<times> bytes) option \<times> 'u hht) option" where
  "hht_3000_read_report_lines drv s =
     (let (rd, s1) = hht_uart_read drv 96 100 s in
      case rd of
        None \<Rightarrow> Some (None, s1)
      | Some bs \<Rightarrow>
          if bs = [] then Some (None, s1)
          else if 96 \<le> length bs then None
          else Some (report_parse bs, s1))"

definition request_report :: "'u uart_drv \<Rightarrow> 'u hht \<Rightarrow> ((bytes \<times> bytes) option \<times> 'u hht) option" where
  "request_report drv s =
     hht_3000_read_report_lines drv (uart_write_all drv [[HHT3K_CMD_REPORT]] (hht_uart_flush_rx drv s))"

definition hht_3000_ble_sync_initial :: "'u uart_drv \<Rightarrow> 'u hht \<Rightarrow> 'u hht option" where
  "hht_3000_ble_sync_initial drv s =
     (case request_report drv s of
        None \<Rightarrow> None
      | Some (Some (line0, line1), s1) \<Rightarrow> Some (link_push_row 1 line1 True (link_push_row 0 line0 True s1))
      | Some (None, s1) \<Rightarrow>
          Some (link_push_row 1 (replicate 16 32) True (link_push_row 0 (replicate 16 32) True s1)))"

definition hht_3000_init :: "'u uart_drv \<Rightarrow> 'u hht \<Rightarrow> 'u hht" where
  "hht_3000_init drv s =
     (let s1 = hht_uart_init_3000 drv s
      in s1\<lparr>hht_disp := hht_display_init (hht_disp s1), hht_key_state := hht_keys_init\<rparr>)"

definition hht_3000_session_open :: "'u uart_drv \<Rightarrow> 'u hht \<Rightarrow> (bool \<times> 'u hht) option" where
  "hht_3000_session_open drv s =
     (let mode = [HHT3K_MODE_HHT2K, HHT3K_SUB_SNIFF];
          (wn, s1) = hht_uart_write drv mode (hht_uart_flush drv s)
      in if wn < 0 \<or> nat wn \<noteq> length mode then Some (False, s1)
         else map_option (Pair True) (hht_3000_ble_sync_initial drv (snd (hht_uart_read drv 64 60 s1))))"

definition hht_3000_session_close :: "'u uart_drv \<Rightarrow> 'u hht \<Rightarrow> 'u hht" where
  "hht_3000_session_close drv s =
     hht_uart_deinit drv (hht_uart_flush drv (uart_write_all drv [[HHT3K_CMD_EXIT]] s))"

definition REPORT_INTERVAL_TICKS :: nat where [model_simps]: "REPORT_INTERVAL_TICKS = 10"

definition hht_3000_poll :: "'u uart_drv \<Rightarrow> 'u hht \<Rightarrow> 'u hht option" where
  "hht_3000_poll drv s =
     (if REPORT_INTERVAL_TICKS \<le> report_tick s + 1 then
        (case request_report drv (s\<lparr>report_tick := 0\<rparr>) of
           None \<Rightarrow> None
         | Some (Some (line0, line1), s1) \<Rightarrow>
             Some (link_keys_poll drv (link_push_row 1 line1 False (link_push_row 0 line0 False s1)))
         | Some (None, s1) \<Rightarrow> Some (link_keys_poll drv s1))
      else Some (link_keys_poll drv (s\<lparr>report_tick := report_tick s + 1\<rparr>)))"

section \<open>Session layer, start and stop\<close>

definition hht_session_open ::
    "'u uart_drv \<Rightarrow> u32 \<times> u32 \<times> u32 \<times> u32 \<Rightarrow> hht_type \<Rightarrow> 'u hht \<Rightarrow> (hht_session_result \<times> 'u hht) option" where
  "hht_session_open drv rnd ty s =
     (case ty of
        HHT_TYPE_100 \<Rightarrow> Some (hht_wb100_session_open drv rnd (hht_wb100_init drv s))
      | HHT_TYPE_3000 \<Rightarrow>
          (case hht_3000_session_open drv (hht_3000_init drv s) of
             None \<Rightarrow> None
           | Some (ok, s1) \<Rightarrow> Some (if ok then HHT_SESSION_OK else HHT_SESSION_ERR_UART, s1))
      | _ \<Rightarrow>
          (let (r, s1) = hht_wb100_session_open drv rnd (hht_wb100_init drv s)
           in Some (r, if r \<noteq> HHT_SESSION_OK then s1 else hht_wb100_post_verify_workflow drv s1)))"

definition hht_session_close :: "'u uart_drv \<Rightarrow> hht_type \<Rightarrow> 'u hht \<Rightarrow> 'u hht" where
  "hht_session_close drv ty s =
     (if ty = HHT_TYPE_3000 then hht_3000_session_close drv s else hht_wb100_session_close drv s)"

text \<open>The numbers of the enumeration give the comparison in \<open>hht_set_type\<close>.\<close>

fun hht_type_num :: "hht_type \<Rightarrow> nat" where
  "hht_type_num HHT_TYPE_WB100 = 0"
| "hht_type_num HHT_TYPE_3000 = 1"
| "hht_type_num HHT_TYPE_100 = 2"
| "hht_type_num HHT_TYPE_COUNT = 3"

instantiation hht_type :: linorder
begin

definition less_eq_hht_type :: "hht_type \<Rightarrow> hht_type \<Rightarrow> bool" where
  "less_eq_hht_type a b \<longleftrightarrow> hht_type_num a \<le> hht_type_num b"

definition less_hht_type :: "hht_type \<Rightarrow> hht_type \<Rightarrow> bool" where
  "less_hht_type a b \<longleftrightarrow> hht_type_num a < hht_type_num b"

instance
proof
  fix a b :: hht_type
  show "a \<le> b \<Longrightarrow> b \<le> a \<Longrightarrow> a = b"
    by (cases a; cases b) (simp_all add: less_eq_hht_type_def)
qed (auto simp: less_eq_hht_type_def less_hht_type_def)

end

definition hht_set_type :: "hht_type \<Rightarrow> 'u hht \<Rightarrow> 'u hht" where
  "hht_set_type ty s = (if ty < HHT_TYPE_COUNT then s\<lparr>hht_ty := ty\<rparr> else s)"

text \<open>\<open>ok\<close> is whether the semaphore and the task could be created.\<close>

definition hht_task_start :: "bool \<Rightarrow> 'u hht \<Rightarrow> 'u hht" where
  "hht_task_start ok s = (if hht_task_up s then s else s\<lparr>hht_task_up := ok\<rparr>)"

definition hht_task_stop :: "'u hht \<Rightarrow> 'u hht" where
  "hht_task_stop s = s\<lparr>hht_task_up := False\<rparr>"

definition hht_task_iteration :: "'u uart_drv \<Rightarrow> 'u hht \<Rightarrow> 'u hht option" where
  "hht_task_iteration drv s =
     (if hht_ty s = HHT_TYPE_3000 then hht_3000_poll drv s else Some (hht_wb100_poll drv s))"

definition hht_start :: "'u uart_drv \<Rightarrow> u32 \<times> u32 \<times> u32 \<times> u32 \<Rightarrow> bool \<Rightarrow> 'u hht \<Rightarrow> 'u hht option" where
  "hht_start drv rnd ok s =
     (if hht_running s then Some s
      else case hht_session_open drv rnd (hht_ty s) s of
             None \<Rightarrow> None
           | Some (r, s1) \<Rightarrow> Some ((hht_task_start ok s1)\<lparr>hht_running := True\<rparr>))"

definition hht_stop :: "'u uart_drv \<Rightarrow> 'u hht \<Rightarrow> 'u hht" where
  "hht_stop drv s =
     (if \<not> hht_running s then s
      else (hht_session_close drv (hht_ty s) (hht_task_stop s))\<lparr>hht_running := False\<rparr>)"

text \<open>
  The calls of the rest of the program and the iterations of the task, in any order. The random
  numbers and the outcome of creating the task are free.
\<close>

datatype hht_call = Set_Type hht_type | Start | Stop | Send u8 | Send_Long u8 | Task

inductive hht_trans :: "'u uart_drv \<Rightarrow> 'u hht \<Rightarrow> hht_call \<Rightarrow> 'u hht \<Rightarrow> bool" for drv where
  set_type: "hht_trans drv s (Set_Type ty) (hht_set_type ty s)"
| start: "hht_trans drv s Start s'" if "hht_start drv rnd ok s = Some s'"
| stop: "hht_trans drv s Stop (hht_stop drv s)"
| send: "hht_trans drv s (Send k) (s\<lparr>hht_key_state := hht_keys_send k (hht_key_state s)\<rparr>)"
| send_long: "hht_trans drv s (Send_Long k) (s\<lparr>hht_key_state := hht_keys_send_long k (hht_key_state s)\<rparr>)"
| task: "hht_trans drv s Task s'" if "hht_task_up s" "hht_task_iteration drv s = Some s'"

inductive_cases hht_transE: "hht_trans drv s c s'"

inductive hht_reach :: "'u uart_drv \<Rightarrow> 'u hht \<Rightarrow> bool" for drv where
  boot: "hht_reach drv (hht_boot u)"
| step: "hht_reach drv s'" if "hht_reach drv s" "hht_trans drv s c s'"

section \<open>What the operations keep\<close>

definition display_shape :: "hht_display \<Rightarrow> bool" where
  "display_shape d \<longleftrightarrow>
     length (s_lines d) = 4 \<and> (\<forall>l \<in> set (s_lines d). length l = 21) \<and>
     length (s_last_lines d) = 4 \<and> (\<forall>l \<in> set (s_last_lines d). length l = 21) \<and>
     length (row_dirty d) = 4 \<and> d_row d < 4 \<and> d_col d < 20"

definition parts_ok :: "'u hht \<Rightarrow> bool" where
  "parts_ok s \<longleftrightarrow> keys_inv (hht_key_state s) \<and> display_shape (hht_disp s)"

definition keeps :: "'u hht \<Rightarrow> 'u hht \<Rightarrow> bool" where
  "keeps s s' \<longleftrightarrow> hht_running s' = hht_running s \<and> hht_task_up s' = hht_task_up s \<and>
     hht_ty s' = hht_ty s \<and> uart_ready s' = uart_ready s \<and> (parts_ok s \<longrightarrow> parts_ok s')"

named_theorems keeps_intros \<open>operations that keep the control state and the shape of the parts\<close>

lemma keeps_refl [simp]: "keeps s s" by (simp add: keeps_def)

lemma keeps_trans [trans]: "keeps s t \<Longrightarrow> keeps t u \<Longrightarrow> keeps s u"
  by (simp add: keeps_def)

lemma shape_update_row:
  "\<forall>l \<in> set ls. length l = n \<Longrightarrow> length x = n \<Longrightarrow> \<forall>l \<in> set (ls[i := x]). length l = n"
  by (auto dest!: subsetD [OF set_update_subset_insert])

lemma display_byte_shape: "display_shape d \<Longrightarrow> display_shape (display_byte ty ch d)"
proof -
  assume s: "display_shape d"
  obtain r c where rc: "(if hht_display_get_rows ty = 2 \<and> hht_display_get_cols ty = 16
      then decode_cursor_2x16 (unat (ch AND 0x7F)) else decode_cursor_4x20 (unat (ch AND 0x7F))) = (r, c)"
    by fastforce
  show ?thesis
  proof (cases "ch AND 0x80 = 0")
    case False
    have "r < 4 \<and> c < 20"
      using rc [symmetric] cursor_in_range [of r c "unat (ch AND 0x7F)"] by (auto split: if_splits)
    then show ?thesis
      using s False rc by (simp add: display_byte_def Let_def display_shape_def)
  next
    case True
    have "\<forall>m \<in> set ((s_lines d)[d_row d := (s_lines d ! d_row d)[d_col d := ch]]). length m = 21"
      using s by (intro shape_update_row) (simp_all add: display_shape_def)
    then show ?thesis
      using s True by (auto simp: display_byte_def Let_def display_shape_def dims)
  qed
qed

lemma display_row_shape:
  assumes "display_shape (fst p)" "r < 4"
  shows "display_shape (fst (display_row ty r p))"
proof -
  obtain d outs where p: "p = (d, outs)" by (cases p)
  let ?cols = "hht_display_get_cols ty"
  let ?l = "(s_lines d ! r)[?cols := 0]"
  have l: "?cols < 21" "length (s_lines d ! r) = 21" "length (s_last_lines d ! r) = 21"
    using assms p by (auto simp: display_shape_def dims)
  have "length (cstr ?l) < 21"
    using cstr_cut [of ?cols ?l] length_cstr [of "take ?cols ?l"] l by simp
  then have "length (c_strcpy (s_last_lines d ! r) ?l) = 21" using l by (simp add: length_c_strcpy)
  then have "\<forall>m \<in> set ((s_last_lines d)[r := c_strcpy (s_last_lines d ! r) ?l]). length m = 21"
    using assms p by (intro shape_update_row) (simp_all add: display_shape_def)
  moreover have "\<forall>m \<in> set ((s_lines d)[r := ?l]). length m = 21"
    using assms p l by (intro shape_update_row) (simp_all add: display_shape_def)
  ultimately show ?thesis
    using assms p l by (simp add: display_shape_def display_row_def Let_def)
qed

lemma display_rows_shape:
  "display_shape d \<Longrightarrow> n \<le> 4 \<Longrightarrow> display_shape (fst (fold (display_row ty) [0..<n] (d, [])))"
  by (induction n) (simp_all add: display_row_shape)

lemma display_poll_shape: "display_shape d \<Longrightarrow> display_shape (fst (hht_display_poll ty rd d))"
proof -
  assume s: "display_shape d"
  have "display_shape (fold (display_byte ty) bs d)" for bs
    using s by (induction bs arbitrary: d) (auto intro: display_byte_shape)
  moreover have "hht_display_get_rows ty \<le> 4" by (simp add: dims)
  ultimately show ?thesis
    using s display_rows_shape by (auto simp: hht_display_poll_def split: option.splits)
qed

lemma push_row_shape:
  assumes "display_shape d"
  shows "display_shape (fst (hht_display_push_row_ascii ty row src force d))"
proof (cases "hht_display_get_rows ty \<le> row")
  case False
  define cols where "cols = hht_display_get_cols ty"
  define chars where "chars = map (\<lambda>c. if c \<noteq> 0 \<and> isprint_byte c then c else 32) (take cols src)"
  define line where "line = chars @ replicate (cols - length chars) 32 @ [0] @ drop (cols + 1) (s_lines d ! row)"
  define last where "last = take (cols + 1) line @ drop (cols + 1) (s_last_lines d ! row)"
  have l: "cols < 21" "row < 4" "length (s_lines d ! row) = 21" "length (s_last_lines d ! row) = 21"
    "length chars \<le> cols"
    using assms False by (auto simp: display_shape_def dims cols_def chars_def split: if_splits)
  have "length line = 21" "length last = 21" using l by (simp_all add: line_def last_def)
  then have "(\<forall>m \<in> set ((s_lines d)[row := line]). length m = 21) \<and>
      (\<forall>m \<in> set ((s_last_lines d)[row := last]). length m = 21)"
    using assms by (intro conjI shape_update_row) (simp_all add: display_shape_def)
  moreover have "fst (hht_display_push_row_ascii ty row src force d) \<in>
      {d\<lparr>s_lines := (s_lines d)[row := line]\<rparr>,
       d\<lparr>s_lines := (s_lines d)[row := line], s_last_lines := (s_last_lines d)[row := last]\<rparr>}"
    using False by (simp add: hht_display_push_row_ascii_def Let_def cols_def chars_def line_def last_def)
  ultimately show ?thesis using assms by (auto simp: display_shape_def)
qed (use assms in \<open>simp add: hht_display_push_row_ascii_def Let_def\<close>)

lemma keeps_emit [keeps_intros]: "keeps s (emit os s)"
  by (simp add: keeps_def emit_def parts_ok_def)

lemma keeps_uart [keeps_intros]:
  "keeps s (hht_uart_flush drv s)" "keeps s (hht_uart_flush_rx drv s)"
  "keeps s (snd (hht_uart_read drv len tm s))" "keeps s (snd (hht_uart_write drv bs s))"
  by (auto simp: keeps_def parts_ok_def hht_uart_flush_def hht_uart_flush_rx_def hht_uart_read_def
      hht_uart_write_def emit_def case_prod_beta Let_def)

lemma keeps_write_all [keeps_intros]: "keeps s (uart_write_all drv bss s)"
proof (induction bss arbitrary: s)
  case (Cons bs bss)
  from keeps_trans [OF keeps_uart(4) Cons.IH] show ?case by (simp add: uart_write_all_def)
qed (simp add: uart_write_all_def)

lemma keeps_keys_poll [keeps_intros]: "keeps s (link_keys_poll drv s)"
proof -
  let ?k = "fst (hht_keys_poll (hht_ty s) (hht_key_state s))"
  have "keeps s (s\<lparr>hht_key_state := ?k\<rparr>)"
    using keys_step_inv [of "hht_key_state s" "hht_ty s" Key_Poll] by (auto simp: keeps_def parts_ok_def)
  from keeps_trans [OF this keeps_write_all] show ?thesis
    by (simp add: link_keys_poll_def case_prod_beta Let_def)
qed

lemma keeps_push_row [keeps_intros]: "keeps s (link_push_row row src force s)"
proof -
  let ?d = "fst (hht_display_push_row_ascii (hht_ty s) row src force (hht_disp s))"
  have "keeps s (s\<lparr>hht_disp := ?d\<rparr>)"
    using push_row_shape by (auto simp: keeps_def parts_ok_def)
  from keeps_trans [OF this keeps_emit] show ?thesis
    by (simp add: link_push_row_def case_prod_beta Let_def)
qed

lemma keeps_display_poll [keeps_intros]: "keeps s (link_display_poll drv s)"
proof -
  let ?s1 = "snd (hht_uart_read drv 64 20 s)"
  let ?p = "hht_display_poll (hht_ty s) (fst (hht_uart_read drv 64 20 s)) (hht_disp ?s1)"
  let ?s2 = "emit (map (\<lambda>(r, l). Row r l) (snd ?p)) (?s1\<lparr>hht_disp := fst ?p\<rparr>)"
  let ?c = "hht_keys_cancel_short_on_display_change (hht_ty ?s2) (hht_key_state ?s2)"
  have "keeps ?s1 (?s1\<lparr>hht_disp := fst ?p\<rparr>)"
    using display_poll_shape by (auto simp: keeps_def parts_ok_def)
  from keeps_trans [OF keeps_trans [OF keeps_uart(3) this] keeps_emit] have 2: "keeps s ?s2" .
  have "keeps ?s2 (?s2\<lparr>hht_key_state := fst ?c\<rparr>)"
    using keys_step_inv [of "hht_key_state ?s2" "hht_ty ?s2" Key_Display_Change]
    by (auto simp: keeps_def parts_ok_def)
  from keeps_trans [OF keeps_trans [OF 2 this] keeps_write_all]
  have 3: "keeps s (uart_write_all drv (snd ?c) (?s2\<lparr>hht_key_state := fst ?c\<rparr>))" .
  show ?thesis
  proof (cases "snd ?p = []")
    case True
    then show ?thesis using 2 by (simp add: link_display_poll_def case_prod_beta Let_def)
  next
    case False
    then show ?thesis using 3 by (simp add: link_display_poll_def case_prod_beta Let_def)
  qed
qed

lemma keeps_report:
  "request_report drv s = Some (r, s') \<Longrightarrow> keeps s s'"
proof -
  let ?s1 = "uart_write_all drv [[HHT3K_CMD_REPORT]] (hht_uart_flush_rx drv s)"
  have "keeps s ?s1" by (rule keeps_trans [OF keeps_uart(2) keeps_write_all])
  then have "keeps s (snd (hht_uart_read drv 96 100 ?s1))" by (rule keeps_trans [OF _ keeps_uart(3)])
  then show "request_report drv s = Some (r, s') \<Longrightarrow> keeps s s'"
    by (auto simp: request_report_def hht_3000_read_report_lines_def Let_def case_prod_beta
        split: option.splits if_splits)
qed

lemma keeps_sync [keeps_intros]: "hht_3000_ble_sync_initial drv s = Some s' \<Longrightarrow> keeps s s'"
  using keeps_trans [OF keeps_report [of drv s] keeps_trans [OF keeps_push_row keeps_push_row]]
  by (auto simp: hht_3000_ble_sync_initial_def split: option.splits prod.splits)

lemma keeps_3000_open [keeps_intros]:
  assumes "hht_3000_session_open drv s = Some (ok, s')"
  shows "keeps s s'"
proof -
  let ?s1 = "snd (hht_uart_write drv [HHT3K_MODE_HHT2K, HHT3K_SUB_SNIFF] (hht_uart_flush drv s))"
  have 1: "keeps s ?s1" by (rule keeps_trans [OF keeps_uart(1,4)])
  then have "keeps s (snd (hht_uart_read drv 64 60 ?s1))" by (rule keeps_trans [OF _ keeps_uart(3)])
  from 1 keeps_trans [OF this keeps_sync] show ?thesis
    using assms by (auto simp: hht_3000_session_open_def Let_def case_prod_beta split: if_splits)
qed

lemma keeps_3000_poll: "hht_3000_poll drv s = Some s' \<Longrightarrow> keeps s s'"
proof -
  have t: "keeps s (s\<lparr>report_tick := n\<rparr>)" for n by (simp add: keeps_def parts_ok_def)
  note push = keeps_trans [OF keeps_push_row keeps_push_row]
  show "hht_3000_poll drv s = Some s' \<Longrightarrow> keeps s s'"
    using keeps_trans [OF t keeps_report]
    by (auto simp: hht_3000_poll_def split: option.splits prod.splits if_splits
        intro: keeps_trans [OF t keeps_keys_poll] keeps_trans [OF _ keeps_keys_poll]
          keeps_trans [OF _ keeps_trans [OF push keeps_keys_poll]])
qed

lemma keeps_wb100_read [keeps_intros]: "keeps s (snd (wb100_read_loop drv n resp s))"
proof (induction n arbitrary: resp s)
  case (Suc n)
  show ?case
    using keeps_trans [OF keeps_uart(3) Suc.IH] by (simp add: Let_def case_prod_beta keeps_uart(3))
qed simp

lemma keeps_wb100_open [keeps_intros]: "keeps s (snd (hht_wb100_session_open drv rnd s))"
proof -
  have "keeps s (snd (hht_uart_write drv (make_session rnd) (hht_uart_flush drv s)))"
    by (rule keeps_trans [OF keeps_uart(1,4)])
  with keeps_trans [OF this keeps_wb100_read] show ?thesis
    by (simp add: hht_wb100_session_open_def Let_def case_prod_beta)
qed

lemma keeps_project [keeps_intros]: "keeps s (wb100_project_loop drv n s)"
proof (induction n arbitrary: s)
  case (Suc n)
  show ?case
    by (simp add: Let_def case_prod_beta keeps_trans [OF keeps_emit Suc.IH]
        keeps_trans [OF keeps_uart(3) keeps_emit])
qed simp

lemma keeps_post_verify [keeps_intros]: "keeps s (hht_wb100_post_verify_workflow drv s)"
  unfolding hht_wb100_post_verify_workflow_def Let_def
  by (rule keeps_trans [OF keeps_trans [OF keeps_trans [OF keeps_trans [OF keeps_emit keeps_write_all]
          keeps_uart(1)] keeps_write_all] keeps_project])

lemma keeps_wb100_poll: "keeps s (hht_wb100_poll drv s)"
proof -
  have t: "keeps s (s\<lparr>s_key_tick_div := n\<rparr>)" for n by (simp add: keeps_def parts_ok_def)
  show ?thesis
    using keeps_trans [OF keeps_trans [OF t keeps_keys_poll] keeps_display_poll]
      keeps_trans [OF t keeps_display_poll]
    by (simp add: hht_wb100_poll_def Let_def)
qed

section \<open>Reachable states\<close>

definition link_inv :: "'u hht \<Rightarrow> bool" where
  "link_inv s \<longleftrightarrow> keys_inv (hht_key_state s) \<and> display_shape (hht_disp s) \<and>
     (hht_task_up s \<longrightarrow> hht_running s) \<and> (hht_running s \<longrightarrow> uart_ready s)"

lemma keeps_link_inv: "keeps s s' \<Longrightarrow> link_inv s \<Longrightarrow> link_inv s'"
  by (simp add: keeps_def parts_ok_def link_inv_def)

lemma init_shape: "display_shape d \<Longrightarrow> display_shape (hht_display_init d)"
  by (simp add: display_shape_def hht_display_init_def HHT_ROWS_MAX_def HHT_COLS_MAX_def)

lemma init_link:
  "link_inv s \<Longrightarrow> link_inv (hht_wb100_init drv s) \<and> uart_ready (hht_wb100_init drv s)"
  "link_inv s \<Longrightarrow> link_inv (hht_3000_init drv s) \<and> uart_ready (hht_3000_init drv s)"
  by (auto simp: link_inv_def hht_wb100_init_def hht_3000_init_def hht_uart_init_def hht_uart_init_3000_def
      init_shape keys_init_inv Let_def)

lemma session_open_link:
  assumes "link_inv s" "hht_session_open drv rnd ty s = Some (r, s')"
  shows "link_inv s' \<and> uart_ready s' \<and> hht_task_up s' = hht_task_up s \<and> hht_running s' = hht_running s"
proof (cases "ty = HHT_TYPE_3000")
  case True
  with assms(2) obtain ok where "hht_3000_session_open drv (hht_3000_init drv s) = Some (ok, s')"
    by (auto simp: hht_session_open_def split: option.splits)
  from keeps_3000_open [OF this] have k: "keeps (hht_3000_init drv s) s'" .
  moreover have "link_inv s'" using keeps_link_inv [OF k] init_link(2) [OF assms(1)] by blast
  ultimately show ?thesis
    by (simp add: keeps_def hht_3000_init_def hht_uart_init_3000_def Let_def)
next
  case False
  let ?i = "hht_wb100_init drv s"
  let ?s1 = "snd (hht_wb100_session_open drv rnd ?i)"
  have "s' = ?s1 \<or> s' = hht_wb100_post_verify_workflow drv ?s1"
    using assms(2) False by (auto simp: hht_session_open_def Let_def case_prod_beta split: hht_type.splits if_splits)
  then have k: "keeps ?i s'"
    by (elim disjE) (simp_all only: keeps_wb100_open keeps_trans [OF keeps_wb100_open keeps_post_verify])
  moreover have "link_inv s'" using keeps_link_inv [OF k] init_link(1) [OF assms(1)] by blast
  ultimately show ?thesis
    by (simp add: keeps_def hht_wb100_init_def hht_uart_init_def Let_def)
qed

lemma start_link:
  assumes "link_inv s" "hht_start drv rnd ok s = Some s'"
  shows "link_inv s'"
proof (cases "hht_running s")
  case False
  with assms(2) obtain r s1 where "hht_session_open drv rnd (hht_ty s) s = Some (r, s1)"
    "s' = (hht_task_start ok s1)\<lparr>hht_running := True\<rparr>"
    by (auto simp: hht_start_def split: option.splits)
  with session_open_link [OF assms(1) this(1)] show ?thesis
    by (auto simp: link_inv_def hht_task_start_def)
qed (use assms in \<open>simp add: hht_start_def\<close>)

lemma stop_link:
  assumes "link_inv s"
  shows "link_inv (hht_stop drv s)"
proof -
  let ?s = "hht_task_stop s"
  have "keeps ?s (hht_uart_flush drv (uart_write_all drv [[HHT3K_CMD_EXIT]] ?s))"
    by (rule keeps_trans [OF keeps_write_all keeps_uart(1)])
  with keeps_uart(1) [of ?s drv] assms show ?thesis
    by (auto simp: hht_stop_def hht_session_close_def hht_3000_session_close_def hht_uart_deinit_def
        hht_wb100_session_close_def link_inv_def keeps_def parts_ok_def hht_task_stop_def)
qed

lemma trans_link:
  assumes "hht_trans drv s c s'" "link_inv s"
  shows "link_inv s'"
  using assms
proof cases
  case (set_type ty)
  then show ?thesis using assms(2) by (simp add: hht_set_type_def link_inv_def)
next
  case (start rnd ok)
  then show ?thesis using start_link assms(2) by blast
next
  case stop
  then show ?thesis using stop_link assms(2) by blast
next
  case (send k)
  then show ?thesis
    using assms(2) keys_step_inv [of "hht_key_state s" undefined "Key_Send k"] by (simp add: link_inv_def)
next
  case (send_long k)
  then show ?thesis
    using assms(2) keys_step_inv [of "hht_key_state s" undefined "Key_Send_Long k"] by (simp add: link_inv_def)
next
  case task
  then have "keeps s s'"
    by (auto simp: hht_task_iteration_def keeps_wb100_poll keeps_3000_poll split: if_splits)
  then show ?thesis using assms(2) by (rule keeps_link_inv)
qed

lemma boot_link: "link_inv (hht_boot u)"
  by (simp add: link_inv_def hht_boot_def keys_init_inv display_shape_def display_statics_def
      HHT_ROWS_MAX_def HHT_COLS_MAX_def)

section \<open>Properties\<close>

text \<open>C17: The link stays consistent. In every state reachable from power up by the calls of the program and
  iterations of the task in any order, with any UART driver: the task only exists while the
  terminal is running, the UART is installed while it runs, the display arrays keep their sizes
  with the cursor inside them (also when the terminal type is switched in between), and the key
  variables are consistent.\<close>

theorem link_invariant:
  assumes "hht_reach drv s"
  shows "link_inv s"
  using assms
proof induction
  case (boot u)
  show ?case by (rule boot_link)
next
  case (step s s' c)
  then show ?case using trans_link by blast
qed

text \<open>A concrete terminal for the witnesses: a list of the answers to the reads to come.\<close>

definition script_drv :: "bytes list uart_drv" where
  "script_drv = \<lparr>drv_install = (\<lambda>_ u. u), drv_delete = (\<lambda>u. u), drv_flush = (\<lambda>u. u), drv_flush_input = (\<lambda>u. u),
     drv_buffered = (\<lambda>u. Some (case u of [] \<Rightarrow> 0 | c # _ \<Rightarrow> length c)),
     drv_read = (\<lambda>u n t. case u of [] \<Rightarrow> (Some [], []) | c # cs \<Rightarrow> (Some (take n c), cs)),
     drv_write = (\<lambda>u bs. (int (length bs), u))\<rparr>"

lemma link_invariant_witness:
  "\<exists>s. hht_reach script_drv s \<and> hht_running s \<and> link_inv s"
proof -
  let ?s0 = "hht_boot [] :: bytes list hht"
  obtain s1 where s1: "hht_start script_drv (1, 2, 3, 4) True ?s0 = Some s1"
    by (auto simp: hht_start_def hht_boot_def hht_session_open_def Let_def case_prod_beta)
  have r: "hht_reach script_drv s1"
    by (rule hht_reach.step [OF hht_reach.boot hht_trans.start [OF s1]])
  have "hht_running s1" using s1 by (auto simp: hht_start_def split: option.splits if_splits)
  with r link_invariant [OF r] show ?thesis by blast
qed

text \<open>
  What a terminal answers: from driver state \<open>u\<close> the coming reads return the chunks \<open>cs\<close>, as long as
  each fits into the room given for it.
\<close>

fun answers :: "'u uart_drv \<Rightarrow> 'u \<Rightarrow> bytes list \<Rightarrow> bool" where
  "answers drv u [] \<longleftrightarrow> True"
| "answers drv u (c # cs) \<longleftrightarrow>
     (\<forall>n t. length c \<le> n \<longrightarrow>
        fst (drv_read drv u n t) = Some c \<and> answers drv (snd (drv_read drv u n t)) cs)"

lemma read_loop_answers:
  "uart_ready s \<Longrightarrow> answers drv (uart_state s) cs \<Longrightarrow> length resp < 8 \<Longrightarrow>
   length resp + length (concat cs) \<le> 8 \<Longrightarrow>
   fst (wb100_read_loop drv (length cs) resp s) = resp @ concat cs"
proof (induction cs arbitrary: resp s)
  case (Cons c cs)
  let ?u = "snd (drv_read drv (uart_state s) (8 - length resp) 100)"
  have rd: "hht_uart_read drv (8 - length resp) 100 s = (Some c, s\<lparr>uart_state := ?u\<rparr>)"
    and nxt: "answers drv ?u cs"
    using Cons.prems by (simp_all add: hht_uart_read_def case_prod_beta)
  show ?case
  proof (cases "8 \<le> length (resp @ c)")
    case True
    then have "length (concat cs) = 0" using Cons.prems(4) unfolding concat.simps length_append by linarith
    then have "concat cs = []" by (simp only: length_0_conv)
    moreover have "c \<noteq> []" using True Cons.prems(3) by auto
    ultimately show ?thesis using True rd by (simp add: Let_def del: concat_eq_Nil_conv)
  next
    case False
    with Cons.IH [of "s\<lparr>uart_state := ?u\<rparr>" "resp @ c"] Cons.prems rd nxt show ?thesis
      by (simp add: Let_def)
  qed
qed simp

text \<open>The WB100 handshake does not depend on how the answer arrives. When the request could be written
  and the terminal's answer of at most eight bytes comes in any five pieces (empty ones for reads
  that time out), the session opens exactly if there are eight bytes that pass the CRC check;
  fewer bytes are a timeout and a wrong CRC is a protocol error.\<close>

theorem wb100_open_answer:
  assumes "uart_ready s" "drv_write drv (drv_flush drv (uart_state s)) (make_session rnd) = (8, u)"
    and "answers drv u cs" "length cs = 5" "length (concat cs) \<le> 8"
  shows "fst (hht_wb100_session_open drv rnd s) =
    (if length (concat cs) < 8 then HHT_SESSION_ERR_TIMEOUT
     else if verify_session (concat cs) then HHT_SESSION_OK else HHT_SESSION_ERR_PROTOCOL)"
proof -
  have len: "length (make_session rnd) = 8" by (rule length_make_session)
  define s1 where "s1 = emit [Tx (make_session rnd)] (s\<lparr>uart_state := u\<rparr>)"
  have w: "hht_uart_write drv (make_session rnd) (hht_uart_flush drv s) = (8, s1)"
    using assms(1,2) by (simp add: hht_uart_write_def hht_uart_flush_def s1_def)
  have "fst (wb100_read_loop drv 5 [] s1) = concat cs"
    using read_loop_answers [of s1 drv cs "[]"] assms by (simp add: s1_def emit_def)
  then show ?thesis
    using w len assms(5) by (simp add: hht_wb100_session_open_def Let_def case_prod_beta HHT_SESSION_WB100_RETRY_MAX_def)
qed

lemma wb100_open_answer_witness:
  "fst (hht_wb100_session_open script_drv (1, 2, 3, 4)
     (hht_uart_init script_drv (hht_boot [[1, 2, 0xE1], [], [0x81, 3], [4, 0x83, 0], []]))) = HHT_SESSION_OK"
proof -
  let ?cs = "[[1, 2, 0xE1], [], [0x81, 3], [4, 0x83, 0], []] :: bytes list"
  let ?s = "hht_uart_init script_drv (hht_boot ?cs)"
  have a: "answers script_drv ?cs ?cs" by (simp add: script_drv_def)
  have "uart_ready ?s"
    "drv_write script_drv (drv_flush script_drv (uart_state ?s)) (make_session (1, 2, 3, 4)) = (8, ?cs)"
    by (simp_all add: hht_uart_init_def hht_boot_def script_drv_def length_make_session)
  from wb100_open_answer [OF this a]
  have "fst (hht_wb100_session_open script_drv (1, 2, 3, 4) ?s) =
      (if verify_session (concat ?cs) then HHT_SESSION_OK else HHT_SESSION_ERR_PROTOCOL)"
    by simp
  moreover have "verify_session (concat ?cs)" by code_simp
  ultimately show ?thesis by simp
qed

section \<open>Reports of the HHT-3000\<close>

definition report :: "bytes \<Rightarrow> bytes \<Rightarrow> bytes" where
  "report line0 line1 = REPORT_PREFIX0 @ line0 @ REPORT_PREFIX1 @ line1 @ REPORT_SUFFIX"

definition report_line :: "bytes \<Rightarrow> bool" where
  "report_line l \<longleftrightarrow> length l = HHT3K_LINE_LEN \<and> (\<forall>c \<in> set l. isprint_byte c)"

lemma printable_facts: "isprint_byte c \<Longrightarrow> c \<noteq> 0 \<and> c \<noteq> 13"
  by (auto simp: isprint_byte_def)

lemma report_line_clean: "report_line l \<Longrightarrow> report_clean l = l"
  using printable_facts by (auto simp: report_line_def report_clean_def intro: map_idI)

lemma report_parse_report:
  assumes "report_line l0" "report_line l1" "0 \<notin> set rest"
  shows "report_parse (report l0 l1 @ rest) = Some (l0, l1)"
proof -
  have n: "0 \<notin> set l0" "0 \<notin> set l1" "13 \<notin> set l0" "13 \<notin> set l1"
    using assms printable_facts by (auto simp: report_line_def)
  have len: "length l0 = 16" "length l1 = 16" using assms by (simp_all add: report_line_def HHT3K_LINE_LEN_def)
  let ?r = "report l0 l1 @ rest"
  have p: "cstr ?r = REPORT_PREFIX0 @ l0 @ REPORT_PREFIX1 @ l1 @ REPORT_SUFFIX @ rest"
    using n assms(3) by (subst cstr_all) (simp_all add: report_def REPORT_PREFIX0_def REPORT_PREFIX1_def REPORT_SUFFIX_def)
  have 0: "strstr REPORT_PREFIX0 (cstr ?r) = Some 0"
    using strstr_skip [of "[]" REPORT_PREFIX0] p by simp
  have 1: "strstr REPORT_PREFIX1 (l0 @ REPORT_PREFIX1 @ l1 @ REPORT_SUFFIX @ rest) = Some 16"
    using strstr_head_free [of REPORT_PREFIX1 13 "[10, 49, 58]" l0] n len by (simp add: REPORT_PREFIX1_def)
  have 2: "strstr REPORT_SUFFIX (l1 @ REPORT_SUFFIX @ rest) = Some 16"
    using strstr_head_free [of REPORT_SUFFIX 13 "[10]" l1] n len by (simp add: REPORT_SUFFIX_def)
  show ?thesis
    using 0 1 2 len report_line_clean assms(1,2)
    by (simp add: report_parse_def p HHT3K_LINE_LEN_def)
qed

lemma push_row_line:
  assumes "display_shape d" "row < 2" "report_line l"
    and "hht_display_push_row_ascii HHT_TYPE_3000 row l force d = (d', outs)"
  shows "display_shape d' \<and> take 16 (s_lines d' ! row) = l \<and> (\<forall>q. q \<noteq> row \<longrightarrow> s_lines d' ! q = s_lines d ! q)"
proof -
  have "map (\<lambda>c. if c \<noteq> 0 \<and> isprint_byte c then c else 32) l = l"
    using assms(3) printable_facts by (auto simp: report_line_def intro: map_idI)
  moreover have "length (s_lines d) = 4" using assms(1) by (simp add: display_shape_def)
  ultimately have "s_lines d' = (s_lines d)[row := l @ 0 # drop 17 (s_lines d ! row)]"
    using assms(2-4) by (auto simp: hht_display_push_row_ascii_def Let_def dims report_line_def
        HHT3K_LINE_LEN_def split: if_splits)
  then show ?thesis
    using assms push_row_shape [OF assms(1), of HHT_TYPE_3000 row l force]
    by (auto simp: report_line_def HHT3K_LINE_LEN_def display_shape_def)
qed

text \<open>C18: A report reaches the display. When a poll of the HHT-3000 is due to ask for a report and the
  terminal replies with two lines of 16 printable characters (with anything behind them, as long
  as the reply is shorter than the 96 byte buffer and has no NUL), the two rows of the display
  are afterwards exactly these lines.\<close>

theorem report_displayed:
  assumes "link_inv s" "uart_ready s" "hht_ty s = HHT_TYPE_3000" "report_tick s = 9"
    and "report_line l0" "report_line l1" "0 \<notin> set rest" "length rest < 56"
    and "\<forall>u. drv_read drv u 96 100 = (Some (report l0 l1 @ rest), u)"
  shows "\<exists>s'. hht_3000_poll drv s = Some s' \<and> take 16 (s_lines (hht_disp s') ! 0) = l0 \<and>
    take 16 (s_lines (hht_disp s') ! 1) = l1"
proof -
  define s1 where "s1 = uart_write_all drv [[HHT3K_CMD_REPORT]] (hht_uart_flush_rx drv (s\<lparr>report_tick := 0\<rparr>))"
  have "keeps (s\<lparr>report_tick := 0\<rparr>) s1"
    unfolding s1_def by (rule keeps_trans [OF keeps_uart(2) keeps_write_all])
  then have s1: "uart_ready s1" "hht_ty s1 = HHT_TYPE_3000" "display_shape (hht_disp s1)"
    using assms(1-3) by (auto simp: keeps_def parts_ok_def link_inv_def)
  have len: "length (report l0 l1 @ rest) < 96"
    using assms(5,6,8) by (simp add: report_def report_line_def model_simps)
  have ne: "report l0 l1 @ rest \<noteq> []" by (simp add: report_def REPORT_PREFIX0_def)
  have r: "request_report drv (s\<lparr>report_tick := 0\<rparr>) = Some (Some (l0, l1), s1)"
    using len ne s1(1) assms(9) report_parse_report [OF assms(5-7)]
    by (simp add: request_report_def hht_3000_read_report_lines_def hht_uart_read_def flip: s1_def)
  obtain d2 o2 where d2: "hht_display_push_row_ascii HHT_TYPE_3000 0 l0 False (hht_disp s1) = (d2, o2)" by fastforce
  obtain d3 o3 where d3: "hht_display_push_row_ascii HHT_TYPE_3000 1 l1 False d2 = (d3, o3)" by fastforce
  have 2: "display_shape d2" "take 16 (s_lines d2 ! 0) = l0"
    using push_row_line [OF s1(3) _ assms(5) d2] by simp_all
  have 3: "take 16 (s_lines d3 ! 1) = l1" "s_lines d3 ! 0 = s_lines d2 ! 0"
    using push_row_line [OF 2(1) _ assms(6) d3] by simp_all
  define s3 where "s3 = link_push_row 1 l1 False (link_push_row 0 l0 False s1)"
  have "hht_disp s3 = d3" using d2 d3 s1(2) by (simp add: s3_def link_push_row_def emit_def)
  moreover have "hht_disp (uart_write_all drv bss t) = hht_disp t" for bss t
    by (induction bss arbitrary: t)
      (auto simp: uart_write_all_def hht_uart_write_def emit_def case_prod_beta Let_def)
  ultimately have "hht_disp (link_keys_poll drv s3) = d3"
    by (simp add: link_keys_poll_def case_prod_beta Let_def)
  then show ?thesis
    using r assms(4) 2 3 by (simp add: hht_3000_poll_def REPORT_INTERVAL_TICKS_def s3_def)
qed

definition report_drv :: "bytes \<Rightarrow> unit uart_drv" where
  "report_drv r = \<lparr>drv_install = (\<lambda>_ u. u), drv_delete = (\<lambda>u. u), drv_flush = (\<lambda>u. u), drv_flush_input = (\<lambda>u. u),
     drv_buffered = (\<lambda>u. Some (length r)), drv_read = (\<lambda>u n t. (Some (take n r), u)),
     drv_write = (\<lambda>u bs. (int (length bs), u))\<rparr>"

lemma report_displayed_witness:
  "\<exists>s'. hht_3000_poll (report_drv (report (replicate 16 65) (replicate 16 66) @ [13]))
       ((hht_3000_init (report_drv (report (replicate 16 65) (replicate 16 66) @ [13])) (hht_boot ()))
          \<lparr>hht_ty := HHT_TYPE_3000, report_tick := 9\<rparr>) = Some s' \<and>
     take 16 (s_lines (hht_disp s') ! 0) = replicate 16 65 \<and>
     take 16 (s_lines (hht_disp s') ! 1) = replicate 16 66"
proof (rule report_displayed)
  let ?r = "report (replicate 16 65) (replicate 16 66) @ [13]"
  have "link_inv (hht_3000_init (report_drv ?r) (hht_boot ()))"
    "uart_ready (hht_3000_init (report_drv ?r) (hht_boot ()))"
    using init_link(2) [OF boot_link, of "report_drv ?r" "()"] by auto
  then show "link_inv ((hht_3000_init (report_drv ?r) (hht_boot ()))\<lparr>hht_ty := HHT_TYPE_3000, report_tick := 9\<rparr>)"
    "uart_ready ((hht_3000_init (report_drv ?r) (hht_boot ()))\<lparr>hht_ty := HHT_TYPE_3000, report_tick := 9\<rparr>)"
    by (simp_all add: link_inv_def)
  have "length ?r = 41" by (simp add: report_def REPORT_PREFIX0_def REPORT_PREFIX1_def REPORT_SUFFIX_def)
  then show "\<forall>u. drv_read (report_drv ?r) u 96 100 = (Some ?r, u)" by (simp add: report_drv_def)
qed (simp_all add: report_line_def HHT3K_LINE_LEN_def isprint_byte_def)

end
