(* ===== verification/Ble_Cmd.thy ===== *)
theory Ble_Cmd
  imports Hht_Link Fw_Manager
begin

text \<open>
  Commands from the phone (\<open>ble_cmd_parser.c\<close>) and the roles they start and stop
  (\<open>role_dispatcher.c\<close>, \<open>task_manager.c\<close>). The state is the active role with its source and the
  states of the components the commands reach: the terminal link, the upload manager, the legacy
  transfer context and the pending file of the TCP server. Answers go to the trace of the link.
  What comes from outside (drivers, directory listings, addresses, clock, formatting a volume) is
  the environment record; logs and the view flags of the console are left out.
\<close>

section \<open>Command codes\<close>

definition CMD_HANDLE_PHONE_ESP32 :: u16 where [model_simps]: "CMD_HANDLE_PHONE_ESP32 = 0x0005"
definition CMD_PROGRAM_ENTER_WIFI_ESP32 :: u16 where [model_simps]: "CMD_PROGRAM_ENTER_WIFI_ESP32 = 0x0040"
definition ACK_PROGRAM_ENTER_WIFI_ESP32 :: u16 where [model_simps]: "ACK_PROGRAM_ENTER_WIFI_ESP32 = 0x8040"
definition CMD_PROGRAM_ENTER_PHONE_ESP32 :: u16 where [model_simps]: "CMD_PROGRAM_ENTER_PHONE_ESP32 = 0x0050"
definition ACK_PROGRAM_ENTER_PHONE_ESP32 :: u16 where [model_simps]: "ACK_PROGRAM_ENTER_PHONE_ESP32 = 0x8050"
definition CMD_PROGRAM_WRITE_PHONE_ESP32 :: u16 where [model_simps]: "CMD_PROGRAM_WRITE_PHONE_ESP32 = 0x0051"
definition ACK_PROGRAM_WRITE_PHONE_ESP32 :: u16 where [model_simps]: "ACK_PROGRAM_WRITE_PHONE_ESP32 = 0x8051"
definition CMD_PROGRAM_INTERFACE_RESET_PHONE_ESP32 :: u16 where [model_simps]: "CMD_PROGRAM_INTERFACE_RESET_PHONE_ESP32 = 0x0052"
definition ACK_PROGRAM_INTERFACE_RESET_PHONE_ESP32 :: u16 where [model_simps]: "ACK_PROGRAM_INTERFACE_RESET_PHONE_ESP32 = 0x8052"
definition CMD_PROGRAM_STOP_PHONE_ESP32 :: u16 where [model_simps]: "CMD_PROGRAM_STOP_PHONE_ESP32 = 0x0053"
definition ACK_PROGRAM_STOP_PHONE_ESP32 :: u16 where [model_simps]: "ACK_PROGRAM_STOP_PHONE_ESP32 = 0x8053"
definition CMD_PROGRAM_START_PHONE_ESP32 :: u16 where [model_simps]: "CMD_PROGRAM_START_PHONE_ESP32 = 0x0054"
definition ACK_PROGRAM_START_PHONE_ESP32 :: u16 where [model_simps]: "ACK_PROGRAM_START_PHONE_ESP32 = 0x8054"
definition CMD_UPDATE_TYPE_PHONE_ESP32 :: u16 where [model_simps]: "CMD_UPDATE_TYPE_PHONE_ESP32 = 0x0055"
definition ACK_PROGRAM_STATUS_PHONE_ESP32 :: u16 where [model_simps]: "ACK_PROGRAM_STATUS_PHONE_ESP32 = 0x8056"
definition CMD_PROGRAM_PROGRESS_MSG :: u16 where [model_simps]: "CMD_PROGRAM_PROGRESS_MSG = 0x0057"
definition ACK_PROGRAM_PROGRESS_MSG_ESP32 :: u16 where [model_simps]: "ACK_PROGRAM_PROGRESS_MSG_ESP32 = 0x8057"
definition CMD_START_HHT_100 :: u16 where [model_simps]: "CMD_START_HHT_100 = 0x0061"
definition ACK_START_HHT_100 :: u16 where [model_simps]: "ACK_START_HHT_100 = 0x8061"
definition CMD_STOP_HHT_100 :: u16 where [model_simps]: "CMD_STOP_HHT_100 = 0x0062"
definition ACK_STOP_HHT_100 :: u16 where [model_simps]: "ACK_STOP_HHT_100 = 0x8062"
definition CMD_HHT_MSG_100 :: u16 where [model_simps]: "CMD_HHT_MSG_100 = 0x8063"
definition CMD_HHT_BTN :: u16 where [model_simps]: "CMD_HHT_BTN = 0x0064"
definition ACK_HHT_BTN :: u16 where [model_simps]: "ACK_HHT_BTN = 0x8064"
definition CMD_HHT_PARAMS :: u16 where [model_simps]: "CMD_HHT_PARAMS = 0x0065"
definition CMD_HHT_VER_CP_100 :: u16 where [model_simps]: "CMD_HHT_VER_CP_100 = 0x0067"
definition CMD_HHT_VER_INV_100 :: u16 where [model_simps]: "CMD_HHT_VER_INV_100 = 0x0068"
definition CMD_HHT_PRAMS_INV :: u16 where [model_simps]: "CMD_HHT_PRAMS_INV = 0x0069"
definition CMD_ESP32_ADV_RENAME :: u16 where [model_simps]: "CMD_ESP32_ADV_RENAME = 0x0071"
definition ACK_CMD_ESP32_ADV_RENAME :: u16 where [model_simps]: "ACK_CMD_ESP32_ADV_RENAME = 0x8071"
definition CMD_ESP32_VERSION_INFO :: u16 where [model_simps]: "CMD_ESP32_VERSION_INFO = 0x0072"
definition ACK_CMD_ESP32_VERSION_INFO :: u16 where [model_simps]: "ACK_CMD_ESP32_VERSION_INFO = 0x0072"
definition CMD_MCU_VERSION_INFO :: u16 where [model_simps]: "CMD_MCU_VERSION_INFO = 0x0073"
definition ACK_CMD_MCU_VERSION_INFO :: u16 where [model_simps]: "ACK_CMD_MCU_VERSION_INFO = 0x0073"
definition CMD_MIRI_DIAGNOSIS_REQ :: u16 where [model_simps]: "CMD_MIRI_DIAGNOSIS_REQ = 0x0074"
definition CMD_MAC_BT_INFO :: u16 where [model_simps]: "CMD_MAC_BT_INFO = 0x0075"
definition ACK_MAC_BT_INFO :: u16 where [model_simps]: "ACK_MAC_BT_INFO = 0x8075"
definition CMD_MIRI_REBOOT :: u16 where [model_simps]: "CMD_MIRI_REBOOT = 0x0100"
definition ACK_MIRI_REBOOT :: u16 where [model_simps]: "ACK_MIRI_REBOOT = 0x8100"
definition CMD_UPDATE_INFO_MOBILE :: u16 where [model_simps]: "CMD_UPDATE_INFO_MOBILE = 0x0103"
definition ACK_UPDATE_INFO_MOBILE :: u16 where [model_simps]: "ACK_UPDATE_INFO_MOBILE = 0x8103"
definition CMD_SDMMC_PROGRAM_ENTER :: u16 where [model_simps]: "CMD_SDMMC_PROGRAM_ENTER = 0x0104"
definition ACK_SDMMC_PROGRAM_ENTER :: u16 where [model_simps]: "ACK_SDMMC_PROGRAM_ENTER = 0x8104"
definition CMD_SDMMC_PROGRAM_LIST :: u16 where [model_simps]: "CMD_SDMMC_PROGRAM_LIST = 0x0105"
definition ACK_SDMMC_PROGRAM_LIST :: u16 where [model_simps]: "ACK_SDMMC_PROGRAM_LIST = 0x8105"
definition CMD_FAT_FILE_LIST :: u16 where [model_simps]: "CMD_FAT_FILE_LIST = 0x0106"
definition ACK_FAT_FILE_LIST :: u16 where [model_simps]: "ACK_FAT_FILE_LIST = 0x8106"
definition CMD_SDMMC_FORMAT :: u16 where [model_simps]: "CMD_SDMMC_FORMAT = 0x0107"
definition ACK_SDMMC_FORMAT :: u16 where [model_simps]: "ACK_SDMMC_FORMAT = 0x8107"
definition CMD_FAT_FORMAT :: u16 where [model_simps]: "CMD_FAT_FORMAT = 0x0108"
definition ACK_FAT_FORMAT :: u16 where [model_simps]: "ACK_FAT_FORMAT = 0x8108"
definition CMD_SDMMC_DELETE_FILE :: u16 where [model_simps]: "CMD_SDMMC_DELETE_FILE = 0x0109"
definition ACK_SDMMC_DELETE_FILE :: u16 where [model_simps]: "ACK_SDMMC_DELETE_FILE = 0x8109"
definition CMD_FAT_DELETE_FILE :: u16 where [model_simps]: "CMD_FAT_DELETE_FILE = 0x0110"
definition ACK_FAT_DELETE_FILE :: u16 where [model_simps]: "ACK_FAT_DELETE_FILE = 0x8110"
definition CMD_HHT_FDC :: u16 where [model_simps]: "CMD_HHT_FDC = 0x0121"
definition CMD_START_HHT_WB100 :: u16 where [model_simps]: "CMD_START_HHT_WB100 = 0x0201"
definition CMD_STOP_HHT_WB100 :: u16 where [model_simps]: "CMD_STOP_HHT_WB100 = 0x0202"
definition CMD_START_HHT_3000 :: u16 where [model_simps]: "CMD_START_HHT_3000 = 0x0203"
definition CMD_STOP_HHT_3000 :: u16 where [model_simps]: "CMD_STOP_HHT_3000 = 0x0204"
definition ACK_STOP_HHT_WB100 :: u16 where [model_simps]: "ACK_STOP_HHT_WB100 = 0x8202"
definition ACK_STOP_HHT_3000 :: u16 where [model_simps]: "ACK_STOP_HHT_3000 = 0x8204"
definition CMD_FW_UPLOAD :: u16 where [model_simps]: "CMD_FW_UPLOAD = 0x0600"
definition CMD_FW_UPLOAD_STOP :: u16 where [model_simps]: "CMD_FW_UPLOAD_STOP = 0x0601"
definition ACK_FW_UPLOAD_STOP :: u16 where [model_simps]: "ACK_FW_UPLOAD_STOP = 0x8601"

definition HHT_KEY_ESC :: u8 where [model_simps]: "HHT_KEY_ESC = 0x01"
definition HHT_KEY_UP :: u8 where [model_simps]: "HHT_KEY_UP = 0x02"
definition HHT_KEY_DN :: u8 where [model_simps]: "HHT_KEY_DN = 0x04"
definition HHT_KEY_ENT :: u8 where [model_simps]: "HHT_KEY_ENT = 0x08"

section \<open>State\<close>

datatype role = ROLE_NONE | ROLE_HHT | ROLE_FW_UPLOAD | ROLE_STORAGE_UPLOAD | ROLE_DIAG | ROLE_MANUAL
datatype role_source = ROLE_SOURCE_NONE | ROLE_SOURCE_BLE | ROLE_SOURCE_CLI

record 'u tool =
  g_active_role :: role
  g_active_source :: role_source
  t_hht :: "'u hht"
  t_fw :: fw_sys
  t_legacy :: legacy_ctx
  s_pending_name :: string
  s_pending_type :: string
  s_expected_size :: nat
  s_last_fw_type :: string
  gap_name :: string
  device_alias :: string
  restarted :: bool

record 'u ble_env =
  be_drv :: "'u uart_drv"
  be_rnd :: "u32 \<times> u32 \<times> u32 \<times> u32"
  be_hht_task_ok :: bool
  be_fw :: fw_env
  be_queue_ok :: bool
  be_task_ok :: bool
  be_sd_dir :: "string list option"
  be_flash_dir :: "(string \<times> nat) list option"
  be_format :: "string \<Rightarrow> fs \<Rightarrow> bool \<times> fs"
  be_bt_mac :: bytes
  be_base_mac :: bytes
  be_timestamp :: nat
  be_date :: string
  be_flash_ready :: bool
  be_default_name :: string
  be_err_name :: "esp_err \<Rightarrow> string"

definition ble_protocol_send_cmd :: "u16 \<Rightarrow> bytes \<Rightarrow> 'u tool \<Rightarrow> 'u tool" where
  "ble_protocol_send_cmd cmd payload t = t\<lparr>t_hht := emit [Cmd cmd payload] (t_hht t)\<rparr>"

definition ble_send_json_ack :: "u16 \<Rightarrow> string \<Rightarrow> 'u tool \<Rightarrow> 'u tool" where
  "ble_send_json_ack ack json t = ble_protocol_send_cmd ack (bytes_of json) t"

section \<open>Roles\<close>

definition role_dispatcher_init :: "'u tool \<Rightarrow> 'u tool" where
  "role_dispatcher_init t = t\<lparr>g_active_role := ROLE_NONE, g_active_source := ROLE_SOURCE_NONE\<rparr>"

definition fw_upload_start :: "'u ble_env \<Rightarrow> fw_sys \<Rightarrow> fw_sys" where
  "fw_upload_start env s =
     snd (fw_update_worker_start (be_queue_ok env) (be_task_ok env)
       (set_step FW_STEP_PREPARE ''firmware update role active'' s))"

text \<open>Starting a role; the servers of the storage role and the two empty roles change nothing here.\<close>

definition tasks_start_for_role :: "'u ble_env \<Rightarrow> role \<Rightarrow> 'u tool \<Rightarrow> 'u tool option" where
  "tasks_start_for_role env role t =
     (case role of
        ROLE_HHT \<Rightarrow>
          map_option (\<lambda>h. t\<lparr>t_hht := h\<rparr>) (hht_start (be_drv env) (be_rnd env) (be_hht_task_ok env) (t_hht t))
      | ROLE_FW_UPLOAD \<Rightarrow> Some (t\<lparr>t_fw := fw_upload_start env (t_fw t)\<rparr>)
      | _ \<Rightarrow> Some t)"

definition role_dispatcher_request :: "'u ble_env \<Rightarrow> role \<Rightarrow> role_source \<Rightarrow> 'u tool \<Rightarrow> 'u tool option" where
  "role_dispatcher_request env role source t =
     (if role = ROLE_NONE then Some t
      else if role = g_active_role t then Some t
      else tasks_start_for_role env role (t\<lparr>g_active_role := role, g_active_source := source\<rparr>))"

definition role_dispatcher_clear :: "'u ble_env \<Rightarrow> 'u tool \<Rightarrow> 'u tool" where
  "role_dispatcher_clear env t =
     (let t1 = (if g_active_role t = ROLE_HHT then t\<lparr>t_hht := hht_stop (be_drv env) (t_hht t)\<rparr> else t)
      in t1\<lparr>g_active_role := ROLE_NONE, g_active_source := ROLE_SOURCE_NONE\<rparr>)"

section \<open>Strings\<close>

definition k_sdmmc_program_types :: "string list" where
  "k_sdmmc_program_types =
     [''S00'', ''S01'', ''A00'', ''A01'', ''A02'', ''A03'', ''A04'', ''A05'', ''A06'',
      ''A07'', ''A08'', ''A09'', ''A10'', ''A11'', ''A12'', ''A13'', ''A14'', ''A15'']"

definition get_filename_ext :: "string \<Rightarrow> string" where
  "get_filename_ext name =
     (case split_last_dot name of None \<Rightarrow> [] | Some (base, ext) \<Rightarrow> if base = [] then [] else ext)"

definition get_filename_without_extension :: "nat \<Rightarrow> string \<Rightarrow> string" where
  "get_filename_without_extension out_size name =
     c_copy out_size (case split_last_dot name of None \<Rightarrow> name | Some (base, _) \<Rightarrow> base)"

definition sdmmc_is_valid_type :: "string \<Rightarrow> bool" where
  "sdmmc_is_valid_type ext \<longleftrightarrow> ext \<noteq> [] \<and> (\<exists>k \<in> set k_sdmmc_program_types. strneq 3 ext k)"

definition sdmmc_is_valid_program_file :: "string \<Rightarrow> bool" where
  "sdmmc_is_valid_program_file name \<longleftrightarrow> sdmmc_is_valid_type (get_filename_ext name) \<and> length name = 40"

definition ble_trim_whitespace :: "string \<Rightarrow> string" where
  "ble_trim_whitespace s = rev (dropWhile isspace (rev (dropWhile isspace s)))"

definition ble_name_valid :: "string \<Rightarrow> bool" where
  "ble_name_valid name \<longleftrightarrow>
     length name = 9 \<and> strneq 5 name ''MIRI-'' \<and> list_all isxdigit (take 4 (drop 5 name))"

definition ble_current_name :: "'u ble_env \<Rightarrow> 'u tool \<Rightarrow> string" where
  "ble_current_name env t =
     (if gap_name t \<noteq> [] then gap_name t
      else if device_alias t \<noteq> [] then device_alias t else be_default_name env)"

text \<open>\<open>json_get_string\<close> looks for the quoted key, the next colon and a quoted value behind it.\<close>

definition json_get_string :: "string \<Rightarrow> string \<Rightarrow> nat \<Rightarrow> string option" where
  "json_get_string json key out_size =
     (case strstr (c_copy 64 (''\"'' @ key @ ''\"'')) json of
        None \<Rightarrow> None
      | Some i \<Rightarrow>
          (case dropWhile (\<lambda>c. c \<noteq> CHR '':'') (drop i json) of
             [] \<Rightarrow> None
           | _ # p \<Rightarrow>
               (case dropWhile (\<lambda>c. c = CHR '' '' \<or> c = CHR 0x09) p of
                  [] \<Rightarrow> None
                | c # q \<Rightarrow>
                    if c \<noteq> CHR 0x22 \<or> CHR 0x22 \<notin> set q then None
                    else Some (c_copy out_size (takeWhile (\<lambda>c. c \<noteq> CHR 0x22) q)))))"

text \<open>Hexadecimal numbers with a minimum width.\<close>

fun hex_digits :: "nat \<Rightarrow> nat \<Rightarrow> string" where
  "hex_digits 0 n = []"
| "hex_digits (Suc w) n = hex_digits w (n div 16) @ [digit_char (n mod 16)]"

text \<open>The value is 32 bits wide, so that eight digits are always enough.\<close>

definition ble_build_default_ota_name :: "'u ble_env \<Rightarrow> nat \<Rightarrow> string" where
  "ble_build_default_ota_name env out_size =
     c_copy out_size (''ota_'' @ concat (map (\<lambda>b. hex_digits 2 (unat b)) (take 6 (be_base_mac env))) @
       ''_'' @ hex_digits 8 (be_timestamp env mod 2 ^ 32))"

section \<open>Files\<close>

definition ble_send_file_list :: "u16 \<Rightarrow> (string \<times> nat) list option \<Rightarrow> 'u tool \<Rightarrow> 'u tool" where
  "ble_send_file_list ack dir t =
     (case dir of
        None \<Rightarrow> ble_send_json_ack ack ''{\"result\":-1}'' t
      | Some ents \<Rightarrow>
          if ents = [] then ble_send_json_ack ack ''{\"result\":0,\"chunk_idx\":0,\"chunk_total\":0}'' t
          else fold (\<lambda>(idx, name, sz).
                 ble_send_json_ack ack (c_copy 256
                   (''{\"result\":0,\"chunk_idx\":'' @ dec_str idx @ '',\"chunk_total\":'' @ dec_str (length ents) @
                    '',\"file_name\":\"'' @ get_filename_without_extension 128 name @
                    ''\",\"file_type\":\"'' @ get_filename_ext name @ ''\",\"file_size\":'' @ dec_str sz @ ''}'')))
                 (enumerate 0 ents) t)"

definition ble_send_sdmmc_program_list :: "u16 \<Rightarrow> string list option \<Rightarrow> 'u tool \<Rightarrow> 'u tool" where
  "ble_send_sdmmc_program_list ack dir t =
     (case dir of
        None \<Rightarrow> ble_send_json_ack ack ''{\"result\":-1}'' t
      | Some all_ents \<Rightarrow>
          let ents = filter sdmmc_is_valid_program_file all_ents
          in if ents = [] then ble_send_json_ack ack ''{\"result\":0,\"chunk_idx\":0,\"chunk_total\":0}'' t
             else fold (\<lambda>(idx, name).
                    ble_send_json_ack ack (c_copy 256
                      (''{\"result\":0,\"chunk_idx\":'' @ dec_str idx @ '',\"chunk_total\":'' @ dec_str (length ents) @
                       '',\"file_name\":\"'' @ get_filename_without_extension 128 name @
                       ''\",\"file_type\":\"'' @ get_filename_ext name @ ''\"}'')))
                    (enumerate 0 ents) t)"

definition remove_file :: "string \<Rightarrow> fs \<Rightarrow> bool \<times> fs" where
  "remove_file path fs = (fs path \<noteq> None, fs(path := None))"

definition spiflash_fs_set_ble_device_name :: "fw_env \<Rightarrow> string \<Rightarrow> fs \<Rightarrow> esp_err \<times> fs" where
  "spiflash_fs_set_ble_device_name env name fs =
     (if strstr ''MIRI-'' name = None then (ESP_ERR_INVALID_ARG, fs)
      else if \<not> e_can_create env ''/c/ble_setting.txt'' then (ESP_FAIL, fs)
      else (ESP_OK, fs(''/c/ble_setting.txt'' \<mapsto> bytes_of name)))"

definition runtime_config_set_device_alias :: "string \<Rightarrow> 'u tool \<Rightarrow> esp_err \<times> 'u tool" where
  "runtime_config_set_device_alias alias t =
     (if 32 \<le> length alias then (ESP_ERR_INVALID_ARG, t)
      else (ESP_OK, t\<lparr>device_alias := c_copy 32 alias\<rparr>))"

definition tcp_server_set_pending_file :: "string \<Rightarrow> string \<Rightarrow> 'u tool \<Rightarrow> 'u tool" where
  "tcp_server_set_pending_file name type t =
     t\<lparr>s_pending_name := c_copy 64 name, s_pending_type := c_copy 8 type\<rparr>"

definition tcp_server_set_expected_size :: "nat \<Rightarrow> 'u tool \<Rightarrow> 'u tool" where
  "tcp_server_set_expected_size n t = t\<lparr>s_expected_size := n\<rparr>"

definition tcp_server_has_pending :: "'u tool \<Rightarrow> bool" where
  "tcp_server_has_pending t \<longleftrightarrow> s_pending_name t \<noteq> [] \<and> s_pending_type t \<noteq> []"

text \<open>The payload as a C string in a buffer of \<open>n\<close> bytes.\<close>

definition payload_string :: "nat \<Rightarrow> bytes \<Rightarrow> string" where
  "payload_string n payload = chars_of (cstr (take (n - 1) payload))"

definition ble_set_last_fw_type :: "bytes \<Rightarrow> 'u tool \<Rightarrow> 'u tool" where
  "ble_set_last_fw_type payload t =
     (if length payload < 3 then t
      else let type_buf = chars_of (cstr (take 3 payload))
           in if \<not> sdmmc_is_valid_type type_buf then t
              else t\<lparr>s_last_fw_type := c_copy 8 type_buf\<rparr>)"

section \<open>Classification of commands\<close>

text \<open>The key and whether it is a long one, for the key codes of the app.\<close>

definition ble_hht_key_from_code :: "u8 \<Rightarrow> (u8 \<times> bool) option" where
  "ble_hht_key_from_code code =
     (if code = 0x00 then Some (HHT_KEY_NONE, False)
      else if code = 0x01 then Some (HHT_KEY_ESC, False)
      else if code = 0x02 then Some (HHT_KEY_UP, False)
      else if code = 0x03 then Some (HHT_KEY_DN, False)
      else if code = 0x04 then Some (HHT_KEY_ENT, False)
      else if code = 0x05 then Some (HHT_KEY_ESC OR HHT_KEY_ENT, False)
      else if code = 0x06 then Some (HHT_KEY_UP OR HHT_KEY_ENT, False)
      else if code = 0x07 then Some (HHT_KEY_ESC, True)
      else if code = 0x08 then Some (HHT_KEY_UP, True)
      else if code = 0x09 then Some (HHT_KEY_DN, True)
      else if code = 0x0a then Some (HHT_KEY_ENT, True)
      else None)"

definition ble_cmd_is_start :: "u16 \<Rightarrow> bool" where
  "ble_cmd_is_start cmd \<longleftrightarrow> cmd \<in> {CMD_START_HHT_100, CMD_START_HHT_WB100, CMD_START_HHT_3000,
     CMD_FW_UPLOAD, CMD_MIRI_DIAGNOSIS_REQ, CMD_HANDLE_PHONE_ESP32}"

definition ble_cmd_is_stop :: "u16 \<Rightarrow> bool" where
  "ble_cmd_is_stop cmd \<longleftrightarrow> cmd \<in> {CMD_STOP_HHT_100, CMD_STOP_HHT_WB100, CMD_STOP_HHT_3000,
     CMD_PROGRAM_STOP_PHONE_ESP32, CMD_FW_UPLOAD_STOP}"

definition ble_cmd_is_hht_action :: "u16 \<Rightarrow> bool" where
  "ble_cmd_is_hht_action cmd \<longleftrightarrow> cmd \<in> {CMD_HHT_BTN, CMD_HHT_PARAMS, CMD_HHT_PROJ_100,
     CMD_HHT_VER_CP_100, CMD_HHT_VER_INV_100, CMD_HHT_PRAMS_INV, CMD_HHT_FDC}"

definition ble_cmd_normalize_compat :: "u16 \<Rightarrow> u16" where
  "ble_cmd_normalize_compat cmd =
     (if cmd = 0x0302 then CMD_START_HHT_3000
      else if cmd = 0x0402 then CMD_STOP_HHT_3000
      else if cmd = 0x6400 then CMD_HHT_BTN
      else if cmd = 0x6480 then ACK_HHT_BTN
      else cmd)"

definition ble_hht_start_ack_cmd :: "u16 \<Rightarrow> u16" where
  "ble_hht_start_ack_cmd cmd =
     (if cmd = CMD_START_HHT_WB100 then ACK_START_HHT_WB100
      else if cmd = CMD_START_HHT_3000 then ACK_START_HHT_3000
      else ACK_START_HHT_100)"

definition ble_hht_stop_ack_cmd :: "u16 \<Rightarrow> u16" where
  "ble_hht_stop_ack_cmd cmd =
     (if cmd = CMD_STOP_HHT_WB100 then ACK_STOP_HHT_WB100
      else if cmd = CMD_STOP_HHT_3000 then ACK_STOP_HHT_3000
      else ACK_STOP_HHT_100)"

definition ble_cmd_to_role :: "u16 \<Rightarrow> role" where
  "ble_cmd_to_role cmd =
     (if cmd \<in> {CMD_START_HHT_100, CMD_STOP_HHT_100, CMD_HHT_BTN, CMD_START_HHT_WB100,
        CMD_STOP_HHT_WB100, CMD_START_HHT_3000, CMD_STOP_HHT_3000, CMD_HHT_PARAMS, CMD_HHT_PROJ_100,
        CMD_HHT_VER_CP_100, CMD_HHT_VER_INV_100, CMD_HHT_PRAMS_INV, CMD_HHT_FDC} then ROLE_HHT
      else if cmd = CMD_FW_UPLOAD then ROLE_FW_UPLOAD
      else if cmd \<in> {CMD_SDMMC_PROGRAM_ENTER, CMD_SDMMC_PROGRAM_LIST, CMD_FAT_FILE_LIST,
        CMD_SDMMC_FORMAT, CMD_FAT_FORMAT, CMD_SDMMC_DELETE_FILE, CMD_FAT_DELETE_FILE} then ROLE_STORAGE_UPLOAD
      else if cmd \<in> {CMD_PROGRAM_START_PHONE_ESP32, CMD_PROGRAM_ENTER_PHONE_ESP32,
        CMD_PROGRAM_WRITE_PHONE_ESP32, CMD_PROGRAM_INTERFACE_RESET_PHONE_ESP32,
        CMD_PROGRAM_STOP_PHONE_ESP32, CMD_UPDATE_TYPE_PHONE_ESP32, CMD_PROGRAM_PROGRESS_MSG} then ROLE_FW_UPLOAD
      else if cmd = CMD_MIRI_DIAGNOSIS_REQ then ROLE_DIAG
      else if cmd = CMD_HANDLE_PHONE_ESP32 then ROLE_MANUAL
      else ROLE_NONE)"

section \<open>Handling\<close>

definition handle_hht_action :: "u16 \<Rightarrow> bytes \<Rightarrow> 'u tool \<Rightarrow> 'u tool" where
  "handle_hht_action cmd payload t =
     (if cmd \<noteq> CMD_HHT_BTN \<or> payload = [] then t
      else case ble_hht_key_from_code (hd payload) of
             None \<Rightarrow> t
           | Some (key, long) \<Rightarrow>
               let keys = hht_key_state (t_hht t);
                   t1 = (if g_active_role t = ROLE_HHT
                         then t\<lparr>t_hht := (t_hht t)\<lparr>hht_key_state :=
                                if long then hht_keys_send_long key keys else hht_keys_send key keys\<rparr>\<rparr>
                         else t)
               in ble_protocol_send_cmd ACK_HHT_BTN [] t1)"

definition handle_stop :: "'u ble_env \<Rightarrow> u16 \<Rightarrow> 'u tool \<Rightarrow> 'u tool" where
  "handle_stop env cmd t =
     (if cmd \<in> {CMD_STOP_HHT_100, CMD_STOP_HHT_WB100, CMD_STOP_HHT_3000} then
        let t1 = role_dispatcher_clear env t;
            ack = ble_hht_stop_ack_cmd cmd;
            t2 = (if cmd = CMD_STOP_HHT_WB100
                  then ble_protocol_send_cmd ack [0] (ble_protocol_send_cmd ACK_START_HHT_WB100 [0] t1)
                  else ble_protocol_send_cmd ack [] t1)
        in (if cmd = CMD_STOP_HHT_3000 \<and> ack \<noteq> ACK_STOP_HHT_100
            then ble_protocol_send_cmd ACK_STOP_HHT_100 [] t2 else t2)
      else if cmd = CMD_PROGRAM_STOP_PHONE_ESP32 then
        ble_protocol_send_cmd ACK_PROGRAM_STOP_PHONE_ESP32 [] (role_dispatcher_clear env t)
      else if cmd = CMD_FW_UPLOAD_STOP then
        ble_protocol_send_cmd ACK_FW_UPLOAD_STOP [] (role_dispatcher_clear env t)
      else t)"

definition handle_start :: "'u ble_env \<Rightarrow> u16 \<Rightarrow> 'u tool \<Rightarrow> 'u tool option" where
  "handle_start env cmd t =
     (if cmd \<in> {CMD_START_HHT_100, CMD_START_HHT_WB100, CMD_START_HHT_3000} then
        let ty = (if cmd = CMD_START_HHT_WB100 then HHT_TYPE_WB100
                  else if cmd = CMD_START_HHT_3000 then HHT_TYPE_3000 else HHT_TYPE_100);
            t1 = t\<lparr>t_hht := hht_set_type ty (t_hht t)\<rparr>;
            ack = ble_hht_start_ack_cmd cmd;
            t2 = (if cmd \<noteq> CMD_START_HHT_WB100
                  then let t2 = ble_protocol_send_cmd ack [] t1
                       in (if cmd = CMD_START_HHT_3000 \<and> ack \<noteq> ACK_START_HHT_100
                           then ble_protocol_send_cmd ACK_START_HHT_100 [] t2 else t2)
                  else t1)
        in role_dispatcher_request env ROLE_HHT ROLE_SOURCE_BLE t2
      else role_dispatcher_request env (ble_cmd_to_role cmd) ROLE_SOURCE_BLE t)"

definition handle_rename :: "'u ble_env \<Rightarrow> bytes \<Rightarrow> 'u tool \<Rightarrow> 'u tool" where
  "handle_rename env payload t =
     (let name_of = (\<lambda>head name. c_copy 128 (head @ name @ ''\"}''));
          reply = (\<lambda>head. ble_send_json_ack ACK_CMD_ESP32_ADV_RENAME (name_of head (ble_current_name env t)) t)
      in if payload = [] then reply ''{\"result\":-2,\"reason\":\"no_payload\",\"name\":\"''
         else let name = ble_trim_whitespace (payload_string 32 payload)
              in if \<not> ble_name_valid name
                 then reply ''{\"result\":-3,\"reason\":\"invalid_format\",\"name\":\"''
                 else let (err, fs) = spiflash_fs_set_ble_device_name (be_fw env) name (sy_fs (t_fw t))
                      in if err \<noteq> ESP_OK
                         then reply (''{\"result\":-1,\"reason\":\"'' @ be_err_name env err @ ''\",\"name\":\"'')
                         else let t1 = t\<lparr>t_fw := (t_fw t)\<lparr>sy_fs := fs\<rparr>\<rparr>;
                                  t2 = snd (runtime_config_set_device_alias name t1)
                              in ble_send_json_ack ACK_CMD_ESP32_ADV_RENAME
                                   (name_of ''{\"result\":0,\"name\":\"'' name) (t2\<lparr>gap_name := name\<rparr>))"

definition handle_enter_wifi :: "'u ble_env \<Rightarrow> bytes \<Rightarrow> 'u tool \<Rightarrow> 'u tool option" where
  "handle_enter_wifi env payload t =
     (let (ack, t1) =
        (if 3 \<le> length payload
         then let len = (ucast (payload ! 0) :: u32) OR push_bit 8 (ucast (payload ! 1))
                          OR push_bit 16 (ucast (payload ! 2));
                  n = unat len;
                  t1 = tcp_server_set_expected_size n t;
                  t2 = t1\<lparr>t_legacy := fw_ble_legacy_set_expected_size n (t_legacy t1)\<rparr>
              in (0x55,
                  if \<not> tcp_server_has_pending t2 \<and> s_last_fw_type t2 \<noteq> []
                  then let name = ble_build_default_ota_name env 64;
                           t3 = tcp_server_set_pending_file name (s_last_fw_type t2) t2
                       in t3\<lparr>t_legacy := fw_ble_legacy_set_file_name name (t_legacy t3)\<rparr>
                  else t2)
         else (0x56, t))
      in map_option (ble_protocol_send_cmd ACK_PROGRAM_ENTER_WIFI_ESP32 [ack])
           (role_dispatcher_request env ROLE_FW_UPLOAD ROLE_SOURCE_BLE t1))"

text \<open>The two fields of a file request.\<close>

definition json_file :: "bytes \<Rightarrow> (string \<times> string) option" where
  "json_file payload =
     (let json = payload_string 256 payload in
      case (json_get_string json ''file_name'' 64, json_get_string json ''file_type'' 32) of
        (Some name, Some type) \<Rightarrow> Some (name, type)
      | _ \<Rightarrow> None)"

definition run_file :: "'u ble_env \<Rightarrow> u16 \<Rightarrow> string \<Rightarrow> string \<times> string \<Rightarrow> 'u tool \<Rightarrow> 'u tool" where
  "run_file env ack fail nt t =
     (let (r, s) = fw_upload_run_from_sdmmc (be_fw env) (be_sd_dir env) (be_queue_ok env) (be_task_ok env)
                     (fst nt) (snd nt) (t_fw t);
          t1 = t\<lparr>t_fw := s\<rparr>
      in ble_send_json_ack ack (if r = ESP_OK then ''{\"result\":0,\"started\":1}'' else fail) t1)"

definition handle_program_start :: "'u ble_env \<Rightarrow> bytes \<Rightarrow> 'u tool \<Rightarrow> 'u tool option" where
  "handle_program_start env payload t =
     (if payload \<noteq> [] then
        Some (case json_file payload of
                Some nt \<Rightarrow> run_file env ACK_PROGRAM_START_PHONE_ESP32
                             ''{\"result\":-2,\"reason\":\"run_fail\"}'' nt t
              | None \<Rightarrow> ble_send_json_ack ACK_PROGRAM_START_PHONE_ESP32
                          ''{\"result\":-1,\"reason\":\"bad_json\"}'' t)
      else role_dispatcher_request env ROLE_FW_UPLOAD ROLE_SOURCE_BLE
             (ble_protocol_send_cmd ACK_PROGRAM_START_PHONE_ESP32 [] t))"

definition handle_sdmmc_enter :: "'u ble_env \<Rightarrow> bytes \<Rightarrow> 'u tool \<Rightarrow> 'u tool option" where
  "handle_sdmmc_enter env payload t =
     map_option (\<lambda>t1.
       if payload = [] then
         ble_send_json_ack ACK_SDMMC_PROGRAM_ENTER ''{\"result\":-1,\"reason\":\"bad_json\"}'' t1
       else case json_file payload of
              None \<Rightarrow> ble_send_json_ack ACK_SDMMC_PROGRAM_ENTER ''{\"result\":-1,\"reason\":\"bad_json\"}'' t1
            | Some nt \<Rightarrow>
                if sy_fs (t_fw t1) (c_copy 256 (''/sdcard/'' @ fst nt @ ''.'' @ snd nt)) \<noteq> None
                then run_file env ACK_SDMMC_PROGRAM_ENTER ''{\"result\":-3,\"reason\":\"run_fail\"}'' nt t1
                else ble_send_json_ack ACK_SDMMC_PROGRAM_ENTER ''{\"result\":-2,\"reason\":\"not_found\"}'' t1)
       (role_dispatcher_request env ROLE_STORAGE_UPLOAD ROLE_SOURCE_BLE t)"

definition handle_delete :: "u16 \<Rightarrow> string \<Rightarrow> bool \<Rightarrow> bytes \<Rightarrow> 'u tool \<Rightarrow> 'u tool" where
  "handle_delete ack mount checked payload t =
     (case (if payload = [] then None else json_file payload) of
        None \<Rightarrow> ble_send_json_ack ack ''{\"result\":-1,\"reason\":\"bad_json\"}'' t
      | Some nt \<Rightarrow>
          if checked \<and> \<not> sdmmc_is_valid_type (snd nt)
          then ble_send_json_ack ack ''{\"result\":-2,\"reason\":\"invalid_type\"}'' t
          else let (ok, fs) = remove_file (c_copy 256 (mount @ ''/'' @ fst nt @ ''.'' @ snd nt)) (sy_fs (t_fw t))
               in ble_send_json_ack ack (if ok then ''{\"result\":0}'' else ''{\"result\":-1}'')
                    (t\<lparr>t_fw := (t_fw t)\<lparr>sy_fs := fs\<rparr>\<rparr>))"

definition handle_format :: "'u ble_env \<Rightarrow> u16 \<Rightarrow> string \<Rightarrow> bool \<Rightarrow> 'u tool \<Rightarrow> 'u tool" where
  "handle_format env ack mount is_ready t =
     (if is_ready
      then let (ok, fs) = be_format env mount (sy_fs (t_fw t))
           in ble_send_json_ack ack (if ok then ''{\"result\":0}'' else ''{\"result\":-1}'')
                (t\<lparr>t_fw := (t_fw t)\<lparr>sy_fs := fs\<rparr>\<rparr>)
      else ble_send_json_ack ack ''{\"result\":-1,\"reason\":\"not_ready\"}'' t)"

definition handle_update_type :: "'u ble_env \<Rightarrow> bytes \<Rightarrow> 'u tool \<Rightarrow> 'u tool" where
  "handle_update_type env payload t =
     (let t1 = ble_set_last_fw_type payload t;
          t2 = (if s_last_fw_type t1 \<noteq> []
                then t1\<lparr>t_legacy := fw_ble_legacy_set_file_name (ble_build_default_ota_name env 64)
                       (fw_ble_legacy_set_type (s_last_fw_type t1) (t_legacy t1))\<rparr>
                else t1)
      in ble_protocol_send_cmd ACK_PROGRAM_STATUS_PHONE_ESP32 payload t2)"

text \<open>The \<open>switch\<close> over the remaining commands, and the request of a role for the others.\<close>

definition handle_other :: "'u ble_env \<Rightarrow> u16 \<Rightarrow> bytes \<Rightarrow> 'u tool \<Rightarrow> 'u tool option" where
  "handle_other env cmd payload t =
     (let request = (\<lambda>role. role_dispatcher_request env role ROLE_SOURCE_BLE t) in
      if cmd = CMD_MIRI_REBOOT then Some ((ble_protocol_send_cmd ACK_MIRI_REBOOT [] t)\<lparr>restarted := True\<rparr>)
      else if cmd = CMD_ESP32_VERSION_INFO then
        Some (ble_protocol_send_cmd ACK_CMD_ESP32_VERSION_INFO
          (bytes_of (c_copy 64 (''v2.08, '' @ be_date env)) @ [0]) t)
      else if cmd = CMD_MAC_BT_INFO then Some (ble_protocol_send_cmd ACK_MAC_BT_INFO (take 6 (be_bt_mac env)) t)
      else if cmd = CMD_ESP32_ADV_RENAME then Some (handle_rename env payload t)
      else if cmd = CMD_UPDATE_INFO_MOBILE then
        Some (if payload \<noteq> [] then ble_protocol_send_cmd ACK_UPDATE_INFO_MOBILE [] t else t)
      else if cmd = CMD_MCU_VERSION_INFO then
        Some (ble_protocol_send_cmd ACK_CMD_MCU_VERSION_INFO (bytes_of ''MCU=N/A'' @ [0]) t)
      else if cmd = CMD_PROGRAM_ENTER_WIFI_ESP32 then handle_enter_wifi env payload t
      else if cmd = CMD_PROGRAM_ENTER_PHONE_ESP32 then
        map_option (ble_protocol_send_cmd ACK_PROGRAM_ENTER_PHONE_ESP32 []) (request ROLE_FW_UPLOAD)
      else if cmd = CMD_PROGRAM_WRITE_PHONE_ESP32 then
        map_option (ble_protocol_send_cmd ACK_PROGRAM_WRITE_PHONE_ESP32 []) (request ROLE_FW_UPLOAD)
      else if cmd = CMD_PROGRAM_INTERFACE_RESET_PHONE_ESP32 then
        Some (ble_protocol_send_cmd ACK_PROGRAM_INTERFACE_RESET_PHONE_ESP32 [] t)
      else if cmd = CMD_PROGRAM_STOP_PHONE_ESP32 then
        Some (ble_protocol_send_cmd ACK_PROGRAM_STOP_PHONE_ESP32 [] t)
      else if cmd = CMD_PROGRAM_START_PHONE_ESP32 then handle_program_start env payload t
      else if cmd = CMD_UPDATE_TYPE_PHONE_ESP32 then Some (handle_update_type env payload t)
      else if cmd = CMD_PROGRAM_PROGRESS_MSG then
        Some (ble_protocol_send_cmd ACK_PROGRAM_PROGRESS_MSG_ESP32 payload t)
      else if cmd = CMD_SDMMC_PROGRAM_ENTER then handle_sdmmc_enter env payload t
      else if cmd = CMD_SDMMC_PROGRAM_LIST then
        Some (ble_send_sdmmc_program_list ACK_SDMMC_PROGRAM_LIST (be_sd_dir env) t)
      else if cmd = CMD_FAT_FILE_LIST then Some (ble_send_file_list ACK_FAT_FILE_LIST (be_flash_dir env) t)
      else if cmd = CMD_SDMMC_FORMAT then
        Some (handle_format env ACK_SDMMC_FORMAT ''/sdcard'' (e_sd_ok (be_fw env)) t)
      else if cmd = CMD_FAT_FORMAT then Some (handle_format env ACK_FAT_FORMAT ''/c'' (be_flash_ready env) t)
      else if cmd = CMD_SDMMC_DELETE_FILE then
        Some (handle_delete ACK_SDMMC_DELETE_FILE ''/sdcard'' True payload t)
      else if cmd = CMD_FAT_DELETE_FILE then
        Some (handle_delete ACK_FAT_DELETE_FILE ''/c'' False payload t)
      else request (ble_cmd_to_role cmd))"

definition ble_cmd_handle_with_payload :: "'u ble_env \<Rightarrow> u16 \<Rightarrow> bytes \<Rightarrow> 'u tool \<Rightarrow> 'u tool option" where
  "ble_cmd_handle_with_payload env cmd0 payload t =
     (let cmd1 = ble_cmd_normalize_compat cmd0;
          cmd = (if cmd1 = ACK_HHT_BTN then CMD_HHT_BTN else cmd1)
      in if cmd AND 0x8000 \<noteq> 0 then Some t
         else if ble_cmd_is_hht_action cmd then Some (handle_hht_action cmd payload t)
         else if ble_cmd_is_stop cmd then Some (handle_stop env cmd t)
         else if ble_cmd_is_start cmd then handle_start env cmd t
         else handle_other env cmd payload t)"

definition ble_cmd_handle :: "'u ble_env \<Rightarrow> u16 \<Rightarrow> 'u tool \<Rightarrow> 'u tool option" where
  "ble_cmd_handle env cmd t = ble_cmd_handle_with_payload env cmd [] t"

text \<open>A write to the receive characteristic carries at most 32 bytes: the command and its payload.\<close>

definition BLE_RX_UUID16 :: u16 where [model_simps]: "BLE_RX_UUID16 = 0xFFE1"
definition BLE_ATT_ERR_UNLIKELY :: nat where [model_simps]: "BLE_ATT_ERR_UNLIKELY = 0x0E"

definition gatt_svr_access_cb ::
    "'u ble_env \<Rightarrow> bool \<Rightarrow> u16 \<Rightarrow> bytes \<Rightarrow> 'u tool \<Rightarrow> (nat \<times> 'u tool) option" where
  "gatt_svr_access_cb env is_write uuid om t =
     (if is_write \<and> uuid = BLE_RX_UUID16
      then let buf = take 32 om
           in if 2 \<le> length buf
              then map_option (Pair 0) (ble_cmd_handle_with_payload env (join8 (buf ! 1) (buf ! 0)) (drop 2 buf) t)
              else Some (0, t)
      else Some (BLE_ATT_ERR_UNLIKELY, t))"

section \<open>What the commands keep\<close>

definition tool_inv :: "'u tool \<Rightarrow> bool" where
  "tool_inv t \<longleftrightarrow> link_inv (t_hht t) \<and> (g_active_role t = ROLE_HHT \<longrightarrow> hht_running (t_hht t))"

definition quiet :: "'u tool \<Rightarrow> 'u tool \<Rightarrow> bool" where
  "quiet t t' \<longleftrightarrow> keeps (t_hht t) (t_hht t') \<and> g_active_role t' = g_active_role t"

named_theorems quiet_intros \<open>operations that leave the link and the role alone\<close>

lemma quiet_refl [quiet_intros]: "quiet t t" by (simp add: quiet_def)

lemma quiet_trans: "quiet t u \<Longrightarrow> quiet u v \<Longrightarrow> quiet t v"
  by (auto simp: quiet_def elim: keeps_trans)

lemma quiet_same: "t_hht t' = t_hht t \<Longrightarrow> g_active_role t' = g_active_role t \<Longrightarrow> quiet t t'"
  by (simp add: quiet_def)

lemma quiet_send [quiet_intros]: "quiet t u \<Longrightarrow> quiet t (ble_protocol_send_cmd c p u)"
  by (erule quiet_trans) (simp add: quiet_def ble_protocol_send_cmd_def keeps_emit)

lemma quiet_json [quiet_intros]: "quiet t u \<Longrightarrow> quiet t (ble_send_json_ack c j u)"
  by (simp add: ble_send_json_ack_def quiet_send)

lemma quiet_inv: "tool_inv t \<Longrightarrow> quiet t t' \<Longrightarrow> tool_inv t'"
  using keeps_link_inv by (auto simp: tool_inv_def quiet_def keeps_def)

lemma quiet_fold: "(\<And>x u. quiet t u \<Longrightarrow> quiet t (f x u)) \<Longrightarrow> quiet t u \<Longrightarrow> quiet t (fold f xs u)"
  by (induction xs arbitrary: u) auto

lemma quiet_file_list [quiet_intros]: "quiet t (ble_send_file_list c d t)"
  "quiet t (ble_send_sdmmc_program_list c e t)"
  by (auto simp: ble_send_file_list_def ble_send_sdmmc_program_list_def Let_def
      split: option.splits intro!: quiet_fold quiet_intros)

lemma quiet_rename [quiet_intros]: "quiet t (handle_rename env p t)"
  unfolding handle_rename_def runtime_config_set_device_alias_def Let_def
  by (auto split: prod.splits intro!: quiet_json quiet_same)

lemma quiet_run_file [quiet_intros]: "quiet t u \<Longrightarrow> quiet t (run_file env c f nt u)"
  unfolding run_file_def
  by (auto split: prod.splits intro!: quiet_json elim!: quiet_trans intro: quiet_same)

lemma quiet_delete [quiet_intros]: "quiet t (handle_delete c m b p t)"
  unfolding handle_delete_def
  by (auto split: prod.splits option.splits intro!: quiet_json quiet_same)

lemma quiet_format [quiet_intros]: "quiet t (handle_format env c m b t)"
  unfolding handle_format_def
  by (auto split: prod.splits intro!: quiet_json quiet_same)

lemma quiet_update_type [quiet_intros]: "quiet t (handle_update_type env p t)"
  unfolding handle_update_type_def ble_set_last_fw_type_def Let_def
  by (auto intro!: quiet_send quiet_same)

lemma inv_send: "tool_inv t \<Longrightarrow> tool_inv (ble_protocol_send_cmd c p t)"
  "tool_inv t \<Longrightarrow> tool_inv (ble_send_json_ack c j t)"
  by (auto intro: quiet_inv quiet_intros)

lemma request_inv:
  assumes "tool_inv t" "role_dispatcher_request env role src t = Some t'"
  shows "tool_inv t'"
proof (cases "role = ROLE_HHT \<and> role \<noteq> g_active_role t")
  case True
  then obtain h where h: "hht_start (be_drv env) (be_rnd env) (be_hht_task_ok env) (t_hht t) = Some h"
    and t': "t_hht t' = h"
    using assms(2) by (auto simp: role_dispatcher_request_def tasks_start_for_role_def)
  have "link_inv h" using start_link [OF _ h] assms(1) by (simp add: tool_inv_def)
  moreover have "hht_running h"
    using h by (auto simp: hht_start_def split: if_splits option.splits)
  ultimately show ?thesis by (simp add: tool_inv_def t')
next
  case False
  then show ?thesis
    using assms by (auto simp: role_dispatcher_request_def tasks_start_for_role_def tool_inv_def
        split: role.splits if_splits)
qed

lemma clear_inv: "tool_inv t \<Longrightarrow> tool_inv (role_dispatcher_clear env t)"
  using stop_link by (auto simp: role_dispatcher_clear_def tool_inv_def Let_def)

lemma set_type_inv: "tool_inv t \<Longrightarrow> tool_inv (t\<lparr>t_hht := hht_set_type ty (t_hht t)\<rparr>)"
  by (simp add: tool_inv_def hht_set_type_def link_inv_def)

lemma hht_action_inv: "tool_inv t \<Longrightarrow> tool_inv (handle_hht_action cmd p t)"
proof -
  assume t: "tool_inv t"
  have "keys_inv (hht_keys_send k s)" "keys_inv (hht_keys_send_long k s)" if "keys_inv s" for k s
    using that keys_step_inv [of s undefined "Key_Send k"] keys_step_inv [of s undefined "Key_Send_Long k"]
    by simp_all
  then have "tool_inv (t\<lparr>t_hht := (t_hht t)\<lparr>hht_key_state := hht_keys_send_long k (hht_key_state (t_hht t))\<rparr>\<rparr>)"
    "tool_inv (t\<lparr>t_hht := (t_hht t)\<lparr>hht_key_state := hht_keys_send k (hht_key_state (t_hht t))\<rparr>\<rparr>)" for k
    using t by (simp_all add: tool_inv_def link_inv_def)
  then show ?thesis
    using t by (auto simp: handle_hht_action_def Let_def split: option.splits intro: inv_send)
qed

lemma stop_inv: "tool_inv t \<Longrightarrow> tool_inv (handle_stop env cmd t)"
  by (auto simp: handle_stop_def Let_def intro!: inv_send clear_inv)

lemma start_inv:
  assumes "tool_inv t" "handle_start env cmd t = Some t'"
  shows "tool_inv t'"
proof (cases "cmd \<in> {CMD_START_HHT_100, CMD_START_HHT_WB100, CMD_START_HHT_3000}")
  case True
  from assms(2) show ?thesis
    unfolding handle_start_def Let_def if_P [OF True]
    by (rule request_inv [rotated]) (auto intro!: inv_send set_type_inv assms(1))
next
  case False
  from assms show ?thesis unfolding handle_start_def if_not_P [OF False] by (rule request_inv)
qed

lemma request_map_inv:
  assumes "tool_inv t" "\<And>u. tool_inv u \<Longrightarrow> tool_inv (f u)"
    and "map_option f (role_dispatcher_request env role src t) = Some t'"
  shows "tool_inv t'"
proof -
  from assms(3) obtain u where "role_dispatcher_request env role src t = Some u" "t' = f u" by auto
  with request_inv [OF assms(1)] assms(2) show ?thesis by blast
qed

lemma enter_wifi_inv:
  assumes "tool_inv t" "handle_enter_wifi env p t = Some t'"
  shows "tool_inv t'"
proof -
  from assms(2) obtain ack u where u: "quiet t u" and
    m: "map_option (ble_protocol_send_cmd ACK_PROGRAM_ENTER_WIFI_ESP32 [ack])
        (role_dispatcher_request env ROLE_FW_UPLOAD ROLE_SOURCE_BLE u) = Some t'"
  proof (atomize_elim, goal_cases)
    case 1
    then show ?case
      unfolding handle_enter_wifi_def Let_def case_prod_beta
      by (intro exI conjI; assumption?)
        (auto intro!: quiet_same simp: tcp_server_set_expected_size_def tcp_server_set_pending_file_def)
  qed
  show ?thesis by (rule request_map_inv [OF quiet_inv [OF assms(1) u] inv_send(1) m])
qed

lemma sdmmc_enter_inv: "tool_inv t \<Longrightarrow> handle_sdmmc_enter env p t = Some t' \<Longrightarrow> tool_inv t'"
  unfolding handle_sdmmc_enter_def
  by (erule request_map_inv [rotated 2]) (auto split: option.splits intro: quiet_inv quiet_intros)

lemma program_start_inv: "tool_inv t \<Longrightarrow> handle_program_start env p t = Some t' \<Longrightarrow> tool_inv t'"
  unfolding handle_program_start_def
  by (auto split: if_splits option.splits intro: quiet_inv quiet_intros inv_send elim!: request_inv [rotated])

lemma if_SomeE:
  assumes "(if b then x else y) = Some z"
  obtains "b" "x = Some z" | "\<not> b" "y = Some z"
  using assms by (cases b) auto

lemma other_inv:
  assumes "tool_inv t" "handle_other env cmd p t = Some t'"
  shows "tool_inv t'"
proof -
  have upd: "tool_inv (u\<lparr>restarted := True\<rparr>) = tool_inv u" for u :: "'u tool"
    by (simp add: tool_inv_def)
  note req = request_map_inv [OF assms(1) inv_send(1)]
  note q = quiet_inv [OF assms(1)]
  show ?thesis
    using assms(2) unfolding handle_other_def Let_def
    by (elim if_SomeE)
      (insert assms(1), auto simp: upd intro: q inv_send quiet_intros elim: req enter_wifi_inv
        program_start_inv sdmmc_enter_inv request_inv)
qed

lemma handle_inv:
  assumes "tool_inv t" "ble_cmd_handle_with_payload env cmd p t = Some t'"
  shows "tool_inv t'"
  using assms(2) unfolding ble_cmd_handle_with_payload_def Let_def
  by (elim if_SomeE) (insert assms(1), auto intro: hht_action_inv stop_inv start_inv other_inv)

text \<open>
  The whole tool on one UART: commands with any environment, and iterations of the terminal task
  between them.
\<close>

inductive tool_reach :: "'u uart_drv \<Rightarrow> 'u tool \<Rightarrow> bool" for drv where
  boot: "tool_reach drv t" if "g_active_role t = ROLE_NONE" "t_hht t = hht_boot u"
| cmd: "tool_reach drv t'" if "tool_reach drv t" "be_drv env = drv"
    "ble_cmd_handle_with_payload env c p t = Some t'"
| task: "tool_reach drv (t\<lparr>t_hht := h\<rparr>)" if "tool_reach drv t" "hht_trans drv (t_hht t) Task h"

inductive_cases hht_taskE: "hht_trans drv s Task s'"

lemma task_keeps: "hht_trans drv s Task s' \<Longrightarrow> keeps s s'"
  by (erule hht_taskE) (auto simp: hht_task_iteration_def keeps_wb100_poll keeps_3000_poll split: if_splits)

lemma reach_inv: "tool_reach drv t \<Longrightarrow> tool_inv t"
proof (induction rule: tool_reach.induct)
  case (boot t u)
  then show ?case by (simp add: tool_inv_def boot_link)
next
  case (cmd t env c p t')
  then show ?case using handle_inv by blast
next
  case (task t h)
  then have "quiet t (t\<lparr>t_hht := h\<rparr>)" using task_keeps by (auto simp: quiet_def)
  then show ?case using quiet_inv task.IH by blast
qed

section \<open>Properties\<close>

text \<open>C19: Commands and terminal stay in step. Whatever commands the phone sends, in any order and with
  iterations of the terminal task in between, the link to the terminal is consistent and, while
  the terminal role is the active one, the terminal is running on an installed UART.\<close>

theorem tool_invariant:
  assumes "tool_reach drv t"
  shows "link_inv (t_hht t) \<and>
    (g_active_role t = ROLE_HHT \<longrightarrow> hht_running (t_hht t) \<and> uart_ready (t_hht t))"
  using reach_inv [OF assms] by (simp add: tool_inv_def link_inv_def)

definition example_tool :: "bytes list tool" where
  "example_tool = \<lparr>g_active_role = ROLE_NONE, g_active_source = ROLE_SOURCE_NONE, t_hht = hht_boot [],
     t_fw = example_sys, t_legacy = \<lparr>lc_file_name = [], lc_file_type = [], lc_expected_size = 0\<rparr>,
     s_pending_name = [], s_pending_type = [], s_expected_size = 0, s_last_fw_type = [],
     gap_name = [], device_alias = [], restarted = False\<rparr>"

definition example_ble_env :: "bytes list ble_env" where
  "example_ble_env = \<lparr>be_drv = script_drv, be_rnd = (1, 2, 3, 4), be_hht_task_ok = True, be_fw = example_env,
     be_queue_ok = True, be_task_ok = True, be_sd_dir = None, be_flash_dir = None,
     be_format = (\<lambda>_ fs. (True, fs)), be_bt_mac = replicate 6 1, be_base_mac = replicate 6 1,
     be_timestamp = 0, be_date = [], be_flash_ready = True, be_default_name = [], be_err_name = (\<lambda>_. [])\<rparr>"

lemma example_start:
  "\<exists>t. ble_cmd_handle_with_payload example_ble_env CMD_START_HHT_100 [] example_tool = Some t \<and>
     g_active_role t = ROLE_HHT \<and> hht_running (t_hht t)"
proof -
  have "handle_start example_ble_env CMD_START_HHT_100 example_tool =
      role_dispatcher_request example_ble_env ROLE_HHT ROLE_SOURCE_BLE
        (ble_protocol_send_cmd ACK_START_HHT_100 []
          (example_tool\<lparr>t_hht := hht_set_type HHT_TYPE_100 (t_hht example_tool)\<rparr>))"
    by (simp add: handle_start_def ble_hht_start_ack_cmd_def model_simps)
  moreover have "hht_ty (emit os (hht_set_type HHT_TYPE_100 (hht_boot u))) = HHT_TYPE_100"
    "\<not> hht_running (emit os (hht_set_type HHT_TYPE_100 (hht_boot u)))" for os and u :: "bytes list"
    by (simp_all add: hht_set_type_def emit_def less_hht_type_def hht_boot_def)
  ultimately show ?thesis
    by (auto simp: ble_cmd_handle_with_payload_def ble_cmd_normalize_compat_def ble_cmd_is_hht_action_def
        ble_cmd_is_stop_def ble_cmd_is_start_def role_dispatcher_request_def tasks_start_for_role_def
        hht_start_def hht_session_open_def example_tool_def ble_protocol_send_cmd_def case_prod_beta model_simps)
qed

lemma tool_invariant_witness:
  "\<exists>t. g_active_role t = ROLE_HHT \<and> link_inv (t_hht t) \<and> hht_running (t_hht (t :: bytes list tool)) \<and> uart_ready (t_hht t)"
proof -
  obtain t where t: "ble_cmd_handle_with_payload example_ble_env CMD_START_HHT_100 [] example_tool = Some t"
    "g_active_role t = ROLE_HHT"
    using example_start by blast
  have "tool_reach script_drv example_tool"
    by (rule tool_reach.boot [of _ "[]"]) (simp_all add: example_tool_def)
  from tool_reach.cmd [OF this _ t(1)] have "tool_reach script_drv t" by (simp add: example_ble_env_def)
  from tool_invariant [OF this] t(2) show ?thesis by blast
qed



section \<open>File requests\<close>

text \<open>The request the app sends, and the names that can stand in it unescaped.\<close>

definition file_request :: "string \<Rightarrow> string \<Rightarrow> string" where
  "file_request name type = ''{\"file_name\":\"'' @ name @ ''\",\"file_type\":\"'' @ type @ ''\"}''"

definition json_plain :: "string \<Rightarrow> bool" where
  "json_plain s \<longleftrightarrow> CHR 0x22 \<notin> set s \<and> CHR 0x00 \<notin> set s"

lemma strstr_free:
  "h \<notin> set pre \<Longrightarrow> strstr (h # ht) (pre @ rest) = map_option ((+) (length pre)) (strstr (h # ht) rest)"
  by (cases "strstr (h # ht) rest"; induction pre) auto

lemma takeWhile_quote: "q \<notin> set s \<Longrightarrow> takeWhile (\<lambda>c. c \<noteq> q) (s @ q # rest) = s"
  by (induction s) auto

lemma quoted_eq:
  assumes "take n (s @ q # rest) = k @ [q]" "q \<notin> set s" "q \<notin> set k"
  shows "s = k"
proof -
  have "s @ q # rest = k @ q # drop n (s @ q # rest)"
    using append_take_drop_id [of n "s @ q # rest"] unfolding assms(1) by simp
  then have "takeWhile (\<lambda>c. c \<noteq> q) (s @ q # rest) = takeWhile (\<lambda>c. c \<noteq> q) (k @ q # drop n (s @ q # rest))"
    by (rule arg_cong)
  then show ?thesis unfolding takeWhile_quote [OF assms(2)] takeWhile_quote [OF assms(3)] .
qed

lemma json_string_value:
  assumes "strstr (c_copy 64 (''\"'' @ key @ ''\"'')) json = Some i"
    and "drop i json = pre @ '':\"'' @ v @ ''\"'' @ post" "CHR '':'' \<notin> set pre" "CHR 0x22 \<notin> set v"
  shows "json_get_string json key n = Some (c_copy n v)"
proof -
  have "dropWhile (\<lambda>c. c \<noteq> CHR '':'') (drop i json) = '':\"'' @ v @ ''\"'' @ post"
    using assms(2,3) by (induction pre arbitrary: i) (auto simp: dropWhile_append3)
  then show ?thesis
    using assms(1,4) takeWhile_quote [of "CHR 0x22" v post] by (simp add: json_get_string_def)
qed

lemma json_file_request:
  assumes "json_plain name" "json_plain type" "name \<noteq> ''file_type''"
  shows "json_get_string (file_request name type) ''file_name'' n = Some (c_copy n name)"
    and "json_get_string (file_request name type) ''file_type'' m = Some (c_copy m type)"
proof -
  let ?q = "CHR 0x22"
  have p: "?q \<notin> set name" "?q \<notin> set type" using assms by (simp_all add: json_plain_def)
  have 1: "strstr (c_copy 64 (''\"'' @ ''file_name'' @ ''\"'')) (file_request name type) = Some 1"
    by (simp add: file_request_def c_copy_def)
  have "drop 1 (file_request name type) = ''\"file_name\"'' @ '':\"'' @ name @ ''\"'' @ '',\"file_type\":\"'' @ type @ ''\"}''"
    by (simp add: file_request_def)
  from json_string_value [OF 1 this] p
  show "json_get_string (file_request name type) ''file_name'' n = Some (c_copy n name)" by simp
  let ?rest = "'',\"file_type\":\"'' @ type @ ''\"}''"
  have ne: "take 10 (name @ ?q # ?rest) \<noteq> ''file_type\"''"
  proof
    assume "take 10 (name @ ?q # ?rest) = ''file_type\"''"
    then have "take 10 (name @ ?q # ?rest) = ''file_type'' @ [?q]" by (simp only: append.simps)
    from quoted_eq [OF this p(1)] assms(3) show False by simp
  qed
  have 2: "strstr (c_copy 64 (''\"'' @ ''file_type'' @ ''\"'')) (name @ ?q # ?rest) = Some (length name + 2)"
    using strstr_free [OF p(1), of "''file_type\"''" "?q # ?rest"] by (simp add: c_copy_def)
  have "strstr (c_copy 64 (''\"'' @ ''file_type'' @ ''\"'')) (file_request name type) = Some (length name + 16)"
    using 2 ne by (simp add: file_request_def c_copy_def eval_nat_numeral)
  moreover have "drop (length name + 16) (file_request name type) =
      ''\"file_type\"'' @ '':\"'' @ type @ ''\"'' @ ''}''"
  proof -
    let ?pre = "''{\"file_name\":\"'' @ name @ ''\",''"
    have "file_request name type = ?pre @ ''\"file_type\"'' @ '':\"'' @ type @ ''\"'' @ ''}''"
      by (simp add: file_request_def)
    moreover have "length ?pre = length name + 16" by simp
    ultimately show ?thesis by (metis append_eq_conv_conj)
  qed
  ultimately show "json_get_string (file_request name type) ''file_type'' m = Some (c_copy m type)"
    using json_string_value [of "''file_type''" "file_request name type" "length name + 16" "''\"file_type\"''" type "''}''" m] p
    by simp
qed

lemma payload_string_of:
  "CHR 0x00 \<notin> set s \<Longrightarrow> length s < n \<Longrightarrow> payload_string n (bytes_of s) = s"
proof -
  assume s: "CHR 0x00 \<notin> set s" "length s < n"
  have z: "c = CHR 0x00" if "byte_of c = 0" for c
  proof -
    from that
    have "chars_of (bytes_of [c]) = chars_of [0]" by (simp add: bytes_of_def)
    then have "[c] = chars_of [0]" by (simp only: chars_of_bytes_of)
    then show ?thesis by (simp add: chars_of_def char_of_def)
  qed
  have "0 \<notin> set (bytes_of s)"
  proof
    assume "0 \<in> set (bytes_of s)"
    then obtain c where "c \<in> set s" "byte_of c = 0" unfolding bytes_of_def set_map by (metis imageE)
    with z [of c] s(1) show False by simp
  qed
  then show ?thesis using s(2) by (simp add: payload_string_def)
qed

text \<open>A delete request deletes exactly the file it names. For a name and a valid type that can stand in
  the request unescaped and fit its buffers, the command to delete from the SD card removes the
  file of this name and type and nothing else, and answers 0 if it existed and -1 if not.\<close>

theorem delete_request:
  assumes "json_plain name" "json_plain type" "name \<noteq> ''file_type''"
    and "length name < 64" "length type < 32" "sdmmc_is_valid_type type"
  shows "ble_cmd_handle_with_payload env CMD_SDMMC_DELETE_FILE (bytes_of (file_request name type)) t =
    (let path = ''/sdcard/'' @ name @ ''.'' @ type; fs = sy_fs (t_fw t)
     in Some (ble_send_json_ack ACK_SDMMC_DELETE_FILE
                (if fs path \<noteq> None then ''{\"result\":0}'' else ''{\"result\":-1}'')
                (t\<lparr>t_fw := (t_fw t)\<lparr>sy_fs := fs(path := None)\<rparr>\<rparr>)))"
proof -
  have "CHR 0x00 \<notin> set (file_request name type)" "length (file_request name type) < 256"
    using assms by (simp_all add: file_request_def json_plain_def)
  then have s: "payload_string 256 (bytes_of (file_request name type)) = file_request name type"
    by (rule payload_string_of)
  have ne: "bytes_of (file_request name type) \<noteq> []" by (simp add: file_request_def bytes_of_def)
  have "json_file (bytes_of (file_request name type)) = Some (name, type)"
    using json_file_request [OF assms(1-3)] assms(4,5) s by (simp add: json_file_def c_copy_id)
  moreover have "c_copy 256 (''/sdcard'' @ ''/'' @ name @ ''.'' @ type) = ''/sdcard/'' @ name @ ''.'' @ type"
    using assms(4,5) by (simp add: c_copy_id)
  ultimately have "handle_delete ACK_SDMMC_DELETE_FILE ''/sdcard'' True (bytes_of (file_request name type)) t =
      (let path = ''/sdcard/'' @ name @ ''.'' @ type; fs = sy_fs (t_fw t)
       in ble_send_json_ack ACK_SDMMC_DELETE_FILE
            (if fs path \<noteq> None then ''{\"result\":0}'' else ''{\"result\":-1}'')
            (t\<lparr>t_fw := (t_fw t)\<lparr>sy_fs := fs(path := None)\<rparr>\<rparr>))"
    using ne assms(6) by (simp add: handle_delete_def remove_file_def Let_def)
  then show ?thesis
    by (simp add: ble_cmd_handle_with_payload_def ble_cmd_normalize_compat_def ble_cmd_is_hht_action_def
        ble_cmd_is_stop_def ble_cmd_is_start_def handle_other_def Let_def model_simps
        del: bytes_of_def byte_of_def c_copy_def)
qed

lemma delete_request_witness:
  "ble_cmd_handle_with_payload example_ble_env CMD_SDMMC_DELETE_FILE (bytes_of (file_request ''pump'' ''A00'')) example_tool =
    (let path = ''/sdcard/pump.A00''; fs = sy_fs (t_fw example_tool)
     in Some (ble_send_json_ack ACK_SDMMC_DELETE_FILE
                (if fs path \<noteq> None then ''{\"result\":0}'' else ''{\"result\":-1}'')
                (example_tool\<lparr>t_fw := (t_fw example_tool)\<lparr>sy_fs := fs(path := None)\<rparr>\<rparr>)))"
  using delete_request [of "''pump''" "''A00''" example_ble_env example_tool]
  by (simp add: json_plain_def sdmmc_is_valid_type_def strneq_def k_sdmmc_program_types_def)

end
