(* ===== verification/Serial_Io.thy ===== *)
theory Serial_Io
  imports Prelude
begin

text \<open>
  The serial line to a boot loader, as the update code sees it: a script of what the coming
  one-byte reads deliver (\<open>None\<close> for a read that times out; behind its end every read does), and a
  log of the blocks written. A function of the position in the log and of the length says how many
  bytes of a write the driver takes. Any behaviour of the other side is some script.
\<close>

record serial =
  rx :: "u8 option list"
  tx :: "bytes list"

type_synonym write_result = "nat \<Rightarrow> nat \<Rightarrow> int"

definition serial_read_byte :: "serial \<Rightarrow> u8 option \<times> serial" where
  "serial_read_byte s = (case rx s of [] \<Rightarrow> (None, s) | r # rs \<Rightarrow> (r, s\<lparr>rx := rs\<rparr>))"

text \<open>Several bytes until a read times out.\<close>

fun serial_read_bytes :: "nat \<Rightarrow> u8 option list \<Rightarrow> bytes \<times> u8 option list" where
  "serial_read_bytes 0 rs = ([], rs)"
| "serial_read_bytes (Suc n) [] = ([], [])"
| "serial_read_bytes (Suc n) (None # rs) = ([], rs)"
| "serial_read_bytes (Suc n) (Some c # rs) = (let (bs, rs1) = serial_read_bytes n rs in (c # bs, rs1))"

definition serial_write :: "write_result \<Rightarrow> bytes \<Rightarrow> serial \<Rightarrow> int \<times> serial" where
  "serial_write w bs s = (w (length (tx s)) (length bs), s\<lparr>tx := tx s @ [bs]\<rparr>)"

text \<open>A driver that takes every byte.\<close>

definition write_all :: write_result where
  "write_all i n = int n"

lemma serial_write_all [simp]:
  "serial_write write_all bs s = (int (length bs), s\<lparr>tx := tx s @ [bs]\<rparr>)"
  by (simp add: serial_write_def write_all_def)

lemma serial_read_Cons [simp]: "serial_read_byte \<lparr>rx = r # rs, tx = t\<rparr> = (r, \<lparr>rx = rs, tx = t\<rparr>)"
  and serial_read_Nil [simp]: "serial_read_byte \<lparr>rx = [], tx = t\<rparr> = (None, \<lparr>rx = [], tx = t\<rparr>)"
  by (simp_all add: serial_read_byte_def)

end
