(* ===== verification/Stm32_Boot.thy ===== *)
theory Stm32_Boot
  imports Serial_Io Storage
begin

text \<open>
  Programming an STM32 over its UART boot loader (\<open>stm32_update.c\<close>). Functions that may not return
  give an option, with \<open>None\<close> for not returning. The UART configuration calls are left out.
\<close>

definition STM32_BL_ACK :: u8 where [model_simps]: "STM32_BL_ACK = 0x79"
definition STM32_BL_CMD_ERASE :: u8 where [model_simps]: "STM32_BL_CMD_ERASE = 0x43"
definition STM32_BL_CMD_WRITE :: u8 where [model_simps]: "STM32_BL_CMD_WRITE = 0x31"

definition stm32_uart_read_byte :: "serial \<Rightarrow> (esp_err \<times> u8) \<times> serial" where
  "stm32_uart_read_byte s =
     (let (r, s1) = serial_read_byte s
      in (case r of None \<Rightarrow> (ESP_FAIL, 0) | Some b \<Rightarrow> (ESP_OK, b), s1))"

definition stm32_bl_send_cmd :: "write_result \<Rightarrow> u8 \<Rightarrow> serial \<Rightarrow> esp_err \<times> serial" where
  "stm32_bl_send_cmd w cmd s =
     (let (res, s1) = serial_write w [cmd, cmd XOR 0xFF] s in (if res = 2 then ESP_OK else ESP_FAIL, s1))"

definition stm32_bl_wait_ack :: "serial \<Rightarrow> esp_err \<times> serial" where
  "stm32_bl_wait_ack s =
     (let ((r, b), s1) = stm32_uart_read_byte s
      in if r \<noteq> ESP_OK then (ESP_FAIL, s1)
         else if b = STM32_BL_ACK then (ESP_OK, s1) else (ESP_FAIL, s1))"

definition stm32_bl_global_erase :: "write_result \<Rightarrow> serial \<Rightarrow> esp_err \<times> serial" where
  "stm32_bl_global_erase w s =
     (let (r, s1) = stm32_bl_send_cmd w STM32_BL_CMD_ERASE s
      in if r \<noteq> ESP_OK then (ESP_FAIL, s1)
         else let (r, s2) = stm32_bl_wait_ack s1
              in if r \<noteq> ESP_OK then (ESP_FAIL, s2)
                 else let (res, s3) = serial_write w [0xFF, 0xFF, 0xFF XOR 0xFF] s2
                      in if res \<noteq> 3 then (ESP_FAIL, s3) else stm32_bl_wait_ack s3)"

definition addr_bytes :: "u32 \<Rightarrow> bytes" where
  "addr_bytes addr =
     (let b0 = ucast (drop_bit 24 addr); b1 = ucast (drop_bit 16 addr); b2 = ucast (drop_bit 8 addr);
          b3 = ucast addr
      in [b0, b1, b2, b3, b0 XOR b1 XOR b2 XOR b3])"

text \<open>
  One block. The loop over the data counts in a \<open>uint8_t\<close>, so for 256 bytes its condition never
  becomes false and the function does not return.
\<close>

definition stm32_bl_write_block ::
    "write_result \<Rightarrow> u32 \<Rightarrow> bytes \<Rightarrow> nat \<Rightarrow> serial \<Rightarrow> (esp_err \<times> serial) option" where
  "stm32_bl_write_block w addr data len s =
     (if len = 0 \<or> 256 < len then Some (ESP_ERR_INVALID_ARG, s)
      else let (r, s1) = stm32_bl_send_cmd w STM32_BL_CMD_WRITE s
           in if r \<noteq> ESP_OK then Some (ESP_FAIL, s1)
              else let (r, s2) = stm32_bl_wait_ack s1
                   in if r \<noteq> ESP_OK then Some (ESP_FAIL, s2)
                      else let (res, s3) = serial_write w (addr_bytes addr) s2
                           in if res \<noteq> 5 then Some (ESP_FAIL, s3)
                              else let (r, s4) = stm32_bl_wait_ack s3
                                   in if r \<noteq> ESP_OK then Some (ESP_FAIL, s4)
                                      else if len = 256 then None
                                      else let len_byte = of_nat (len - 1);
                                               cks = fold (\<lambda>i c. c XOR data ! i) [0..<len] len_byte;
                                               s5 = snd (serial_write w [len_byte] s4);
                                               s6 = snd (serial_write w (take len data) s5);
                                               s7 = snd (serial_write w [cks] s6)
                                           in Some (stm32_bl_wait_ack s7))"

record stm32_job =
  sj_meta :: fw_meta
  sj_file_name :: string
  sj_file_type :: string

definition stm32_update_set_file :: "fw_meta \<Rightarrow> string \<Rightarrow> string \<Rightarrow> stm32_job" where
  "stm32_update_set_file meta name type =
     \<lparr>sj_meta = meta, sj_file_name = c_copy 64 name, sj_file_type = c_copy 8 (take 3 type)\<rparr>"

text \<open>The length is passed on through a \<open>uint8_t\<close>.\<close>

partial_function (option) stm32_write_loop ::
    "write_result \<Rightarrow> fw_env \<Rightarrow> u32 \<Rightarrow> fw_storage_reader \<Rightarrow> serial \<Rightarrow> (esp_err \<times> serial) option" where
  "stm32_write_loop w env addr r s =
     (let (buf, r1) = fw_storage_reader_read env r 256
      in if buf = [] then Some (ESP_OK, s)
         else case stm32_bl_write_block w addr buf (unat (of_nat (length buf) :: u8)) s of
                None \<Rightarrow> None
              | Some (ret, s1) \<Rightarrow>
                  if ret \<noteq> ESP_OK then Some (ESP_FAIL, s1)
                  else stm32_write_loop w env (addr + of_nat (length buf)) r1 s1)"

definition stm32_update_start ::
    "write_result \<Rightarrow> fw_env \<Rightarrow> stm32_job \<Rightarrow> fs \<Rightarrow> serial \<Rightarrow> (esp_err \<times> serial) option" where
  "stm32_update_start w env job fs s =
     (let s1 = snd (serial_write w [0x7F] s);
          (r, s2) = stm32_bl_wait_ack s1
      in if r \<noteq> ESP_OK then Some (ESP_FAIL, s2)
         else let (r, s3) = stm32_bl_global_erase w s2
              in if r \<noteq> ESP_OK then Some (ESP_FAIL, s3)
                 else if \<not> e_sd_ok env then Some (ESP_FAIL, s3)
                 else case fw_storage_reader_open env (sj_file_name job) (sj_file_type job) fs of
                        Inl _ \<Rightarrow> Some (ESP_FAIL, s3)
                      | Inr rd \<Rightarrow> stm32_write_loop w env 0x08000000 rd s3)"

section \<open>A file in one block\<close>

text \<open>What one block looks like on the line: command, address, and length, data and checksum.\<close>

definition block_frames :: "u32 \<Rightarrow> bytes \<Rightarrow> bytes list" where
  "block_frames addr data =
     [[0x31, 0xCE], addr_bytes addr, [of_nat (length data - 1)], data,
      [of_nat (length data - 1) XOR xor_sum data]]"

lemma fold_nth_xor: "fold (\<lambda>i c. c XOR data ! i) [0..<length data] (b :: u8) = b XOR xor_sum data"
proof -
  have "fold (\<lambda>i c. c XOR data ! i) [0..<length data] b = fold (\<lambda>x c. c XOR x) (map ((!) data) [0..<length data]) b"
    by (simp only: fold_map o_def)
  also have "\<dots> = fold (\<lambda>x c. c XOR x) data b" by (simp only: map_nth)
  also have "\<dots> = fold (XOR) data b" by (rule fold_cong) (simp_all add: fun_eq_iff xor.commute)
  finally show ?thesis using fold_xor [of data b] by (simp only: xor_sum_def)
qed

lemma wait_ack_ok: "stm32_bl_wait_ack \<lparr>rx = Some 0x79 # rs, tx = t\<rparr> = (ESP_OK, \<lparr>rx = rs, tx = t\<rparr>)"
  by (simp add: stm32_bl_wait_ack_def stm32_uart_read_byte_def STM32_BL_ACK_def)

lemma write_block_ok:
  assumes "0 < length data" "length data < 256"
  shows "stm32_bl_write_block write_all addr data (length data)
      \<lparr>rx = Some 0x79 # Some 0x79 # Some 0x79 # rs, tx = t\<rparr> =
    Some (ESP_OK, \<lparr>rx = rs, tx = t @ block_frames addr data\<rparr>)"
  using assms
  by (simp add: stm32_bl_write_block_def stm32_bl_send_cmd_def wait_ack_ok fold_nth_xor block_frames_def
      STM32_BL_CMD_WRITE_def Let_def addr_bytes_def)

declare stm32_write_loop.simps [simp del]

definition erase_frames :: "bytes list" where
  "erase_frames = [[0x7F], [0x43, 0xBC], [0xFF, 0xFF, 0]]"

lemma start_erase:
  assumes "e_sd_ok env" "fw_storage_reader_open env (sj_file_name job) (sj_file_type job) fs = Inr r"
  shows "stm32_update_start write_all env job fs \<lparr>rx = Some 0x79 # Some 0x79 # Some 0x79 # rs, tx = []\<rparr> =
    stm32_write_loop write_all env 0x08000000 r \<lparr>rx = rs, tx = erase_frames\<rparr>"
  using assms
  by (simp add: stm32_update_start_def stm32_bl_global_erase_def stm32_bl_send_cmd_def wait_ack_ok
      STM32_BL_CMD_ERASE_def Let_def erase_frames_def)

lemma clear_read:
  assumes "r_active r" "\<not> r_encrypted r"
  shows "fw_storage_reader_read env r 256 = (take 256 (r_file r), r\<lparr>r_file := drop 256 (r_file r)\<rparr>)"
  using assms by (simp add: fw_storage_reader_read_def)

lemma open_clear:
  assumes "fw_storage_reader_open env name type fs = Inr r" "\<not> e_enc_on env"
    and "fs (''/sdcard/'' @ name @ ''.'' @ type) = Some data"
  shows "r_active r" "\<not> r_encrypted r" "r_file r = data"
  using assms by (auto simp: fw_storage_reader_open_def fw_storage_build_path_def Let_def
      split: if_splits option.splits)

section \<open>Properties\<close>

text \<open>C21: A small file is programmed completely. With a boot loader that acknowledges everything, a file
  of 1 to 255 bytes on an unencrypted card is written with one block at the start of the flash:
  the line carries the synchronisation byte, the erase and the block with its address, length,
  data and XOR checksum, and the update ends with success.\<close>

theorem stm32_small_file:
  assumes "\<not> e_enc_on env" "e_sd_ok env" "fs (''/sdcard/'' @ sj_file_name job @ ''.'' @ sj_file_type job) = Some data"
    and "fw_storage_reader_open env (sj_file_name job) (sj_file_type job) fs = Inr r"
    and "0 < length data" "length data < 256"
  shows "stm32_update_start write_all env job fs \<lparr>rx = replicate 6 (Some 0x79), tx = []\<rparr> =
    Some (ESP_OK, \<lparr>rx = [], tx = erase_frames @ block_frames 0x08000000 data\<rparr>)"
proof -
  note r = open_clear [OF assms(4,1,3)]
  have n: "unat (of_nat (length data) :: u8) = length data"
    using assms(6) by (intro unat_of_nat_small) simp
  have ne: "data \<noteq> []" using assms(5) by auto
  let ?r1 = "r\<lparr>r_file := drop 256 (r_file r)\<rparr>"
  have 2: "stm32_write_loop write_all env a ?r1 s = Some (ESP_OK, s)" for a s
    using clear_read [of ?r1 env] r assms(6) by (subst stm32_write_loop.simps) simp
  have "stm32_write_loop write_all env 0x08000000 r
      \<lparr>rx = [Some 0x79, Some 0x79, Some 0x79], tx = erase_frames\<rparr> =
      Some (ESP_OK, \<lparr>rx = [], tx = erase_frames @ block_frames 0x08000000 data\<rparr>)"
    using clear_read [OF r(1,2), of env] r(3) 2 n ne write_block_ok [OF assms(5,6), of "0x08000000" "[]" erase_frames] assms(6)
    by (subst stm32_write_loop.simps) simp
  with start_erase [OF assms(2,4), of "[Some 0x79, Some 0x79, Some 0x79]"] show ?thesis
    by (simp add: numeral_eq_Suc)
qed

text \<open>C22: A larger file is erased for nothing. For every file of at least 256 bytes on an unencrypted card,
  however the boot loader goes on after its acknowledgements, the update fails right after the
  erase without sending any write command: the length 256 of the first block becomes 0 in the
  \<open>uint8_t\<close> it is passed through.\<close>

theorem stm32_large_file:
  assumes "\<not> e_enc_on env" "e_sd_ok env" "fs (''/sdcard/'' @ sj_file_name job @ ''.'' @ sj_file_type job) = Some data"
    and "fw_storage_reader_open env (sj_file_name job) (sj_file_type job) fs = Inr r"
    and "256 \<le> length data"
  shows "stm32_update_start write_all env job fs \<lparr>rx = Some 0x79 # Some 0x79 # Some 0x79 # rs, tx = []\<rparr> =
    Some (ESP_FAIL, \<lparr>rx = rs, tx = erase_frames\<rparr>)"
proof -
  note r = open_clear [OF assms(4,1,3)]
  have len: "length (take 256 data) = 256" using assms(5) by simp
  then have ne: "take 256 data \<noteq> []" by (metis list.size(3) zero_neq_numeral)
  have "stm32_write_loop write_all env 0x08000000 r \<lparr>rx = rs, tx = erase_frames\<rparr> =
      Some (ESP_FAIL, \<lparr>rx = rs, tx = erase_frames\<rparr>)"
    using clear_read [OF r(1,2), of env] r(3) len ne
    by (subst stm32_write_loop.simps) (simp add: stm32_bl_write_block_def)
  with start_erase [OF assms(2,4), of rs] show ?thesis by simp
qed

definition example_job_stm :: stm32_job where
  "example_job_stm = \<lparr>sj_meta = fw_meta_zero, sj_file_name = ''pump'', sj_file_type = ''S00''\<rparr>"

definition clear_env :: fw_env where
  "clear_env = example_env\<lparr>e_enc_on := False, e_sd_ok := True\<rparr>"

lemma open_example:
  "\<exists>r. fw_storage_reader_open clear_env ''pump'' ''S00'' [''/sdcard/pump.S00'' \<mapsto> data] = Inr r"
  by (simp add: fw_storage_reader_open_def clear_env_def fw_storage_build_path_def Let_def)

lemma stm32_small_file_witness:
  "stm32_update_start write_all clear_env example_job_stm [''/sdcard/pump.S00'' \<mapsto> [1, 2, 3]]
     \<lparr>rx = replicate 6 (Some 0x79), tx = []\<rparr> =
   Some (ESP_OK, \<lparr>rx = [], tx = [[0x7F], [0x43, 0xBC], [0xFF, 0xFF, 0], [0x31, 0xCE],
     [8, 0, 0, 0, 8], [2], [1, 2, 3], [2]]\<rparr>)"
proof -
  obtain r where r: "fw_storage_reader_open clear_env (sj_file_name example_job_stm) (sj_file_type example_job_stm)
      [''/sdcard/pump.S00'' \<mapsto> [1, 2, 3]] = Inr r"
    using open_example by (auto simp: example_job_stm_def)
  have "erase_frames @ block_frames 0x08000000 [1, 2, 3] =
      [[0x7F], [0x43, 0xBC], [0xFF, 0xFF, 0], [0x31, 0xCE], [8, 0, 0, 0, 8], [2], [1, 2, 3], [2]]"
    by code_simp
  with stm32_small_file [OF _ _ _ r] show ?thesis
    by (simp add: clear_env_def example_job_stm_def)
qed

lemma stm32_large_file_witness:
  "stm32_update_start write_all clear_env example_job_stm [''/sdcard/pump.S00'' \<mapsto> replicate 256 7]
     \<lparr>rx = Some 0x79 # Some 0x79 # Some 0x79 # replicate 3 (Some 0x79), tx = []\<rparr> =
   Some (ESP_FAIL, \<lparr>rx = replicate 3 (Some 0x79), tx = erase_frames\<rparr>)"
proof -
  obtain r where r: "fw_storage_reader_open clear_env (sj_file_name example_job_stm) (sj_file_type example_job_stm)
      [''/sdcard/pump.S00'' \<mapsto> replicate 256 7] = Inr r"
    using open_example by (auto simp: example_job_stm_def)
  from stm32_large_file [OF _ _ _ r, of "replicate 256 7" "replicate 3 (Some 0x79)"] show ?thesis
    by (simp add: clear_env_def example_job_stm_def)
qed

end
