(* ===== verification/Can_Tms.thy ===== *)
theory Can_Tms
  imports Fw_Manager
begin

text \<open>
  Programming a controller over CAN: the driver wrapper (\<open>incan.c\<close>) and the download to the TMS
  board (\<open>can_fw_update.c\<close>), which puts the packaged image into a flat file and sends it page by
  page with a segmented transport protocol. The bus is a script of what the coming receive calls
  deliver (\<open>None\<close> for a timeout; behind its end every call times out) and a log of the frames sent.
  A function that may wait for ever gives an option, with \<open>None\<close> for not returning.
\<close>

section \<open>The bus\<close>

datatype twai_timing = TIMING_1MBITS | TIMING_500KBITS | TIMING_250KBITS | TIMING_125KBITS

text \<open>Identifier and the eight data bytes, with zeros behind those received.\<close>

type_synonym can_msg = "u32 \<times> bytes"

text \<open>\<open>c_bus\<close> is the configuration of the running driver: timing, acceptance code and mask.\<close>

record can =
  s_can_open :: bool
  c_bus :: "(twai_timing \<times> (u32 \<times> u32) option) option"
  c_rx :: "can_msg option list"
  c_tx :: "can_msg list"

text \<open>Results of the TWAI driver, by the number of frames sent before the call.\<close>

record can_env =
  ce_install :: "nat \<Rightarrow> esp_err"
  ce_start :: "nat \<Rightarrow> esp_err"
  ce_tx :: "nat \<Rightarrow> esp_err"

definition timing_from_bps :: "u32 \<Rightarrow> twai_timing" where
  "timing_from_bps bps =
     (if bps = 1000000 then TIMING_1MBITS
      else if bps = 500000 then TIMING_500KBITS
      else if bps = 250000 then TIMING_250KBITS
      else TIMING_125KBITS)"

definition incan_stop :: "can \<Rightarrow> can" where
  "incan_stop c = (if s_can_open c then c\<lparr>c_bus := None, s_can_open := False\<rparr> else c)"

definition incan_open :: "can_env \<Rightarrow> u32 \<Rightarrow> u32 \<Rightarrow> can \<Rightarrow> esp_err \<times> can" where
  "incan_open env bps filter_id c =
     (let c1 = (if s_can_open c then incan_stop c else c);
          flt = (if filter_id \<noteq> 0
                 then Some (push_bit 3 filter_id, NOT (push_bit 3 0x1fffffff)) else None);
          err = ce_install env (length (c_tx c1))
      in if err \<noteq> ESP_OK then (err, c1)
         else let c2 = c1\<lparr>c_bus := Some (timing_from_bps bps, flt)\<rparr>;
                  err = ce_start env (length (c_tx c2))
              in if err \<noteq> ESP_OK then (err, c2\<lparr>c_bus := None\<rparr>)
                 else (ESP_OK, c2\<lparr>s_can_open := True\<rparr>))"

definition incan_tx :: "can_env \<Rightarrow> u32 \<Rightarrow> bytes \<Rightarrow> can \<Rightarrow> esp_err \<times> can" where
  "incan_tx env i buff c =
     (let err = ce_tx env (length (c_tx c))
      in (err, if err = ESP_OK then c\<lparr>c_tx := c_tx c @ [(i, buff)]\<rparr> else c))"

definition incan_get_message :: "can \<Rightarrow> can_msg option \<times> can" where
  "incan_get_message c = (case c_rx c of [] \<Rightarrow> (None, c) | m # ms \<Rightarrow> (m, c\<lparr>c_rx := ms\<rparr>))"

section \<open>Messages of the boot loader\<close>

definition CAN_ID_ESP32_BOARD :: u32 where [model_simps]: "CAN_ID_ESP32_BOARD = 0x1F000074"
definition CAN_ID_TMS_BOARD :: u32 where [model_simps]: "CAN_ID_TMS_BOARD = 0x1F00007B"

definition SID_TARGET_DOWNLOAD_START :: u8 where [model_simps]: "SID_TARGET_DOWNLOAD_START = 0x10"
definition SID_TARGET_BOOT_RUN_CHECK :: u8 where [model_simps]: "SID_TARGET_BOOT_RUN_CHECK = 0x11"
definition SID_TARGET_DOWNLOAD_FINISH :: u8 where [model_simps]: "SID_TARGET_DOWNLOAD_FINISH = 0x12"
definition SID_TARGET_FLASH_ERASE :: u8 where [model_simps]: "SID_TARGET_FLASH_ERASE = 0x20"
definition SID_TARGET_USER_SW_DATA_SEND :: u8 where [model_simps]: "SID_TARGET_USER_SW_DATA_SEND = 0x21"
definition SID_TARGET_FLASH_WRITE :: u8 where [model_simps]: "SID_TARGET_FLASH_WRITE = 0x22"

definition TIMEOUT_LONG :: nat where [model_simps]: "TIMEOUT_LONG = 1000"
definition MAX_INDEX_FLASH :: nat where [model_simps]: "MAX_INDEX_FLASH = 16"
definition SIZE_FLASH_ONE_PAGE :: nat where [model_simps]: "SIZE_FLASH_ONE_PAGE = 1024"

definition check_frame_single :: "u8 \<Rightarrow> bool" where
  "check_frame_single a \<longleftrightarrow> a AND 0xF0 = 0x00"

definition check_frame_flowcontrol :: "u8 \<Rightarrow> bool" where
  "check_frame_flowcontrol a \<longleftrightarrow> a AND 0xF0 = 0x30"

definition get_id_response :: "u8 \<Rightarrow> u8" where
  "get_id_response a = a OR 0x40"

definition tms_send_cmd :: "can_env \<Rightarrow> u8 \<Rightarrow> u8 \<Rightarrow> can \<Rightarrow> esp_err \<times> can" where
  "tms_send_cmd env cmd b2 c = incan_tx env CAN_ID_ESP32_BOARD [0x01, cmd, b2, 0, 0, 0, 0, 0] c"

definition tms_flash_write :: "can_env \<Rightarrow> u32 \<Rightarrow> u16 \<Rightarrow> can \<Rightarrow> esp_err \<times> can" where
  "tms_flash_write env offset sz c =
     incan_tx env CAN_ID_ESP32_BOARD
       [0x06, SID_TARGET_FLASH_WRITE, ucast (offset AND 0xFF), ucast (drop_bit 8 (offset AND 0xFF00)),
        ucast (drop_bit 16 (offset AND 0xFF0000)), lo8 sz, hi8 sz, 0] c"

text \<open>The loops \<open>while (1)\<close> around a receive call of one second.\<close>

fun await_msg :: "(can_msg \<Rightarrow> bool) \<Rightarrow> can_msg option list \<Rightarrow> (can_msg \<times> can_msg option list) option" where
  "await_msg p [] = None"
| "await_msg p (None # ms) = await_msg p ms"
| "await_msg p (Some m # ms) = (if p m then Some (m, ms) else await_msg p ms)"

text \<open>The loop that sends the consecutive frames; \<open>mem\<close> is the memory from \<open>data\<close> on.\<close>

function tms_frames_loop ::
    "can_env \<Rightarrow> bytes \<Rightarrow> nat \<Rightarrow> nat \<Rightarrow> u8 \<Rightarrow> can \<Rightarrow> esp_err \<times> can" where
  "tms_frames_loop env mem total_len length_sent b0 c =
     (if length_sent < total_len
      then let send_len = (if 7 \<le> total_len - length_sent then 7 else total_len - length_sent);
               (ret, c1) = incan_tx env CAN_ID_ESP32_BOARD
                 (b0 # take send_len (drop length_sent mem) @ replicate (7 - send_len) 0) c
           in if ret \<noteq> ESP_OK then (ret, c1)
              else tms_frames_loop env mem total_len (length_sent + send_len) ((b0 + 1) AND 0x2F) c1
      else (ESP_OK, c))"
  by auto
termination
  by (relation "measure (\<lambda>(env, mem, total_len, length_sent, b0, c). total_len - length_sent)")
    (auto split: if_splits)

text \<open>\<open>mem\<close> holds at least \<open>size + 1\<close> bytes, and at least five. Sizes are at most 1024.\<close>

definition tms_user_sw_send :: "can_env \<Rightarrow> bytes \<Rightarrow> nat \<Rightarrow> can \<Rightarrow> (esp_err \<times> can) option" where
  "tms_user_sw_send env mem sz c =
     (let total_len = sz + 1; tl16 = of_nat total_len :: u16;
          (ret, c1) = incan_tx env CAN_ID_ESP32_BOARD
            ([0x10 OR ucast (drop_bit 8 (tl16 AND 0xF00)), ucast (tl16 AND 0xFF),
              SID_TARGET_USER_SW_DATA_SEND] @ take 5 mem) c
      in if ret \<noteq> ESP_OK then Some (ret, c1)
         else case await_msg (\<lambda>m. fst m = CAN_ID_TMS_BOARD \<and> check_frame_flowcontrol (snd m ! 0)) (c_rx c1) of
                None \<Rightarrow> None
              | Some (_, rx2) \<Rightarrow>
                  let (ret, c3) = tms_frames_loop env mem total_len 5 0x21 (c1\<lparr>c_rx := rx2\<rparr>)
                  in if ret \<noteq> ESP_OK then Some (ret, c3)
                     else case await_msg (\<lambda>m. fst m = CAN_ID_TMS_BOARD) (c_rx c3) of
                            None \<Rightarrow> None
                          | Some (m, rx4) \<Rightarrow>
                              let c4 = c3\<lparr>c_rx := rx4\<rparr>
                              in if \<not> (check_frame_single (snd m ! 0) \<and>
                                      snd m ! 1 = get_id_response SID_TARGET_USER_SW_DATA_SEND)
                                 then Some (ESP_FAIL, c4) else Some (ESP_OK, c4))"

function tms_wait_loop :: "u8 \<Rightarrow> u32 \<Rightarrow> nat \<Rightarrow> nat \<Rightarrow> can \<Rightarrow> esp_err \<times> can" where
  "tms_wait_loop sid target_id timeout_ms waited c =
     (if waited < timeout_ms
      then let (r, c1) = incan_get_message c
           in if (case r of None \<Rightarrow> False
                  | Some m \<Rightarrow> fst m = target_id \<and> check_frame_single (snd m ! 0) \<and> snd m ! 1 = get_id_response sid)
              then (ESP_OK, c1)
              else tms_wait_loop sid target_id timeout_ms (waited + 100) c1
      else (ESP_FAIL, c))"
  by auto
termination
  by (relation "measure (\<lambda>(sid, target_id, timeout_ms, waited, c). timeout_ms - waited)") auto

definition tms_wait_response :: "u8 \<Rightarrow> u32 \<Rightarrow> nat \<Rightarrow> can \<Rightarrow> esp_err \<times> can" where
  "tms_wait_response sid target_id timeout_ms c = tms_wait_loop sid target_id timeout_ms 0 c"

section \<open>Sending a file\<close>

text \<open>A command and the wait for its answer.\<close>

definition tms_request :: "can_env \<Rightarrow> u32 \<Rightarrow> u8 \<Rightarrow> u8 \<Rightarrow> can \<Rightarrow> esp_err \<times> can" where
  "tms_request env target_id sid b2 c =
     (let (r, c1) = tms_send_cmd env sid b2 c
      in if r \<noteq> ESP_OK then (ESP_FAIL, c1)
         else let (r, c2) = tms_wait_response sid target_id TIMEOUT_LONG c1
              in (if r \<noteq> ESP_OK then ESP_FAIL else ESP_OK, c2))"

fun can_erase_loop :: "can_env \<Rightarrow> u32 \<Rightarrow> nat list \<Rightarrow> can \<times> fw_sys \<Rightarrow> esp_err \<times> can \<times> fw_sys" where
  "can_erase_loop env target_id [] (c, s) = (ESP_OK, c, s)"
| "can_erase_loop env target_id (i # is) (c, s) =
     (let (r, c1) = tms_request env target_id SID_TARGET_FLASH_ERASE (of_nat i) c
      in if r \<noteq> ESP_OK then (ESP_FAIL, c1, s)
         else can_erase_loop env target_id is (c1, set_progress (of_nat ((i + 1) * 100 div MAX_INDEX_FLASH)) s))"

text \<open>\<open>mem\<close> is the page buffer and what lies behind it; \<open>f\<close> the rest of the file.\<close>

function can_write_loop ::
    "can_env \<Rightarrow> u32 \<Rightarrow> nat \<Rightarrow> bytes \<Rightarrow> nat \<Rightarrow> bytes \<Rightarrow> can \<times> fw_sys \<Rightarrow> (esp_err \<times> can \<times> fw_sys) option" where
  "can_write_loop env target_id sz mem offset f (c, s) =
     (if offset < sz
      then let to_read = (if SIZE_FLASH_ONE_PAGE < sz - offset then SIZE_FLASH_ONE_PAGE else sz - offset);
               rd = length (take to_read f); mem1 = take to_read f @ drop rd mem
           in if rd = 0 then Some (ESP_OK, c, s)
              else case tms_user_sw_send env mem1 rd c of
                     None \<Rightarrow> None
                   | Some (r, c1) \<Rightarrow>
                       if r \<noteq> ESP_OK then Some (ESP_FAIL, c1, s)
                       else let (r, c2) = tms_flash_write env (of_nat offset) (of_nat rd) c1
                            in if r \<noteq> ESP_OK then Some (ESP_FAIL, c2, s)
                               else let (r, c3) = tms_wait_response SID_TARGET_FLASH_WRITE target_id TIMEOUT_LONG c2
                                    in if r \<noteq> ESP_OK then Some (ESP_FAIL, c3, s)
                                       else can_write_loop env target_id sz mem1 (offset + rd) (drop to_read f)
                                              (c3, set_progress (ucast ((of_nat (offset + rd) * 100 :: u32) div of_nat sz)) s)
      else Some (ESP_OK, c, s))"
  by auto
termination
  by (relation "measure (\<lambda>(env, target_id, sz, mem, offset, f, cs). sz - offset)")
    (auto simp: SIZE_FLASH_ONE_PAGE_def min_def intro!: diff_less_mono2 split: if_splits)

definition can_send_file ::
    "can_env \<Rightarrow> bytes \<Rightarrow> bytes \<Rightarrow> nat \<Rightarrow> u32 \<Rightarrow> u32 \<Rightarrow> can \<times> fw_sys \<Rightarrow> (esp_err \<times> can \<times> fw_sys) option" where
  "can_send_file env mem f sz target_id bitrate_fast cs =
     (let (c, s0) = cs;
          s = set_step FW_STEP_PREPARE ''CAN enter boot'' s0;
          (r, c) = incan_open env 125000 target_id c
      in if r \<noteq> ESP_OK then Some (ESP_FAIL, c, s)
         else let (r, c) = tms_request env target_id SID_TARGET_DOWNLOAD_START 0 c
         in if r \<noteq> ESP_OK then Some (ESP_FAIL, c, s)
         else let s = set_step FW_STEP_VERIFY ''CAN boot check'' s;
                  (r, c) = incan_open env bitrate_fast target_id c
         in if r \<noteq> ESP_OK then Some (ESP_FAIL, c, s)
         else let (r, c) = tms_request env target_id SID_TARGET_BOOT_RUN_CHECK 0 c
         in if r \<noteq> ESP_OK then Some (ESP_FAIL, c, s)
         else let s = set_step FW_STEP_WRITE ''CAN erase'' s;
                  (r, c, s) = can_erase_loop env target_id [0..<MAX_INDEX_FLASH] (c, s)
         in if r \<noteq> ESP_OK then Some (ESP_FAIL, c, s)
         else let s = set_step FW_STEP_WRITE ''CAN write'' s
         in case can_write_loop env target_id sz mem 0 f (c, s) of
              None \<Rightarrow> None
            | Some (r, c, s) \<Rightarrow>
                if r \<noteq> ESP_OK then Some (r, c, s)
                else let s = set_step FW_STEP_DONE ''CAN finish'' s;
                         (r, c) = tms_send_cmd env SID_TARGET_DOWNLOAD_FINISH 0x01 c
                     in Some (if r \<noteq> ESP_OK then ESP_FAIL else ESP_OK, c, s))"

section \<open>The flat image\<close>

record bin_sink_ctx =
  bk_path :: string
  bk_fs :: fs
  bk_offset :: u32
  bk_max :: u32

function bin_pad :: "fw_env \<Rightarrow> string \<Rightarrow> nat \<Rightarrow> fs \<Rightarrow> fs" where
  "bin_pad env p gap fs =
     (if 0 < gap
      then let chunk = (if 64 < gap then 64 else gap)
           in bin_pad env p (gap - chunk) (snd (fput env p (replicate chunk 0xFF) fs))
      else fs)"
  by auto
termination
  by (relation "measure (\<lambda>(env, p, gap, fs). gap)") auto

definition bin_sink :: "fw_env \<Rightarrow> bin_sink_ctx pkg_sink" where
  "bin_sink env addr data k =
     (if addr < bk_offset k then (ESP_FAIL, k)
      else let k1 = (if bk_offset k < addr
                     then k\<lparr>bk_fs := bin_pad env (bk_path k) (unat (addr - bk_offset k)) (bk_fs k), bk_offset := addr\<rparr>
                     else k);
               k2 = k1\<lparr>bk_fs := snd (fput env (bk_path k) data (bk_fs k1)),
                      bk_offset := bk_offset k1 + of_nat (length data)\<rparr>
           in (ESP_OK, if bk_max k2 < bk_offset k2 then k2\<lparr>bk_max := bk_offset k2\<rparr> else k2))"

section \<open>Target and bit rate\<close>

definition digit_val :: "char \<Rightarrow> nat" where
  "digit_val ch = (let n = of_char ch :: nat in
     if 48 \<le> n \<and> n \<le> 57 then n - 48
     else if 97 \<le> n \<and> n \<le> 122 then n - 87
     else if 65 \<le> n \<and> n \<le> 90 then n - 55 else 99)"

text \<open>\<open>strtoul(s, &end, 0)\<close> with 32-bit \<open>long\<close>; without digits its value is 0 as well.\<close>

definition strtoul0 :: "string \<Rightarrow> u32" where
  "strtoul0 s =
     (let t = dropWhile isspace s;
          neg = (take 1 t = ''-'');
          u = (if take 1 t = ''-'' \<or> take 1 t = ''+'' then drop 1 t else t);
          hex = ((take 2 u = ''0x'' \<or> take 2 u = ''0X'') \<and> drop 2 u \<noteq> [] \<and> isxdigit (u ! 2));
          base = (if hex then 16 else if take 1 u = ''0'' then 8 else 10);
          ds = takeWhile (\<lambda>d. d < base) (map digit_val (if hex then drop 2 u else u));
          n = foldl (\<lambda>a d. a * base + d) 0 ds
      in if 2 ^ 32 \<le> n then - 1 else if neg then - of_nat n else of_nat n)"

definition parse_hex_or_dec :: "string \<Rightarrow> u32" where
  "parse_hex_or_dec s = (if s = [] then 0 else strtoul0 s)"

definition apply_meta_json_overrides :: "fw_env \<Rightarrow> fw_meta \<Rightarrow> u32 \<times> u32 \<Rightarrow> u32 \<times> u32" where
  "apply_meta_json_overrides env m out =
     (if fm_meta_json m = [] then out
      else case e_json_parse env (bytes_of (fm_meta_json m)) of
             None \<Rightarrow> out
           | Some root \<Rightarrow>
               let (target, bitrate) = out;
                   t1 = (case root ''can_id'' of Some (JStr v) \<Rightarrow> parse_hex_or_dec v | _ \<Rightarrow> 0);
                   target = (if t1 \<noteq> 0 then t1 else target);
                   t2 = (case root ''target_id'' of Some (JStr v) \<Rightarrow> parse_hex_or_dec v | _ \<Rightarrow> 0);
                   target = (if t2 \<noteq> 0 then t2 else target);
                   b = (case root ''can_bitrate'' of Some (JNum n) \<Rightarrow> of_nat n | _ \<Rightarrow> 0);
                   bitrate = (if b \<noteq> 0 then b else bitrate)
               in (target, bitrate))"

definition can_tmp_path :: "fw_meta \<Rightarrow> string" where
  "can_tmp_path m = c_copy 384 (''/sdcard/'' @ fm_file_name m @ ''.'' @ fm_file_type m @ ''.can.bin'')"

definition can_fw_update_from_reader ::
    "can_env \<Rightarrow> bytes \<Rightarrow> (nat \<Rightarrow> bool) \<Rightarrow> fw_env \<Rightarrow> fw_meta \<Rightarrow> fw_storage_reader \<Rightarrow> can \<times> fw_sys \<Rightarrow>
     (esp_err \<times> can \<times> fw_sys) option" where
  "can_fw_update_from_reader cenv mem malloc_ok env m r cs =
     (let (c, s) = cs; p = can_tmp_path m
      in if \<not> e_can_create env p then Some (ESP_FAIL, c, set_step FW_STEP_ERROR ''CAN temp open fail'' s)
         else case fw_packaging_process malloc_ok env m r (bin_sink env)
                     \<lparr>bk_path = p, bk_fs = (sy_fs s)(p \<mapsto> []), bk_offset = 0, bk_max = 0\<rparr> of
                None \<Rightarrow> None
              | Some (ret, k) \<Rightarrow>
                  let s1 = s\<lparr>sy_fs := bk_fs k\<rparr>
                  in if ret \<noteq> ESP_OK then Some (ret, c, set_step FW_STEP_ERROR ''CAN packaging fail'' s1)
                     else case bk_fs k p of
                            None \<Rightarrow> Some (ESP_FAIL, c, set_step FW_STEP_ERROR ''CAN file open fail'' s1)
                          | Some f \<Rightarrow>
                              let target0 = (if parse_hex_or_dec (fm_target_id m) \<noteq> 0
                                             then parse_hex_or_dec (fm_target_id m) else CAN_ID_TMS_BOARD);
                                  bitrate0 = (if fm_can_bitrate m \<noteq> 0 then fm_can_bitrate m else 1000000);
                                  (target, bitrate) = apply_meta_json_overrides env m (target0, bitrate0)
                              in can_send_file cenv mem f (unat (bk_max k)) target bitrate (c, s1))"

declare tms_frames_loop.simps [simp del] tms_wait_loop.simps [simp del] can_write_loop.simps [simp del]
  bin_pad.simps [simp del]

section \<open>The transport protocol\<close>

text \<open>
  A receiver of segmented messages (ISO 15765-2): a first frame with a 12-bit length and six bytes,
  then consecutive frames of seven bytes, numbered modulo 16 from 1 on; frames behind the end of
  the message are not looked at.
\<close>

fun isotp_rest :: "nat \<Rightarrow> bytes \<Rightarrow> nat \<Rightarrow> bytes list \<Rightarrow> bytes option" where
  "isotp_rest sn acc tot [] = (if tot \<le> length acc then Some (take tot acc) else None)"
| "isotp_rest sn acc tot (f # fs) =
     (if tot \<le> length acc then Some (take tot acc)
      else if length f = 8 \<and> f ! 0 = of_nat (32 + sn)
      then isotp_rest ((sn + 1) mod 16) (acc @ tl f) tot fs
      else None)"

fun isotp_receive :: "bytes list \<Rightarrow> bytes option" where
  "isotp_receive [] = None"
| "isotp_receive (f # fs) =
     (if length f = 8 \<and> f ! 0 AND 0xF0 = 0x10
      then isotp_rest 1 (drop 2 f) (256 * unat (f ! 0 AND 0x0F) + unat (f ! 1)) fs
      else None)"

text \<open>A bus on which every transmission succeeds.\<close>

definition bus_ok :: "can_env \<Rightarrow> bool" where
  "bus_ok env \<longleftrightarrow> (\<forall>n. ce_tx env n = ESP_OK \<and> ce_install env n = ESP_OK \<and> ce_start env n = ESP_OK)"

abbreviation esp_frames :: "bytes list \<Rightarrow> can_msg list" where
  "esp_frames fs \<equiv> map (Pair CAN_ID_ESP32_BOARD) fs"

lemma incan_tx_ok [simp]: "bus_ok env \<Longrightarrow> incan_tx env i b c = (ESP_OK, c\<lparr>c_tx := c_tx c @ [(i, b)]\<rparr>)"
  by (simp add: incan_tx_def bus_ok_def)

lemma isotp_rest_done [simp]: "tot \<le> length acc \<Longrightarrow> isotp_rest sn acc tot fs = Some (take tot acc)"
  by (cases fs) simp_all

lemma below_16: "(n :: nat) < 16 \<Longrightarrow> n \<in> {0, 1, 2, 3, 4, 5, 6, 7, 8, 9, 10, 11, 12, 13, 14, 15}"
  by simp presburger

lemma step_number: "n < 16 \<Longrightarrow> (of_nat (32 + n) + 1) AND 0x2F = (of_nat (32 + (n + 1) mod 16) :: u8)"
  by (drule below_16) auto

lemma frames_loop_received:
  assumes "bus_ok env" "tot \<le> length mem" "n < 16"
  shows "\<exists>fs. tms_frames_loop env mem tot snt (of_nat (32 + n)) c =
      (ESP_OK, c\<lparr>c_tx := c_tx c @ esp_frames fs\<rparr>) \<and>
    (snt \<le> tot \<longrightarrow> 0 < tot \<longrightarrow> isotp_rest n (x # take snt mem) tot fs = Some (x # take (tot - 1) mem))"
  using assms(3)
proof (induction "tot - snt" arbitrary: snt n c rule: less_induct)
  case less
  show ?case
  proof (cases "snt < tot")
    case False
    then show ?thesis using assms(2)
      by (subst tms_frames_loop.simps) (auto intro!: exI [of _ "[]"] simp: min_def take_Cons')
  next
    case True
    let ?k = "if 7 \<le> tot - snt then 7 else tot - snt"
    let ?f = "of_nat (32 + n) # take ?k (drop snt mem) @ replicate (7 - ?k) 0"
    have dec: "tot - (snt + ?k) < tot - snt" using True by (intro diff_less_mono2) auto
    from less.hyps [OF dec, of "(n + 1) mod 16" "c\<lparr>c_tx := c_tx c @ esp_frames [?f]\<rparr>"]
    obtain fs where fs: "tms_frames_loop env mem tot (snt + ?k) (of_nat (32 + (n + 1) mod 16))
          (c\<lparr>c_tx := c_tx c @ esp_frames [?f]\<rparr>) =
        (ESP_OK, c\<lparr>c_tx := (c_tx c @ esp_frames [?f]) @ esp_frames fs\<rparr>)"
      and rec: "snt + ?k \<le> tot \<longrightarrow> 0 < tot \<longrightarrow>
        isotp_rest ((n + 1) mod 16) (x # take (snt + ?k) mem) tot fs = Some (x # take (tot - 1) mem)"
      by (auto simp del: of_nat_add of_nat_numeral)
    have 1: "tms_frames_loop env mem tot snt (of_nat (32 + n)) c =
        (ESP_OK, c\<lparr>c_tx := c_tx c @ esp_frames (?f # fs)\<rparr>)"
      using True assms(1) fs step_number [OF less.prems]
      by (subst tms_frames_loop.simps) (simp add: Let_def del: of_nat_add of_nat_numeral)
    have len: "length (take ?k (drop snt mem)) = ?k" using assms(2) True by simp
    have 2: "isotp_rest n (x # take snt mem) tot (?f # fs) = Some (x # take (tot - 1) mem)"
    proof (cases "tot \<le> Suc snt")
      case True
      then have "tot = Suc snt" using \<open>snt < tot\<close> by simp
      then show ?thesis using assms(2) by (simp add: min_def)
    next
      case more: False
      have acc: "(x # take snt mem) @ tl ?f = (x # take (snt + ?k) mem) @ replicate (7 - ?k) 0"
        by (simp add: take_add)
      have head: "isotp_rest n (x # take snt mem) tot (?f # fs) =
          isotp_rest ((n + 1) mod 16) ((x # take snt mem) @ tl ?f) tot fs"
        using more assms(2) len by (auto simp: min_def)
      show ?thesis
      proof (cases "7 \<le> tot - snt")
        case full: True
        then show ?thesis using rec True by (subst head, subst acc) simp
      next
        case part: False
        then have "?k = tot - snt" by simp
        then have "isotp_rest ((n + 1) mod 16) ((x # take (snt + ?k) mem) @ replicate (7 - ?k) 0) tot fs =
            Some (take tot (x # take tot mem @ replicate (7 - ?k) 0))"
          using True assms(2) by simp
        then show ?thesis using True assms(2) by (subst head, subst acc) (simp add: take_Cons' min_def)
      qed
    qed
    show ?thesis using 1 2 by blast
  qed
qed

text \<open>The length in the first frame.\<close>

lemma first_frame_length:
  assumes "n < 4096"
  shows "(0x10 OR ucast (drop_bit 8 ((of_nat n :: u16) AND 0xF00))) AND (0xF0 :: u8) = 0x10"
    and "256 * unat ((0x10 OR ucast (drop_bit 8 ((of_nat n :: u16) AND 0xF00))) AND (0x0F :: u8)) +
      unat (ucast ((of_nat n :: u16) AND 0xFF) :: u8) = n"
proof -
  have n: "unat (of_nat n :: u16) = n" using assms by (intro unat_of_nat_small) simp
  have "drop_bit 8 ((of_nat n :: u16) AND 0xF00) = take_bit 4 (drop_bit 8 (of_nat n))"
    by (simp add: drop_bit_and take_bit_eq_mask mask_eq_exp_minus_1)
  moreover have "unat (drop_bit 8 (of_nat n :: u16)) = n div 256"
    using n by (simp add: drop_bit_eq_div unat_div)
  ultimately have "unat (drop_bit 8 ((of_nat n :: u16) AND 0xF00)) = n div 256"
    using assms by (simp add: unsigned_take_bit_eq take_bit_nat_eq_self)
  then have h: "(ucast (drop_bit 8 ((of_nat n :: u16) AND 0xF00)) :: u8) = of_nat (n div 256)"
    by (metis of_nat_unat)
  have l: "unat (ucast ((of_nat n :: u16) AND 0xFF) :: u8) = n mod 256"
    using n by (simp add: and_255 unsigned_take_bit_eq take_bit_eq_mod unsigned_ucast_eq unat_mod)
  have "n div 256 < 16" using assms by auto
  then have "(0x10 OR of_nat (n div 256)) AND (0xF0 :: u8) = 0x10 \<and>
      unat ((0x10 OR of_nat (n div 256)) AND (0x0F :: u8)) = n div 256"
    by (drule_tac below_16) auto
  with h l show "(0x10 OR ucast (drop_bit 8 ((of_nat n :: u16) AND 0xF00))) AND (0xF0 :: u8) = 0x10"
    and "256 * unat ((0x10 OR ucast (drop_bit 8 ((of_nat n :: u16) AND 0xF00))) AND (0x0F :: u8)) +
      unat (ucast ((of_nat n :: u16) AND 0xFF) :: u8) = n"
    by simp_all
qed

definition flow_frame :: "can_msg \<Rightarrow> bool" where
  "flow_frame m \<longleftrightarrow> fst m = CAN_ID_TMS_BOARD \<and> check_frame_flowcontrol (snd m ! 0)"

definition answer :: "u32 \<Rightarrow> u8 \<Rightarrow> can_msg \<Rightarrow> bool" where
  "answer i sid m \<longleftrightarrow> fst m = i \<and> check_frame_single (snd m ! 0) \<and> snd m ! 1 = get_id_response sid"

lemma page_sent:
  assumes "bus_ok env" "0 < n" "n \<le> 1024" "n < length mem" "5 \<le> length mem"
    and "c_rx c = Some fc # Some m # rs" "flow_frame fc" "answer CAN_ID_TMS_BOARD SID_TARGET_USER_SW_DATA_SEND m"
  shows "\<exists>fs. tms_user_sw_send env mem n c = Some (ESP_OK, c\<lparr>c_tx := c_tx c @ esp_frames fs, c_rx := rs\<rparr>) \<and>
    isotp_receive fs = Some (0x21 # take n mem)"
proof -
  let ?w = "of_nat (n + 1) :: u16"
  let ?f = "[0x10 OR ucast (drop_bit 8 (?w AND 0xF00)), ucast (?w AND 0xFF), SID_TARGET_USER_SW_DATA_SEND] @ take 5 mem"
  let ?c = "c\<lparr>c_tx := c_tx c @ esp_frames [?f], c_rx := Some m # rs\<rparr>"
  have n16: "(1 :: nat) < 16" by simp
  obtain fs where fs: "tms_frames_loop env mem (n + 1) 5 (of_nat (32 + 1)) ?c =
      (ESP_OK, ?c\<lparr>c_tx := c_tx ?c @ esp_frames fs\<rparr>)"
    and rec: "5 \<le> n + 1 \<longrightarrow> 0 < n + 1 \<longrightarrow> isotp_rest 1 (0x21 # take 5 mem) (n + 1) fs = Some (0x21 # take (n + 1 - 1) mem)"
    using frames_loop_received [OF assms(1) _ n16, where tot = "n + 1" and mem = mem and snt = 5 and c = ?c and x = "0x21"] assms(4) by auto
  have rest: "isotp_rest 1 (0x21 # take 5 mem) (n + 1) fs = Some (0x21 # take n mem)"
  proof (cases "5 \<le> n + 1")
    case True
    then show ?thesis using rec by simp
  next
    case False
    then show ?thesis using assms(5) by (simp add: min_def)
  qed
  have 1: "isotp_receive (?f # fs) = Some (0x21 # take n mem)"
    using rest assms(3,5) first_frame_length [of "n + 1"]
    by (simp add: SID_TARGET_USER_SW_DATA_SEND_def del: of_nat_Suc)
  have 2: "tms_user_sw_send env mem n c = Some (ESP_OK, c\<lparr>c_tx := c_tx c @ esp_frames (?f # fs), c_rx := rs\<rparr>)"
    using assms(1,6-8) fs
    by (simp add: tms_user_sw_send_def Let_def flow_frame_def answer_def)
  from 1 2 show ?thesis by blast
qed

section \<open>The whole download\<close>

definition cmd_frame :: "u8 \<Rightarrow> u8 \<Rightarrow> bytes" where
  "cmd_frame sid b2 = [0x01, sid, b2, 0, 0, 0, 0, 0]"

definition write_frame :: "nat \<Rightarrow> nat \<Rightarrow> bytes" where
  "write_frame off len =
     [0x06, 0x22, of_nat off, of_nat (off div 256), of_nat (off div 65536), of_nat len, of_nat (len div 256), 0]"

text \<open>
  The frames that program an image from an offset on: page by page a segmented message with service
  identifier and data, then the command that writes it at the offset.
\<close>

inductive flash_log :: "nat \<Rightarrow> bytes \<Rightarrow> bytes list \<Rightarrow> bool" where
  log_end: "flash_log off [] []"
| log_page: "isotp_receive ps = Some (0x21 # page) \<Longrightarrow> length page = min 1024 (length (page @ f)) \<Longrightarrow> page \<noteq> [] \<Longrightarrow>
    flash_log (off + length page) f fs \<Longrightarrow>
    flash_log off (page @ f) (ps @ write_frame off (length page) # fs)"

lemma wait_ok:
  assumes "c_rx c = Some m # rs" "answer target sid m"
  shows "tms_wait_response sid target TIMEOUT_LONG c = (ESP_OK, c\<lparr>c_rx := rs\<rparr>)"
  using assms
  by (simp add: tms_wait_response_def TIMEOUT_LONG_def incan_get_message_def answer_def tms_wait_loop.simps)

lemma request_ok:
  assumes "bus_ok env" "c_rx c = Some m # rs" "answer target sid m"
  shows "tms_request env target sid b2 c =
    (ESP_OK, c\<lparr>c_tx := c_tx c @ esp_frames [cmd_frame sid b2], c_rx := rs\<rparr>)"
  using assms wait_ok [of "c\<lparr>c_tx := c_tx c @ esp_frames [cmd_frame sid b2]\<rparr>" m rs target sid]
  by (simp add: tms_request_def tms_send_cmd_def cmd_frame_def)

lemma open_ok:
  assumes "bus_ok env"
  shows "\<exists>c'. incan_open env bps i c = (ESP_OK, c') \<and> c_rx c' = c_rx c \<and> c_tx c' = c_tx c"
  using assms by (simp add: incan_open_def incan_stop_def bus_ok_def Let_def)

lemma erase_ok:
  assumes "bus_ok env" "c_rx c = map Some ms @ rs" "list_all (answer target SID_TARGET_FLASH_ERASE) ms"
    and "length ms = length is"
  shows "\<exists>s'. can_erase_loop env target is (c, s) = (ESP_OK, c\<lparr>c_tx := c_tx c @
    esp_frames (map (\<lambda>i. cmd_frame SID_TARGET_FLASH_ERASE (of_nat i)) is), c_rx := rs\<rparr>, s')"
  using assms
proof (induction "is" arbitrary: c s ms)
  case Nil
  then show ?case by simp
next
  case (Cons i "is")
  obtain m ms' where ms: "ms = m # ms'" using Cons.prems(4) by (cases ms) auto
  let ?c = "c\<lparr>c_tx := c_tx c @ esp_frames [cmd_frame SID_TARGET_FLASH_ERASE (of_nat i)], c_rx := map Some ms' @ rs\<rparr>"
  have r: "tms_request env target SID_TARGET_FLASH_ERASE (of_nat i) c = (ESP_OK, ?c)"
    using Cons.prems ms by (intro request_ok [of _ _ m]) auto
  obtain s' where "can_erase_loop env target is (?c, set_progress (of_nat ((i + 1) * 100 div MAX_INDEX_FLASH)) s) =
      (ESP_OK, ?c\<lparr>c_tx := c_tx ?c @
        esp_frames (map (\<lambda>i. cmd_frame SID_TARGET_FLASH_ERASE (of_nat i)) is), c_rx := rs\<rparr>, s')"
    using Cons.IH [where c = ?c and ms = ms' and s = "set_progress (of_nat ((i + 1) * 100 div MAX_INDEX_FLASH)) s"]
      Cons.prems ms by auto
  with r show ?case by (simp add: Let_def)
qed

definition head_frames :: "bytes list" where
  "head_frames = [cmd_frame 0x10 0, cmd_frame 0x11 0] @ map (\<lambda>i. cmd_frame 0x20 (of_nat i)) [0..<16]"

text \<open>The answers a board gives until its flash is erased.\<close>

definition head_answers :: "u32 \<Rightarrow> can_msg list \<Rightarrow> bool" where
  "head_answers target ms \<longleftrightarrow> length ms = 18 \<and> answer target 0x10 (ms ! 0) \<and> answer target 0x11 (ms ! 1) \<and>
     list_all (answer target 0x20) (drop 2 ms)"

lemma send_head:
  assumes "bus_ok env" "c_rx c = map Some ms @ rs" "head_answers target ms"
  shows "\<exists>c' s'. c_rx c' = rs \<and> c_tx c' = c_tx c @ esp_frames head_frames \<and>
    can_send_file env mem f sz target br (c, s) =
      (case can_write_loop env target sz mem 0 f (c', s') of
         None \<Rightarrow> None
       | Some (r, c, s) \<Rightarrow>
           if r \<noteq> ESP_OK then Some (r, c, s)
           else let s = set_step FW_STEP_DONE ''CAN finish'' s; (r, c) = tms_send_cmd env SID_TARGET_DOWNLOAD_FINISH 0x01 c
                in Some (if r \<noteq> ESP_OK then ESP_FAIL else ESP_OK, c, s))"
proof -
  obtain m0 m1 es where ms: "ms = m0 # m1 # es" "length es = 16"
    using assms(3) by (auto simp: head_answers_def numeral_eq_Suc length_Suc_conv)
  with assms(3) have ans: "answer target 0x10 m0" "answer target 0x11 m1" "list_all (answer target 0x20) es"
    by (auto simp: head_answers_def)
  obtain c1 where c1: "incan_open env 125000 target c = (ESP_OK, c1)" "c_rx c1 = c_rx c" "c_tx c1 = c_tx c"
    using open_ok [OF assms(1)] by blast
  define c2 where "c2 = c1\<lparr>c_tx := c_tx c1 @ esp_frames [cmd_frame 0x10 0], c_rx := Some m1 # map Some es @ rs\<rparr>"
  have r1: "tms_request env target 0x10 0 c1 = (ESP_OK, c2)"
    unfolding c2_def using c1 assms(1,2) ms ans by (intro request_ok [of _ _ m0]) auto
  obtain c3 where c3: "incan_open env br target c2 = (ESP_OK, c3)" "c_rx c3 = c_rx c2" "c_tx c3 = c_tx c2"
    using open_ok [OF assms(1)] by blast
  define c4 where "c4 = c3\<lparr>c_tx := c_tx c3 @ esp_frames [cmd_frame 0x11 0], c_rx := map Some es @ rs\<rparr>"
  have r2: "tms_request env target 0x11 0 c3 = (ESP_OK, c4)"
    unfolding c4_def using c3 c2_def assms(1) ans by (intro request_ok [of _ _ m1]) auto
  define s4 where "s4 = set_step FW_STEP_WRITE ''CAN erase'' (set_step FW_STEP_VERIFY ''CAN boot check''
      (set_step FW_STEP_PREPARE ''CAN enter boot'' s))"
  obtain s5 where er: "can_erase_loop env target [0..<MAX_INDEX_FLASH] (c4, s4) = (ESP_OK, c4\<lparr>c_tx := c_tx c4 @
      esp_frames (map (\<lambda>i. cmd_frame SID_TARGET_FLASH_ERASE (of_nat i)) [0..<MAX_INDEX_FLASH]), c_rx := rs\<rparr>, s5)"
    using erase_ok [OF assms(1), of c4 es rs target "[0..<MAX_INDEX_FLASH]" s4] ans ms c4_def
    by (auto simp: SID_TARGET_FLASH_ERASE_def MAX_INDEX_FLASH_def)
  let ?c = "c4\<lparr>c_tx := c_tx c4 @
      esp_frames (map (\<lambda>i. cmd_frame SID_TARGET_FLASH_ERASE (of_nat i)) [0..<MAX_INDEX_FLASH]), c_rx := rs\<rparr>"
  let ?s = "set_step FW_STEP_WRITE ''CAN write'' s5"
  have "can_send_file env mem f sz target br (c, s) =
      (case can_write_loop env target sz mem 0 f (?c, ?s) of
         None \<Rightarrow> None
       | Some (r, c, s) \<Rightarrow>
           if r \<noteq> ESP_OK then Some (r, c, s)
           else let s = set_step FW_STEP_DONE ''CAN finish'' s; (r, c) = tms_send_cmd env SID_TARGET_DOWNLOAD_FINISH 0x01 c
                in Some (if r \<noteq> ESP_OK then ESP_FAIL else ESP_OK, c, s))"
    by (simp add: can_send_file_def Let_def c1(1) r1 c3(1) r2 er SID_TARGET_DOWNLOAD_START_def
        SID_TARGET_BOOT_RUN_CHECK_def s4_def [symmetric])
  moreover have "c_rx ?c = rs \<and> c_tx ?c = c_tx c @ esp_frames head_frames"
    by (simp add: c4_def c3 c2_def c1 head_frames_def SID_TARGET_FLASH_ERASE_def MAX_INDEX_FLASH_def)
  ultimately show ?thesis by blast
qed

text \<open>The answers to the pages: flow control, the answer to the data, the answer to the write command.\<close>

definition page_answers :: "u32 \<Rightarrow> can_msg \<times> can_msg \<times> can_msg \<Rightarrow> bool" where
  "page_answers target = (\<lambda>(fc, m, w). flow_frame fc \<and>
     answer CAN_ID_TMS_BOARD SID_TARGET_USER_SW_DATA_SEND m \<and> answer target SID_TARGET_FLASH_WRITE w)"

definition page_script :: "can_msg \<times> can_msg \<times> can_msg \<Rightarrow> can_msg option list" where
  "page_script = (\<lambda>(fc, m, w). [Some fc, Some m, Some w])"

lemma shift_byte:
  assumes "n < 2 ^ LENGTH('a)"
  shows "(ucast (drop_bit k (of_nat n :: 'a :: len word)) :: u8) = of_nat (n div 2 ^ k)"
proof -
  have "unat (drop_bit k (of_nat n :: 'a word)) = n div 2 ^ k"
    using assms by (simp only: unat_drop_bit_eq unat_of_nat_small) (simp add: drop_bit_eq_div)
  then show ?thesis by (metis of_nat_unat)
qed

lemma ucast_and_255: "(ucast (w AND 0xFF) :: u8) = ucast (w :: 'a :: len word)"
  by (rule bit_word_eqI) (auto simp: and_255 bit_simps)

lemma flash_write_ok:
  assumes "bus_ok env" "off < 2 ^ 24" "n < 2 ^ 16"
  shows "tms_flash_write env (of_nat off) (of_nat n) c =
    (ESP_OK, c\<lparr>c_tx := c_tx c @ esp_frames [write_frame off n]\<rparr>)"
proof -
  have off: "off < 2 ^ LENGTH(32)" and n: "n < 2 ^ LENGTH(16)" using assms by simp_all
  have "ucast ((of_nat off :: u32) AND 0xFF) = (of_nat off :: u8)"
    using shift_byte [OF off, of 0] by (simp only: ucast_and_255) simp
  moreover have "ucast (drop_bit 8 ((of_nat off :: u32) AND 0xFF00)) = (of_nat (off div 256) :: u8)"
    using shift_byte [OF off, of 8] ucast_and_255 [of "drop_bit 8 (of_nat off :: u32)"]
    by (simp add: drop_bit_and)
  moreover have "ucast (drop_bit 16 ((of_nat off :: u32) AND 0xFF0000)) = (of_nat (off div 65536) :: u8)"
    using shift_byte [OF off, of 16] ucast_and_255 [of "drop_bit 16 (of_nat off :: u32)"]
    by (simp add: drop_bit_and)
  moreover have "lo8 (of_nat n) = (of_nat n :: u8)"
    using shift_byte [OF n, of 0] by (simp only: lo8_def ucast_and_255) simp
  moreover have "hi8 (of_nat n) = (of_nat (n div 256) :: u8)"
    using shift_byte [OF n, of 8] by (simp add: hi8_def)
  ultimately show ?thesis
    using assms(1) by (simp add: tms_flash_write_def write_frame_def SID_TARGET_FLASH_WRITE_def)
qed

lemma page_count: "0 < n \<Longrightarrow> (n + 1023) div 1024 = Suc ((n - min 1024 n + 1023) div (1024 :: nat))"
proof (cases "1024 \<le> n")
  case True
  then obtain m where "n = 1024 + m" using le_Suc_ex by blast
  then show ?thesis by simp
next
  case False
  assume "0 < n"
  with False have "(n + 1023) div 1024 = 1" by (intro div_nat_eqI) simp_all
  with False show ?thesis by simp
qed

lemma write_ok:
  assumes "bus_ok env" "length mem = 1025" "sz = off + length f" "sz < 2 ^ 24"
    and "c_rx c = concat (map page_script ps) @ rs" "list_all (page_answers target) ps"
    and "length ps = (length f + 1023) div 1024"
  shows "\<exists>s' fs. can_write_loop env target sz mem off f (c, s) =
      Some (ESP_OK, c\<lparr>c_tx := c_tx c @ esp_frames fs, c_rx := rs\<rparr>, s') \<and> flash_log off f fs"
  using assms(2-)
proof (induction "length f" arbitrary: f mem off c s ps rule: less_induct)
  case less
  show ?case
  proof (cases "f = []")
    case True
    then show ?thesis using less.prems
      by (subst can_write_loop.simps) (auto intro!: exI [of _ "[]"] log_end)
  next
    case False
    let ?rd = "min 1024 (length f)"
    let ?page = "take ?rd f" and ?f = "drop ?rd f"
    let ?mem = "?page @ drop ?rd mem"
    have lens: "length ?page = ?rd" "0 < ?rd" "length ?mem = 1025" "?page \<noteq> []"
      using False less.prems(1) by auto
    have "length ps \<noteq> 0" using less.prems(6) False by (cases f) auto
    then obtain fc m w ps' where ps: "ps = (fc, m, w) # ps'" by (cases ps) auto
    with less.prems(5) have ans: "flow_frame fc" "answer CAN_ID_TMS_BOARD SID_TARGET_USER_SW_DATA_SEND m"
      "answer target SID_TARGET_FLASH_WRITE w" "list_all (page_answers target) ps'"
      by (auto simp: page_answers_def)
    let ?rs = "concat (map page_script ps') @ rs"
    have rx: "c_rx c = Some fc # Some m # Some w # ?rs" using less.prems(4) ps by (simp add: page_script_def)
    have "\<exists>fs. tms_user_sw_send env ?mem ?rd c =
        Some (ESP_OK, c\<lparr>c_tx := c_tx c @ esp_frames fs, c_rx := Some w # ?rs\<rparr>) \<and>
        isotp_receive fs = Some (0x21 # take ?rd ?mem)"
      using lens by (intro page_sent [OF assms(1) lens(2) _ _ _ rx ans(1,2)]) simp_all
    then obtain pf where pf: "tms_user_sw_send env ?mem ?rd c =
        Some (ESP_OK, c\<lparr>c_tx := c_tx c @ esp_frames pf, c_rx := Some w # ?rs\<rparr>)"
      and rcv: "isotp_receive pf = Some (0x21 # take ?rd ?mem)"
      by blast
    let ?c1 = "c\<lparr>c_tx := c_tx c @ esp_frames pf, c_rx := Some w # ?rs\<rparr>"
    let ?c = "c\<lparr>c_tx := c_tx c @ esp_frames (pf @ [write_frame off ?rd]), c_rx := ?rs\<rparr>"
    let ?s = "set_progress (ucast ((of_nat (off + ?rd) * 100 :: u32) div of_nat sz)) s"
    have to_read: "(if SIZE_FLASH_ONE_PAGE < sz - off then SIZE_FLASH_ONE_PAGE else sz - off) = ?rd"
      using less.prems(2) by (simp add: SIZE_FLASH_ONE_PAGE_def min_def)
    have fw: "tms_flash_write env (of_nat off) (of_nat ?rd) ?c1 =
        (ESP_OK, ?c1\<lparr>c_tx := c_tx ?c1 @ esp_frames [write_frame off ?rd]\<rparr>)"
      using less.prems(2,3) by (intro flash_write_ok [OF assms(1)]) simp_all
    have wt: "tms_wait_response SID_TARGET_FLASH_WRITE target TIMEOUT_LONG
        (?c1\<lparr>c_tx := c_tx ?c1 @ esp_frames [write_frame off ?rd]\<rparr>) = (ESP_OK, ?c)"
      using wait_ok [OF _ ans(3), of "?c1\<lparr>c_tx := c_tx ?c1 @ esp_frames [write_frame off ?rd]\<rparr>" ?rs] by simp
    have ne: "(?rd = 0) = False" "(off < sz) = True" using lens(2) less.prems(2) False by simp_all
    have step: "can_write_loop env target sz mem off f (c, s) =
        can_write_loop env target sz ?mem (off + ?rd) ?f (?c, ?s)"
      by (subst can_write_loop.simps)
        (simp only: to_read lens(1) ne pf fw wt Let_def option.case prod.case simp_thms if_True if_False)
    have "length ?f < length f" using lens(2) by simp
    note ih = less.hyps [OF this lens(3)]
    have "\<exists>s' fs. can_write_loop env target sz ?mem (off + ?rd) ?f (?c, ?s) =
        Some (ESP_OK, ?c\<lparr>c_tx := c_tx ?c @ esp_frames fs, c_rx := rs\<rparr>, s') \<and> flash_log (off + ?rd) ?f fs"
    proof (rule ih)
      show "sz = off + ?rd + length ?f" using less.prems(2) by simp
      show "length ps' = (length ?f + 1023) div 1024" using less.prems(6) ps page_count [of "length f"] lens(2) by simp
    qed (use less.prems(3) ans(4) in simp_all)
    then obtain s' fs where "can_write_loop env target sz ?mem (off + ?rd) ?f (?c, ?s) =
        Some (ESP_OK, ?c\<lparr>c_tx := c_tx ?c @ esp_frames fs, c_rx := rs\<rparr>, s')"
      and log: "flash_log (off + ?rd) ?f fs"
      by blast
    moreover have "flash_log off (?page @ ?f) (pf @ write_frame off (length ?page) # fs)"
      using rcv log lens by (intro log_page) simp_all
    ultimately show ?thesis using step lens(1)
      by (intro exI [of _ s'] exI [of _ "pf @ write_frame off ?rd # fs"]) simp
  qed
qed

lemma await_none: "\<forall>m. Some m \<in> set ms \<longrightarrow> \<not> p m \<Longrightarrow> await_msg p ms = None"
  by (induction ms rule: await_msg.induct [of _ p]) auto

section \<open>The flat image\<close>

text \<open>Blocks in ascending order without overlap, from an address on; the byte they put at an address.\<close>

fun ascending :: "nat \<Rightarrow> (u32 \<times> bytes) list \<Rightarrow> bool" where
  "ascending a [] \<longleftrightarrow> True"
| "ascending a (w # ws) \<longleftrightarrow> a \<le> unat (fst w) \<and> unat (fst w) + length (snd w) < 2 ^ 32 \<and>
     ascending (unat (fst w) + length (snd w)) ws"

fun image_end :: "nat \<Rightarrow> (u32 \<times> bytes) list \<Rightarrow> nat" where
  "image_end a [] = a"
| "image_end a (w # ws) = image_end (unat (fst w) + length (snd w)) ws"

definition image_at :: "(u32 \<times> bytes) list \<Rightarrow> nat \<Rightarrow> u8" where
  "image_at ws x = (case find (\<lambda>w. unat (fst w) \<le> x \<and> x < unat (fst w) + length (snd w)) ws of
     None \<Rightarrow> 0xFF | Some w \<Rightarrow> snd w ! (x - unat (fst w)))"

lemma image_at_Cons:
  "image_at (w # ws) x = (if unat (fst w) \<le> x \<and> x < unat (fst w) + length (snd w)
     then snd w ! (x - unat (fst w)) else image_at ws x)"
  by (simp add: image_at_def)

lemma image_at_below: "ascending a ws \<Longrightarrow> x < a \<Longrightarrow> image_at ws x = 0xFF"
  by (induction ws arbitrary: a) (auto simp: image_at_Cons, simp add: image_at_def)

lemma image_end_ge: "ascending a ws \<Longrightarrow> a \<le> image_end a ws"
  by (induction ws arbitrary: a) force+

lemma image_Cons:
  assumes "ascending a (w # ws)"
  shows "map (image_at (w # ws)) [a..<image_end a (w # ws)] =
    replicate (unat (fst w) - a) 0xFF @ snd w @
    map (image_at ws) [unat (fst w) + length (snd w)..<image_end (unat (fst w) + length (snd w)) ws]"
proof -
  let ?b = "unat (fst w)" and ?e = "unat (fst w) + length (snd w)"
  have asc: "ascending ?e ws" and le: "a \<le> ?b" using assms by simp_all
  have "[a..<image_end ?e ws] = [a..<?b] @ [?b..<?e] @ [?e..<image_end ?e ws]"
    using le image_end_ge [OF asc] upt_add_eq_append [of a ?b "image_end ?e ws - ?b"]
      upt_add_eq_append [of ?b ?e "image_end ?e ws - ?e"] by simp
  moreover have "map (image_at (w # ws)) [a..<?b] = replicate (?b - a) 0xFF"
    using image_at_below [OF asc] by (intro nth_equalityI) (auto simp: image_at_Cons)
  moreover have "map (image_at (w # ws)) [?b..<?e] = snd w"
    by (intro nth_equalityI) (auto simp: image_at_Cons)
  moreover have "map (image_at (w # ws)) [?e..<image_end ?e ws] = map (image_at ws) [?e..<image_end ?e ws]"
    by (simp add: image_at_Cons)
  ultimately show ?thesis by simp
qed

lemma bin_pad_full:
  assumes "\<forall>q bs. e_fwrite env q bs = length bs" "fs p = Some f"
  shows "bin_pad env p gap fs = fs(p \<mapsto> f @ replicate gap 0xFF)"
  using assms(2)
proof (induction gap arbitrary: fs f rule: less_induct)
  case (less gap)
  show ?case
  proof (cases "0 < gap")
    case False
    then show ?thesis using less.prems by (subst bin_pad.simps) auto
  next
    case True
    let ?n = "if 64 < gap then 64 else gap"
    have put: "snd (fput env p (replicate ?n 0xFF) fs) = fs(p \<mapsto> f @ replicate ?n 0xFF)"
      using assms(1) less.prems by (simp add: fput_def)
    have "gap - ?n < gap" using True by simp
    from less.IH [OF this, of "fs(p \<mapsto> f @ replicate ?n 0xFF)" "f @ replicate ?n 0xFF"]
    have "bin_pad env p (gap - ?n) (fs(p \<mapsto> f @ replicate ?n 0xFF)) =
        fs(p \<mapsto> f @ replicate ?n 0xFF @ replicate (gap - ?n) 0xFF)"
      by (simp only: fun_upd_same fun_upd_upd append_assoc simp_thms)
    also have "replicate ?n 0xFF @ replicate (gap - ?n) 0xFF = (replicate gap 0xFF :: bytes)"
      by (simp flip: replicate_add)
    finally show ?thesis using True put by (subst bin_pad.simps) (simp only: Let_def if_True)
  qed
qed

lemma bin_sink_feed:
  assumes "\<forall>q bs. e_fwrite env q bs = length bs"
    and "bk_fs k (bk_path k) = Some f" "unat (bk_offset k) = length f" "bk_max k = bk_offset k"
    and "ascending (length f) ws"
  shows "\<exists>k'. feed (bin_sink env) ws k = (ESP_OK, k') \<and> unat (bk_max k') = image_end (length f) ws \<and>
    bk_fs k' = (bk_fs k)(bk_path k \<mapsto> f @ map (image_at ws) [length f..<image_end (length f) ws])"
  using assms(2-)
proof (induction ws arbitrary: k f)
  case Nil
  then show ?case by (auto simp: fun_upd_idem)
next
  case (Cons w ws)
  obtain a d where w: "w = (a, d)" by (cases w)
  have asc: "length f \<le> unat a" "unat a + length d < 2 ^ 32" "ascending (unat a + length d) ws"
    using Cons.prems(4) w by simp_all
  let ?f = "f @ replicate (unat a - length f) 0xFF @ d"
  let ?k = "k\<lparr>bk_fs := (bk_fs k)(bk_path k \<mapsto> ?f), bk_offset := a + of_nat (length d), bk_max := a + of_nat (length d)\<rparr>"
  have off: "unat (a + of_nat (length d)) = unat a + length d"
    using asc(2) by (simp add: unat_word_ariths unat_of_nat take_bit_nat_eq_self)
  have le: "bk_offset k \<le> a" using Cons.prems(2) asc(1) by (simp add: word_le_nat_alt)
  have gap: "unat (a - bk_offset k) = unat a - length f" using le Cons.prems(2) by (simp add: unat_sub)
  have sink: "bin_sink env a d k = (ESP_OK, ?k)"
  proof (cases "bk_offset k < a")
    case True
    moreover have "bk_max k < a + of_nat (length d)"
      using True Cons.prems(3) off by (simp add: word_less_nat_alt)
    ultimately show ?thesis using gap assms(1) Cons.prems(1)
      by (simp add: bin_sink_def Let_def bin_pad_full [where p = "bk_path k" and f = f and fs = "bk_fs k"] fput_def)
  next
    case False
    then have a: "a = bk_offset k" using le by simp
    have "bk_max k < a + of_nat (length d) \<or> d = []"
      using a off Cons.prems(3) by (cases d) (auto simp: word_less_nat_alt)
    then show ?thesis using a assms(1) Cons.prems(1-3) gap by (auto simp: bin_sink_def Let_def fput_def)
  qed
  have len: "length ?f = unat a + length d" using asc(1) by simp
  have "\<exists>k'. feed (bin_sink env) ws ?k = (ESP_OK, k') \<and> unat (bk_max k') = image_end (length ?f) ws \<and>
      bk_fs k' = (bk_fs ?k)(bk_path ?k \<mapsto> ?f @ map (image_at ws) [length ?f..<image_end (length ?f) ws])"
    using asc(3) off len by (intro Cons.IH) simp_all
  then obtain k' where k': "feed (bin_sink env) ws ?k = (ESP_OK, k')"
    "unat (bk_max k') = image_end (unat a + length d) ws"
    "bk_fs k' = (bk_fs ?k)(bk_path ?k \<mapsto> ?f @ map (image_at ws) [unat a + length d..<image_end (unat a + length d) ws])"
    unfolding len by blast
  have "f @ map (image_at (w # ws)) [length f..<image_end (length f) (w # ws)] =
      ?f @ map (image_at ws) [unat a + length d..<image_end (unat a + length d) ws]"
    using image_Cons [OF Cons.prems(4)] w by simp
  with k' sink w show ?case by (intro exI [of _ k']) simp
qed

lemma contiguous_image:
  assumes "contiguous a ws" "unat a + length (concat (map snd ws)) < 2 ^ 32"
  shows "ascending (unat a) ws \<and> image_end (unat a) ws = unat a + length (concat (map snd ws)) \<and>
    map (image_at ws) [unat a..<unat a + length (concat (map snd ws))] = concat (map snd ws)"
  using assms
proof (induction ws arbitrary: a)
  case Nil
  then show ?case by simp
next
  case (Cons w ws)
  have a: "fst w = a" "contiguous (a + of_nat (length (snd w))) ws" using Cons.prems(1) by simp_all
  have off: "unat (a + of_nat (length (snd w))) = unat a + length (snd w)"
    using Cons.prems(2) by (simp add: unat_word_ariths unat_of_nat take_bit_nat_eq_self)
  have ih: "ascending (unat a + length (snd w)) ws" "image_end (unat a + length (snd w)) ws =
      unat a + length (snd w) + length (concat (map snd ws))"
    "map (image_at ws) [unat a + length (snd w)..<unat a + length (snd w) + length (concat (map snd ws))] = concat (map snd ws)"
    using Cons.IH [OF a(2)] Cons.prems(2) off by simp_all
  have "ascending (unat a) (w # ws)" using ih(1) a(1) Cons.prems(2) by simp
  from this image_Cons [OF this] ih a(1) show ?case by (simp add: add.assoc)
qed

section \<open>Properties\<close>

text \<open>The temporary file a packaged image is written to. For blocks in ascending order without overlap
  the sink succeeds, the file holds at each address the byte of the block that covers it and 0xFF
  in the gaps, its size is the end of the last block, and no other file changes.\<close>

theorem can_flat_image:
  assumes "\<forall>q bs. e_fwrite env q bs = length bs" "ascending 0 ws"
  shows "\<exists>k'. feed (bin_sink env) ws \<lparr>bk_path = p, bk_fs = fs(p \<mapsto> []), bk_offset = 0, bk_max = 0\<rparr> = (ESP_OK, k') \<and>
    unat (bk_max k') = image_end 0 ws \<and> bk_fs k' = fs(p \<mapsto> map (image_at ws) [0..<image_end 0 ws])"
  using bin_sink_feed [OF assms(1), of "\<lparr>bk_path = p, bk_fs = fs(p \<mapsto> []), bk_offset = 0, bk_max = 0\<rparr>" "[]" ws]
    assms(2) by simp

text \<open>C23: Programming a raw binary over CAN, end to end. For an image of less than 16 MB whose meta block
  gives no target and no overrides, on a working card and a bus without errors, with a TMS board that
  answers every request, \<open>can_fw_update_from_reader\<close> ends with success, and the frames it sends
  are the boot commands, the erase commands of all sixteen sectors, for each page a segmented
  message that a receiver of the transport protocol reassembles to exactly that page of the stored
  image, followed by the command that writes it at its offset, and the finish command.\<close>

theorem can_update_bin:
  assumes "bus_ok cenv" "length mem = 1025" "\<forall>q bs. e_fwrite env q bs = length bs"
    and "e_can_create env (can_tmp_path m)" "fm_format m = FW_FMT_BIN" "fm_target_id m = []" "fm_meta_json m = []"
    and "reader_ok env r" "length (reader_rest env r) < 2 ^ 24"
    and "c_rx c = map Some ms @ concat (map page_script ps)"
    and "head_answers CAN_ID_TMS_BOARD ms" "list_all (page_answers CAN_ID_TMS_BOARD) ps"
    and "length ps = (length (reader_rest env r) + 1023) div 1024"
  shows "\<exists>c' s' fs. can_fw_update_from_reader cenv mem malloc_ok env m r (c, s) = Some (ESP_OK, c', s') \<and>
    c_rx c' = [] \<and> flash_log 0 (reader_rest env r) fs \<and>
    c_tx c' = c_tx c @ esp_frames (head_frames @ fs @ [cmd_frame 0x12 0x01])"
proof -
  let ?p = "can_tmp_path m" and ?d = "reader_rest env r"
  let ?k = "\<lparr>bk_path = ?p, bk_fs = (sy_fs s)(?p \<mapsto> []), bk_offset = 0, bk_max = 0\<rparr>"
  obtain ws rest where ws: "process_bin_loop env (bin_sink env) 0 r ?k = Some (feed (bin_sink env) ws ?k)"
    "contiguous 0 ws" "?d = concat (map snd ws) @ rest" "fst (feed (bin_sink env) ws ?k) = ESP_OK \<longrightarrow> rest = []"
    using process_bin_run [OF assms(8), of "bin_sink env" 0 ?k] by blast
  have img: "ascending 0 ws" "image_end 0 ws = length (concat (map snd ws))"
    "map (image_at ws) [0..<length (concat (map snd ws))] = concat (map snd ws)"
    using contiguous_image [OF ws(2)] assms(9) ws(3) by simp_all
  obtain k' where k': "feed (bin_sink env) ws ?k = (ESP_OK, k')" "unat (bk_max k') = image_end 0 ws"
    "bk_fs k' = (sy_fs s)(?p \<mapsto> map (image_at ws) [0..<image_end 0 ws])"
    using bin_sink_feed [OF assms(3), of ?k "[]" ws] img(1) by auto
  then have d: "?d = concat (map snd ws)" using ws by simp
  define s1 where "s1 = s\<lparr>sy_fs := bk_fs k'\<rparr>"
  define br where "br = (if fm_can_bitrate m \<noteq> 0 then fm_can_bitrate m else 1000000)"
  have 1: "can_fw_update_from_reader cenv mem malloc_ok env m r (c, s) =
      can_send_file cenv mem ?d (length ?d) CAN_ID_TMS_BOARD br (c, s1)"
    using assms(4-7) ws(1) k' img d
    by (simp add: can_fw_update_from_reader_def fw_packaging_process_def process_bin_def
        parse_hex_or_dec_def apply_meta_json_overrides_def s1_def br_def Let_def)
  obtain c2 s2 where 2: "c_rx c2 = concat (map page_script ps)" "c_tx c2 = c_tx c @ esp_frames head_frames"
    "can_send_file cenv mem ?d (length ?d) CAN_ID_TMS_BOARD br (c, s1) =
      (case can_write_loop cenv CAN_ID_TMS_BOARD (length ?d) mem 0 ?d (c2, s2) of
         None \<Rightarrow> None
       | Some (r, c, s) \<Rightarrow>
           if r \<noteq> ESP_OK then Some (r, c, s)
           else let s = set_step FW_STEP_DONE ''CAN finish'' s; (r, c) = tms_send_cmd cenv SID_TARGET_DOWNLOAD_FINISH 0x01 c
                in Some (if r \<noteq> ESP_OK then ESP_FAIL else ESP_OK, c, s))"
    using send_head [OF assms(1,10,11)] by blast
  obtain s3 fs where "can_write_loop cenv CAN_ID_TMS_BOARD (length ?d) mem 0 ?d (c2, s2) =
      Some (ESP_OK, c2\<lparr>c_tx := c_tx c2 @ esp_frames fs, c_rx := []\<rparr>, s3)" "flash_log 0 ?d fs"
    using write_ok [OF assms(1,2) _ assms(9) _ assms(12,13), of 0 c2 "[]" s2] 2(1) by auto
  with 1 2 assms(1) show ?thesis
    by (auto simp: Let_def tms_send_cmd_def cmd_frame_def SID_TARGET_DOWNLOAD_FINISH_def)
qed

text \<open>Only the TMS board can be programmed. For any other target identifier, on a bus whose filter lets
  only that target's messages through, a target that answers the boot and erase commands gets its
  flash erased, and then the update does not return: the wait for flow control looks for the fixed
  identifier of the TMS board.\<close>

theorem can_other_target:
  assumes "bus_ok cenv" "target \<noteq> CAN_ID_TMS_BOARD" "c_rx c = map Some ms @ rs" "head_answers target ms"
    and "\<forall>m. Some m \<in> set rs \<longrightarrow> fst m = target" "0 < sz" "f \<noteq> []"
  shows "can_send_file cenv mem f sz target br (c, s) = None"
proof -
  obtain c' s' where c': "c_rx c' = rs"
    and eq: "can_send_file cenv mem f sz target br (c, s) =
      (case can_write_loop cenv target sz mem 0 f (c', s') of
         None \<Rightarrow> None
       | Some (r, c, s) \<Rightarrow>
           if r \<noteq> ESP_OK then Some (r, c, s)
           else let s = set_step FW_STEP_DONE ''CAN finish'' s; (r, c) = tms_send_cmd cenv SID_TARGET_DOWNLOAD_FINISH 0x01 c
                in Some (if r \<noteq> ESP_OK then ESP_FAIL else ESP_OK, c, s))"
    using send_head [OF assms(1,3,4)] by blast
  have "await_msg (\<lambda>m. fst m = CAN_ID_TMS_BOARD \<and> check_frame_flowcontrol (snd m ! 0)) rs = None"
    using assms(2,5) by (intro await_none) auto
  then have "tms_user_sw_send cenv mem' n c' = None" for mem' n
    using assms(1) c' by (simp add: tms_user_sw_send_def Let_def)
  then have "can_write_loop cenv target sz mem 0 f (c', s') = None"
    using assms(6,7) by (subst can_write_loop.simps) (simp add: Let_def SIZE_FLASH_ONE_PAGE_def)
  with eq show ?thesis by simp
qed

section \<open>Witnesses\<close>

lemma can_flat_image_witness:
  "\<exists>k'. feed (bin_sink example_env) [(2, [1, 2]), (6, [9])]
     \<lparr>bk_path = ''t'', bk_fs = Map.empty(''t'' \<mapsto> []), bk_offset = 0, bk_max = 0\<rparr> = (ESP_OK, k') \<and>
   unat (bk_max k') = 7 \<and> bk_fs k' = [''t'' \<mapsto> [0xFF, 0xFF, 1, 2, 0xFF, 0xFF, 9]]"
proof -
  have "map (image_at [(2, [1, 2]), (6, [9])]) [0..<7] = [0xFF, 0xFF, 1, 2, 0xFF, 0xFF, 9]" by code_simp
  with can_flat_image [where env = example_env and ws = "[(2, [1, 2]), (6, [9])]" and p = "''t''" and fs = Map.empty] show ?thesis
    by (simp add: example_env_def)
qed

definition example_bus :: can_env where
  "example_bus = \<lparr>ce_install = (\<lambda>_. ESP_OK), ce_start = (\<lambda>_. ESP_OK), ce_tx = (\<lambda>_. ESP_OK)\<rparr>"

definition reply :: "u32 \<Rightarrow> u8 \<Rightarrow> can_msg" where
  "reply i sid = (i, [0x02, get_id_response sid, 0, 0, 0, 0, 0, 0])"

definition example_head :: "u32 \<Rightarrow> can_msg list" where
  "example_head i = reply i 0x10 # reply i 0x11 # replicate 16 (reply i 0x20)"

definition example_page :: "can_msg \<times> can_msg \<times> can_msg" where
  "example_page = ((CAN_ID_TMS_BOARD, [0x30, 0, 0, 0, 0, 0, 0, 0]), reply CAN_ID_TMS_BOARD 0x21, reply CAN_ID_TMS_BOARD 0x22)"

lemma bus_ok_example: "bus_ok example_bus"
  by (simp add: bus_ok_def example_bus_def)

lemma answer_reply: "answer i sid (reply i sid)"
  by (simp add: answer_def reply_def check_frame_single_def)

lemma example_head_answers: "head_answers i (example_head i)"
  by (simp add: head_answers_def example_head_def answer_reply list_all_iff)

lemma example_page_answers: "page_answers CAN_ID_TMS_BOARD example_page"
  using answer_reply [of CAN_ID_TMS_BOARD "0x21"] answer_reply [of CAN_ID_TMS_BOARD "0x22"]
  by (simp add: page_answers_def example_page_def flow_frame_def check_frame_flowcontrol_def
      SID_TARGET_USER_SW_DATA_SEND_def SID_TARGET_FLASH_WRITE_def)

definition idle_can :: "can_msg option list \<Rightarrow> can" where
  "idle_can ms = \<lparr>s_can_open = False, c_bus = None, c_rx = ms, c_tx = []\<rparr>"

lemma can_update_bin_witness:
  "\<exists>c' s' fs. can_fw_update_from_reader example_bus (replicate 1025 0) (\<lambda>_. True) example_env fw_meta_zero
      (example_reader FW_FMT_BIN (replicate 2000 7))
      (idle_can (map Some (example_head CAN_ID_TMS_BOARD) @ concat (map page_script [example_page, example_page])), example_sys) =
      Some (ESP_OK, c', s') \<and> c_rx c' = [] \<and> flash_log 0 (replicate 2000 7) fs \<and>
    c_tx c' = esp_frames (head_frames @ fs @ [cmd_frame 0x12 0x01])"
  using can_update_bin [OF bus_ok_example, where mem = "replicate 1025 0" and env = example_env and m = fw_meta_zero
      and r = "example_reader FW_FMT_BIN (replicate 2000 7)"
      and c = "idle_can (map Some (example_head CAN_ID_TMS_BOARD) @ concat (map page_script [example_page, example_page]))"
      and ms = "example_head CAN_ID_TMS_BOARD" and ps = "[example_page, example_page]"
      and malloc_ok = "\<lambda>_. True" and s = example_sys]
    example_works(1,2) example_reader_ok(1,2)
    example_page_answers example_head_answers
  by (simp add: idle_can_def example_env_def fw_meta_zero_def example_reader_ok(2) page_script_def)

lemma can_other_target_witness:
  "can_send_file example_bus (replicate 1025 0) [1, 2, 3] 3 0x100 1000000
     (idle_can (map Some (example_head 0x100) @ [Some (0x100, [0x30, 0, 0, 0, 0, 0, 0, 0])]), example_sys) = None"
  by (rule can_other_target [OF bus_ok_example _ _ example_head_answers,
        where rs = "[Some (0x100, [0x30, 0, 0, 0, 0, 0, 0, 0])]"])
    (simp_all add: idle_can_def CAN_ID_TMS_BOARD_def)

end
