(* ===== verification/Uuencode.thy ===== *)
theory Uuencode
  imports Prelude
begin

text \<open>
  The encoding of binary data as printable lines that LPC boot loaders speak (\<open>uuencode.c\<close>). A
  source buffer is the memory from the pointer on; a read behind its end gives \<open>None\<close>.
\<close>

definition uu_char :: "u8 \<Rightarrow> u8" where
  [model_simps]: "uu_char v = (if v \<noteq> 0 then v + 0x20 else v + 0x60)"

definition uu_group :: "u8 \<Rightarrow> u8 \<Rightarrow> u8 \<Rightarrow> bytes" where
  "uu_group a b c =
     [uu_char (drop_bit 2 a AND 0x3f),
      uu_char ((push_bit 4 a AND 0x30) OR (drop_bit 4 b AND 0x0f)),
      uu_char ((push_bit 2 b AND 0x3c) OR (drop_bit 6 c AND 0x03)),
      uu_char (c AND 0x3f)]"

function uuencode_loop :: "bytes \<Rightarrow> nat \<Rightarrow> bytes option" where
  "uuencode_loop src nmemb =
     (if nmemb = 0 then Some []
      else case src of
             a # b # c # rest \<Rightarrow>
               map_option (\<lambda>out. uu_group a b c @ out) (uuencode_loop rest (if 3 \<le> nmemb then nmemb - 3 else 0))
           | _ \<Rightarrow> None)"
  by auto
termination
  by (relation "measure snd") (auto split: if_splits)

definition uuencode :: "bytes \<Rightarrow> nat \<Rightarrow> bytes option" where
  "uuencode src nmemb =
     map_option (\<lambda>out. (of_nat nmemb + 0x20) # out @ [0]) (uuencode_loop src nmemb)"

definition uu_value :: "u8 \<Rightarrow> u8" where
  "uu_value c = (if c < 0x60 then c - 0x20 else 0x00)"

text \<open>The loop over the bytes, \<open>j\<close> the position in a group of three.\<close>

fun uudecode_loop :: "nat \<Rightarrow> nat \<Rightarrow> bytes \<Rightarrow> bytes option" where
  "uudecode_loop 0 j src = Some []"
| "uudecode_loop (Suc n) j src =
     (case src of
        c0 # c1 # c2 # c3 # _ \<Rightarrow>
          let s0 = uu_value c0; s1 = uu_value c1; s2 = uu_value c2; s3 = uu_value c3;
              d = (if j = 0 then push_bit 2 s0 OR (drop_bit 4 s1 AND 0x03)
                   else if j = 1 then push_bit 4 s1 OR (drop_bit 2 s2 AND 0x0f)
                   else push_bit 6 s2 OR (s3 AND 0x3f))
          in map_option (Cons d)
               (if 2 < j + 1 then uudecode_loop n 0 (drop 4 src) else uudecode_loop n (j + 1) src)
      | _ \<Rightarrow> None)"

definition uudecode :: "bytes \<Rightarrow> (int \<times> bytes) option" where
  "uudecode src =
     (case src of
        [] \<Rightarrow> None
      | c # rest \<Rightarrow> let len = int (unat c) - 0x20 in map_option (Pair len) (uudecode_loop (nat len) 0 rest))"

declare uuencode_loop.simps [simp del]

section \<open>Round trip\<close>

lemma uu_value_char:
  assumes "unat v < 64"
  shows "uu_value (uu_char v) = v"
proof (cases "v = 0")
  case True
  then show ?thesis by (simp add: uu_value_def uu_char_def)
next
  case False
  then have "0 < unat v" by (simp add: unat_gt_0)
  moreover have "unat (v + 0x20) = unat v + 32" using assms by (simp add: unat_word_ariths)
  ultimately show ?thesis using assms False by (simp add: uu_value_def uu_char_def word_less_nat_alt)
qed

lemma below_8: "(n :: nat) < 8 \<Longrightarrow> n \<in> {0, 1, 2, 3, 4, 5, 6, 7}"
  by simp presburger

lemma below_8': "(n :: nat) < LENGTH(8) \<Longrightarrow> n \<in> {0, 1, 2, 3, 4, 5, 6, 7}"
  using below_8 [of n] by simp

lemma uu_bits:
  fixes a b c :: u8
  shows "push_bit 2 (drop_bit 2 a AND 0x3f) OR
      (drop_bit 4 ((push_bit 4 a AND 0x30) OR (drop_bit 4 b AND 0x0f)) AND 0x03) = a"
    and "push_bit 4 ((push_bit 4 a AND 0x30) OR (drop_bit 4 b AND 0x0f)) OR
      (drop_bit 2 ((push_bit 2 b AND 0x3c) OR (drop_bit 6 c AND 0x03)) AND 0x0f) = b"
    and "push_bit 6 ((push_bit 2 b AND 0x3c) OR (drop_bit 6 c AND 0x03)) OR ((c AND 0x3f) AND 0x3f) = c"
  subgoal by (rule bit_word_eqI, drule below_8', auto simp: bit_simps; simp add: numeral_2_eq_2 numeral_3_eq_3)
  subgoal by (rule bit_word_eqI, drule below_8', auto simp: bit_simps; simp add: numeral_2_eq_2 numeral_3_eq_3)
  subgoal by (rule bit_word_eqI, drule below_8', auto simp: bit_simps; simp add: numeral_2_eq_2 numeral_3_eq_3)
  done


lemma six_bits:
  fixes v :: u8
  assumes "\<And>n. bit v n \<Longrightarrow> n < 6"
  shows "unat v < 64"
proof -
  have "take_bit 6 v = v" by (rule bit_word_eqI) (use assms in \<open>auto simp: bit_simps\<close>)
  then have "unat v = take_bit 6 (unat v)" by (metis unsigned_take_bit_eq)
  then have "unat v = unat v mod 64" by (simp add: take_bit_eq_mod)
  then show ?thesis by (metis mod_less_divisor zero_less_numeral)
qed

lemma uu_group_values:
  "map uu_value (uu_group a b c) =
     [drop_bit 2 a AND 0x3f, (push_bit 4 a AND 0x30) OR (drop_bit 4 b AND 0x0f),
      (push_bit 2 b AND 0x3c) OR (drop_bit 6 c AND 0x03), c AND 0x3f]"
proof -
  have "unat (drop_bit 2 a AND 0x3f) < 64" "unat ((push_bit 4 a AND 0x30) OR (drop_bit 4 b AND 0x0f)) < 64"
    "unat ((push_bit 2 b AND 0x3c) OR (drop_bit 6 c AND 0x03)) < 64" "unat (c AND 0x3f) < 64"
    by (rule six_bits, frule bit_imp_le_length, drule below_8', auto simp: bit_simps)+
  then show ?thesis by (simp add: uu_group_def uu_value_char)
qed

lemma decode_group:
  "uudecode_loop (Suc (Suc (Suc n))) 0 (uu_group a b c @ rest) =
     map_option (\<lambda>out. a # b # c # out) (uudecode_loop n 0 rest)"
  "uudecode_loop (Suc (Suc 0)) 0 (uu_group a b c @ rest) = Some [a, b]"
  "uudecode_loop (Suc 0) 0 (uu_group a b c @ rest) = Some [a]"
proof -
  obtain c0 c1 c2 c3 where g: "uu_group a b c = [c0, c1, c2, c3]" by (simp add: uu_group_def)
  note v = uu_group_values [of a b c, unfolded g]
  have vals: "uu_value c0 = drop_bit 2 a AND 0x3f" "uu_value c1 = (push_bit 4 a AND 0x30) OR (drop_bit 4 b AND 0x0f)"
    "uu_value c2 = (push_bit 2 b AND 0x3c) OR (drop_bit 6 c AND 0x03)" "uu_value c3 = c AND 0x3f"
    using v by simp_all
  have d: "push_bit 2 (uu_value c0) OR (drop_bit 4 (uu_value c1) AND 0x03) = a"
    "push_bit 4 (uu_value c1) OR (drop_bit 2 (uu_value c2) AND 0x0f) = b"
    "push_bit 6 (uu_value c2) OR (uu_value c3 AND 0x3f) = c"
    unfolding vals by (rule uu_bits)+
  show "uudecode_loop (Suc (Suc (Suc n))) 0 (uu_group a b c @ rest) =
     map_option (\<lambda>out. a # b # c # out) (uudecode_loop n 0 rest)"
    using d by (cases "uudecode_loop n 0 rest") (simp_all add: g Let_def)
  show "uudecode_loop (Suc (Suc 0)) 0 (uu_group a b c @ rest) = Some [a, b]"
    and "uudecode_loop (Suc 0) 0 (uu_group a b c @ rest) = Some [a]"
    using d by (simp_all add: g Let_def)
qed

lemma uuencode_loop_decodes:
  assumes "n \<le> 3 * (length src div 3)"
  shows "\<exists>out. uuencode_loop src n = Some out \<and> uudecode_loop n 0 (out @ rest) = Some (take n src) \<and>
    length out = 4 * ((n + 2) div 3)"
  using assms
proof (induction src n rule: uuencode_loop.induct)
  case (1 src n)
  show ?case
  proof (cases "n = 0")
    case True
    then show ?thesis by (simp add: uuencode_loop.simps)
  next
    case False
    with "1.prems" have "3 \<le> length src" by (cases "length src div 3") auto
    then obtain a b c src' where src: "src = a # b # c # src'" by (auto simp: numeral_3_eq_3 Suc_le_length_iff)
    let ?n = "if 3 \<le> n then n - 3 else 0"
    have "length src = length src' + 3" using src by simp
    then have "length src div 3 = Suc (length src' div 3)" by presburger
    then have "?n \<le> 3 * (length src' div 3)" using "1.prems" by (auto split: if_splits)
    then obtain out where out: "uuencode_loop src' ?n = Some out" "uudecode_loop ?n 0 (out @ rest) = Some (take ?n src')"
      "length out = 4 * ((?n + 2) div 3)"
      using "1.IH" [OF False src refl refl] by blast
    have enc: "uuencode_loop src n = Some (uu_group a b c @ out)"
      using False src out(1) by (subst uuencode_loop.simps) simp
    consider "n = Suc 0" | "n = Suc (Suc 0)" | m where "n = Suc (Suc (Suc m))"
      using False by (metis nat.exhaust)
    then have "uudecode_loop n 0 (uu_group a b c @ out @ rest) = Some (take n src)"
    proof cases
      case 3
      then have "uudecode_loop m 0 (out @ rest) = Some (take m src')" using out(2) by simp
      then show ?thesis unfolding 3 decode_group(1) src by simp
    qed (simp_all only: decode_group(2,3) src take_Suc_Cons take_0)
    moreover have "(n + 2) div 3 = Suc ((?n + 2) div 3)"
    proof (cases "3 \<le> n")
      case True
      then obtain m where "n = 3 + m" using le_Suc_ex by blast
      then show ?thesis by simp
    next
      case False
      then have "n = 1 \<or> n = 2" using \<open>n \<noteq> 0\<close> by presburger
      then show ?thesis by auto
    qed
    then have "length (uu_group a b c @ out) = 4 * ((n + 2) div 3)"
      using out(3) by (simp add: uu_group_def)
    ultimately show ?thesis using enc by simp
  qed
qed

text \<open>The line holds no zero before its end, so that it is a C string.\<close>

lemma uu_char_nonzero: "unat v < 64 \<Longrightarrow> uu_char v \<noteq> 0"
  by (auto simp: uu_char_def unat_word_ariths simp flip: unat_eq_zero)

lemma uu_group_nonzero: "0 \<notin> set (uu_group a b c)"
proof -
  have "unat (drop_bit 2 a AND 0x3f) < 64" "unat ((push_bit 4 a AND 0x30) OR (drop_bit 4 b AND 0x0f)) < 64"
    "unat ((push_bit 2 b AND 0x3c) OR (drop_bit 6 c AND 0x03)) < 64" "unat (c AND 0x3f) < 64"
    by (rule six_bits, frule bit_imp_le_length, drule below_8', auto simp: bit_simps)+
  from this [THEN uu_char_nonzero] show ?thesis by (simp add: uu_group_def)
qed

lemma uuencode_loop_nonzero: "uuencode_loop src n = Some out \<Longrightarrow> 0 \<notin> set out"
proof (induction src n arbitrary: out rule: uuencode_loop.induct)
  case (1 src n)
  show ?case
  proof (cases "n = 0")
    case True
    with "1.prems" show ?thesis by (simp add: uuencode_loop.simps)
  next
    case False
    with "1.prems" obtain a b c rest out1 where "src = a # b # c # rest"
      and "uuencode_loop rest (if 3 \<le> n then n - 3 else 0) = Some out1" "out = uu_group a b c @ out1"
      by (subst (asm) uuencode_loop.simps) (auto split: list.splits)
    with "1.IH" [OF False this(1) refl refl] show ?thesis using uu_group_nonzero [of a b c] by auto
  qed
qed

lemma uuencode_line:
  assumes "n \<le> 223" "n \<le> 3 * (length src div 3)"
  shows "\<exists>l. uuencode src n = Some (l @ [0]) \<and> 0 \<notin> set l \<and> length l = 4 * ((n + 2) div 3) + 1 \<and>
    uudecode (l @ [0]) = Some (int n, take n src)"
proof -
  obtain out where out: "uuencode_loop src n = Some out" "uudecode_loop n 0 (out @ [0]) = Some (take n src)"
    "length out = 4 * ((n + 2) div 3)"
    using uuencode_loop_decodes [OF assms(2), of "[0]"] by blast
  have n: "unat (of_nat n + 0x20 :: u8) = n + 32"
    using assms(1) unat_of_nat_small [of "n + 32", where ?'a = 8] by simp
  then have "(of_nat n + 0x20 :: u8) \<noteq> 0" by (metis add_eq_0_iff_both_eq_0 unat_0 zero_neq_numeral)
  with n out uuencode_loop_nonzero [OF out(1)] show ?thesis
    by (intro exI [of _ "(of_nat n + 0x20) # out"]) (simp add: uuencode_def uudecode_def Let_def)
qed

section \<open>Properties\<close>

text \<open>C24: Decoding undoes encoding. For every block of at most 223 bytes whose buffer reaches to the next
  multiple of three, \<open>uuencode\<close> produces a line of one length character, four characters per
  started group of three bytes and a terminator, and \<open>uudecode\<close> gives back the length and the bytes.\<close>

theorem uuencode_decode:
  assumes "n \<le> 223" "n \<le> 3 * (length src div 3)"
  shows "\<exists>line. uuencode src n = Some line \<and> length line = 4 * ((n + 2) div 3) + 2 \<and> last line = 0 \<and>
    uudecode line = Some (int n, take n src)"
  using uuencode_line [OF assms] by auto

lemma uuencode_decode_witness:
  "\<exists>line. uuencode [1, 2, 3, 4, 5, 6] 5 = Some line \<and> length line = 10 \<and> last line = 0 \<and>
    uudecode line = Some (5, [1, 2, 3, 4, 5])"
  using uuencode_decode [of 5 "[1, 2, 3, 4, 5, 6]"] by simp

end
