(* ===== verification/Part_Desc.thy ===== *)
theory Part_Desc
  imports Prelude
begin

text \<open>
  The NXP parts the boot loader client knows (\<open>nxp_partdesc.c\<close>, types of \<open>lpcisp.h\<close>): sector maps,
  the table of parts, and the search for the sector of an address. A pointer to a sector map is an
  option, an access behind the end of a map gives \<open>None\<close>.
\<close>

section \<open>Types\<close>

text \<open>Bank, base address and size of a sector.\<close>

type_synonym sectormap = "u32 \<times> u32 \<times> u32"

record partinfo =
  p_id :: "u32 list"
  p_id1 :: u32
  p_name :: string
  numSectors :: nat
  sectorMap :: "sectormap list option"
  numBanks :: nat
  ramSize :: nat
  flashBlockSize :: nat
  flashBlockRAMBase :: u32
  p_flags :: u8
  p_uid :: "u32 list"
  bootMajor :: u8
  bootMinor :: u8
  idIdx :: nat

definition UUENCODE :: u8 where [model_simps]: "UUENCODE = 0x01"
definition TERM_ANY :: u8 where [model_simps]: "TERM_ANY = 0x00"
definition TERM_CR :: u8 where [model_simps]: "TERM_CR = 0x02"
definition TERM_LF :: u8 where [model_simps]: "TERM_LF = 0x04"
definition TERM_CRLF :: u8 where [model_simps]: "TERM_CRLF = 0x06"
definition TERM_MASK :: u8 where [model_simps]: "TERM_MASK = 0x06"
definition HAS_UID :: u8 where [model_simps]: "HAS_UID = 0x08"
definition VECT_REMAP64 :: u8 where [model_simps]: "VECT_REMAP64 = 0x10"
definition VECT_REMAP256 :: u8 where [model_simps]: "VECT_REMAP256 = 0x20"
definition SKIP_0 :: u8 where [model_simps]: "SKIP_0 = 0x40"

text \<open>\<open>~0\<close> marks an identifier that is not used.\<close>

definition no_id :: u32 where
  [model_simps]: "no_id = - 1"

definition part ::
    "u32 \<Rightarrow> u32 \<Rightarrow> u32 \<Rightarrow> string \<Rightarrow> nat \<Rightarrow> sectormap list option \<Rightarrow> nat \<Rightarrow> nat \<Rightarrow> nat \<Rightarrow> u32 \<Rightarrow> u8 \<Rightarrow> partinfo" where
  "part id0 id_alt id1 name n m banks ram block base flags =
     \<lparr>p_id = [id0, id_alt], p_id1 = id1, p_name = name, numSectors = n, sectorMap = m, numBanks = banks,
      ramSize = ram, flashBlockSize = block, flashBlockRAMBase = base, p_flags = flags,
      p_uid = [0, 0, 0, 0], bootMajor = 0, bootMinor = 0, idIdx = 0\<rparr>"

section \<open>Sector maps\<close>

definition sectorMap1k :: "sectormap list" where
  "sectorMap1k =
    [(0, 0x00000000, 0x400), (0, 0x00000400, 0x400), (0, 0x00000800, 0x400), (0, 0x00000c00, 0x400),
     (0, 0x00001000, 0x400), (0, 0x00001400, 0x400), (0, 0x00001800, 0x400), (0, 0x00001c00, 0x400),
     (0, 0x00002000, 0x400), (0, 0x00002400, 0x400), (0, 0x00002800, 0x400), (0, 0x00002c00, 0x400),
     (0, 0x00003000, 0x400), (0, 0x00003400, 0x400), (0, 0x00003800, 0x400), (0, 0x00003c00, 0x400),
     (0, 0x00004000, 0x400), (0, 0x00004400, 0x400), (0, 0x00004800, 0x400), (0, 0x00004c00, 0x400),
     (0, 0x00005000, 0x400), (0, 0x00005400, 0x400), (0, 0x00005800, 0x400), (0, 0x00005c00, 0x400),
     (0, 0x00006000, 0x400), (0, 0x00006400, 0x400), (0, 0x00006800, 0x400), (0, 0x00006c00, 0x400),
     (0, 0x00007000, 0x400), (0, 0x00007400, 0x400), (0, 0x00007800, 0x400), (0, 0x00007c00, 0x400)]"

definition sectorMap4k :: "sectormap list" where
  "sectorMap4k =
    [(0, 0x00000000, 0x1000), (0, 0x00001000, 0x1000), (0, 0x00002000, 0x1000), (0, 0x00003000, 0x1000),
     (0, 0x00004000, 0x1000), (0, 0x00005000, 0x1000), (0, 0x00006000, 0x1000), (0, 0x00007000, 0x1000),
     (0, 0x00008000, 0x1000), (0, 0x00009000, 0x1000), (0, 0x0000a000, 0x1000), (0, 0x0000b000, 0x1000),
     (0, 0x0000c000, 0x1000), (0, 0x0000d000, 0x1000), (0, 0x0000e000, 0x1000), (0, 0x0000f000, 0x1000),
     (0, 0x00010000, 0x1000), (0, 0x00011000, 0x1000), (0, 0x00012000, 0x1000), (0, 0x00013000, 0x1000),
     (0, 0x00014000, 0x1000), (0, 0x00015000, 0x1000), (0, 0x00016000, 0x1000), (0, 0x00017000, 0x1000),
     (0, 0x00018000, 0x1000), (0, 0x00019000, 0x1000), (0, 0x0001a000, 0x1000), (0, 0x0001b000, 0x1000),
     (0, 0x0001c000, 0x1000), (0, 0x0001d000, 0x1000), (0, 0x0001e000, 0x1000), (0, 0x0001f000, 0x1000),
     (0, 0x00020000, 0x1000), (0, 0x00021000, 0x1000), (0, 0x00022000, 0x1000), (0, 0x00023000, 0x1000),
     (0, 0x00024000, 0x1000), (0, 0x00025000, 0x1000), (0, 0x00026000, 0x1000), (0, 0x00027000, 0x1000),
     (0, 0x00028000, 0x1000), (0, 0x00029000, 0x1000), (0, 0x0002a000, 0x1000), (0, 0x0002b000, 0x1000),
     (0, 0x0002c000, 0x1000), (0, 0x0002d000, 0x1000), (0, 0x0002e000, 0x1000), (0, 0x0002f000, 0x1000),
     (0, 0x00030000, 0x1000), (0, 0x00031000, 0x1000), (0, 0x00032000, 0x1000), (0, 0x00033000, 0x1000),
     (0, 0x00034000, 0x1000), (0, 0x00035000, 0x1000), (0, 0x00036000, 0x1000), (0, 0x00037000, 0x1000),
     (0, 0x00038000, 0x1000), (0, 0x00039000, 0x1000), (0, 0x0003a000, 0x1000), (0, 0x0003b000, 0x1000),
     (0, 0x0003c000, 0x1000), (0, 0x0003d000, 0x1000), (0, 0x0003e000, 0x1000), (0, 0x0003f000, 0x1000)]"

definition sectorMap8k :: "sectormap list" where
  "sectorMap8k =
    [(0, 0x00000000, 0x2000), (0, 0x00002000, 0x2000), (0, 0x00004000, 0x2000), (0, 0x00006000, 0x2000),
     (0, 0x00008000, 0x2000), (0, 0x0000a000, 0x2000), (0, 0x0000c000, 0x2000), (0, 0x0000e000, 0x2000),
     (0, 0x00010000, 0x2000), (0, 0x00012000, 0x2000), (0, 0x00014000, 0x2000), (0, 0x00016000, 0x2000),
     (0, 0x00018000, 0x2000), (0, 0x0001a000, 0x2000), (0, 0x0001c000, 0x2000), (0, 0x0001e000, 0x2000)]"

definition sectorMap32k :: "sectormap list" where
  "sectorMap32k =
    [(0, 0x00000000, 0x8000), (0, 0x00008000, 0x8000), (0, 0x00010000, 0x8000), (0, 0x00018000, 0x8000),
     (0, 0x00020000, 0x8000), (0, 0x00028000, 0x8000), (0, 0x00030000, 0x8000), (0, 0x00038000, 0x8000),
     (0, 0x00040000, 0x8000), (0, 0x00048000, 0x8000), (0, 0x00050000, 0x8000), (0, 0x00058000, 0x8000),
     (0, 0x00060000, 0x8000), (0, 0x00068000, 0x8000), (0, 0x00070000, 0x8000), (0, 0x00078000, 0x8000)]"

definition sectorMapLpc17xx :: "sectormap list" where
  "sectorMapLpc17xx =
    [(0, 0x00000000, 0x1000), (0, 0x00001000, 0x1000), (0, 0x00002000, 0x1000), (0, 0x00003000, 0x1000),
     (0, 0x00004000, 0x1000), (0, 0x00005000, 0x1000), (0, 0x00006000, 0x1000), (0, 0x00007000, 0x1000),
     (0, 0x00008000, 0x1000), (0, 0x00009000, 0x1000), (0, 0x0000a000, 0x1000), (0, 0x0000b000, 0x1000),
     (0, 0x0000c000, 0x1000), (0, 0x0000d000, 0x1000), (0, 0x0000e000, 0x1000), (0, 0x0000f000, 0x1000),
     (0, 0x00010000, 0x8000), (0, 0x00018000, 0x8000), (0, 0x00020000, 0x8000), (0, 0x00028000, 0x8000),
     (0, 0x00030000, 0x8000), (0, 0x00038000, 0x8000), (0, 0x00040000, 0x8000), (0, 0x00048000, 0x8000),
     (0, 0x00050000, 0x8000), (0, 0x00058000, 0x8000), (0, 0x00060000, 0x8000), (0, 0x00068000, 0x8000),
     (0, 0x00070000, 0x8000), (0, 0x00078000, 0x8000), (0, 0x00080000, 0x8000), (0, 0x00088000, 0x8000)]"

definition sectorMapLpc18x2 :: "sectormap list" where
  "sectorMapLpc18x2 =
    [(0, 0x1a000000, 0x02000), (0, 0x1a002000, 0x02000), (0, 0x1a004000, 0x02000), (0, 0x1a006000, 0x02000),
     (0, 0x1a008000, 0x02000), (0, 0x1a00a000, 0x02000), (0, 0x1a00c000, 0x02000), (0, 0x1a00e000, 0x02000),
     (0, 0x1a010000, 0x10000), (0, 0x1a020000, 0x10000), (0, 0x1a030000, 0x10000), (0, 0x1a040000, 0x10000),
     (0, 0x1a050000, 0x10000), (0, 0x1a060000, 0x10000), (0, 0x1a070000, 0x10000)]"

definition sectorMapLpc18x3 :: "sectormap list" where
  "sectorMapLpc18x3 =
    [(0, 0x1a000000, 0x02000), (0, 0x1a002000, 0x02000), (0, 0x1a004000, 0x02000), (0, 0x1a006000, 0x02000),
     (0, 0x1a008000, 0x02000), (0, 0x1a00a000, 0x02000), (0, 0x1a00c000, 0x02000), (0, 0x1a00e000, 0x02000),
     (0, 0x1a010000, 0x10000), (0, 0x1a020000, 0x10000), (0, 0x1a030000, 0x10000), (1, 0x1b000000, 0x02000),
     (1, 0x1b002000, 0x02000), (1, 0x1b004000, 0x02000), (1, 0x1b006000, 0x02000), (1, 0x1b008000, 0x02000),
     (1, 0x1b00a000, 0x02000), (1, 0x1b00c000, 0x02000), (1, 0x1b00e000, 0x02000), (1, 0x1b010000, 0x10000),
     (1, 0x1b020000, 0x10000), (1, 0x1b030000, 0x10000)]"

definition sectorMapLpc18x5 :: "sectormap list" where
  "sectorMapLpc18x5 =
    [(0, 0x1a000000, 0x02000), (0, 0x1a002000, 0x02000), (0, 0x1a004000, 0x02000), (0, 0x1a006000, 0x02000),
     (0, 0x1a008000, 0x02000), (0, 0x1a00a000, 0x02000), (0, 0x1a00c000, 0x02000), (0, 0x1a00e000, 0x02000),
     (0, 0x1a010000, 0x10000), (0, 0x1a020000, 0x10000), (0, 0x1a030000, 0x10000), (0, 0x1a040000, 0x10000),
     (0, 0x1a050000, 0x10000), (1, 0x1b000000, 0x02000), (1, 0x1b002000, 0x02000), (1, 0x1b004000, 0x02000),
     (1, 0x1b006000, 0x02000), (1, 0x1b008000, 0x02000), (1, 0x1b00a000, 0x02000), (1, 0x1b00c000, 0x02000),
     (1, 0x1b00e000, 0x02000), (1, 0x1b010000, 0x10000), (1, 0x1b020000, 0x10000), (1, 0x1b030000, 0x10000),
     (0, 0x1b040000, 0x10000), (0, 0x1b050000, 0x10000)]"

definition sectorMapLpc18x7 :: "sectormap list" where
  "sectorMapLpc18x7 =
    [(0, 0x1a000000, 0x02000), (0, 0x1a002000, 0x02000), (0, 0x1a004000, 0x02000), (0, 0x1a006000, 0x02000),
     (0, 0x1a008000, 0x02000), (0, 0x1a00a000, 0x02000), (0, 0x1a00c000, 0x02000), (0, 0x1a00e000, 0x02000),
     (0, 0x1a010000, 0x10000), (0, 0x1a020000, 0x10000), (0, 0x1a030000, 0x10000), (0, 0x1a040000, 0x10000),
     (0, 0x1a050000, 0x10000), (0, 0x1a060000, 0x10000), (0, 0x1a070000, 0x10000), (1, 0x1b000000, 0x02000),
     (1, 0x1b002000, 0x02000), (1, 0x1b004000, 0x02000), (1, 0x1b006000, 0x02000), (1, 0x1b008000, 0x02000),
     (1, 0x1b00a000, 0x02000), (1, 0x1b00c000, 0x02000), (1, 0x1b00e000, 0x02000), (1, 0x1b010000, 0x10000),
     (1, 0x1b020000, 0x10000), (1, 0x1b030000, 0x10000), (1, 0x1b040000, 0x10000), (1, 0x1b050000, 0x10000),
     (1, 0x1b060000, 0x10000), (1, 0x1b070000, 0x10000)]"

definition sectorMapLpc21xx :: "sectormap list" where
  "sectorMapLpc21xx =
    [(0, 0x00000000, 0x2000), (0, 0x00002000, 0x2000), (0, 0x00004000, 0x2000), (0, 0x00006000, 0x2000),
     (0, 0x00008000, 0x2000), (0, 0x0000a000, 0x2000), (0, 0x0000c000, 0x2000), (0, 0x0000e000, 0x2000),
     (0, 0x00010000, 0x10000), (0, 0x00020000, 0x10000), (0, 0x00030000, 0x2000), (0, 0x00032000, 0x2000),
     (0, 0x00034000, 0x2000), (0, 0x00036000, 0x2000), (0, 0x00038000, 0x2000), (0, 0x0003a000, 0x2000),
     (0, 0x0003c000, 0x2000), (0, 0x0003e000, 0x2000)]"

definition sectorMapLpc43x7 :: "sectormap list" where
  "sectorMapLpc43x7 =
    [(0, 0x1a000000, 0x02000), (0, 0x1a002000, 0x02000), (0, 0x1a004000, 0x02000), (0, 0x1a006000, 0x02000),
     (0, 0x1a008000, 0x02000), (0, 0x1a00a000, 0x02000), (0, 0x1a00c000, 0x02000), (0, 0x1a00e000, 0x02000),
     (0, 0x1a010000, 0x10000), (0, 0x1a020000, 0x10000), (0, 0x1a030000, 0x10000), (0, 0x1a040000, 0x10000),
     (0, 0x1a050000, 0x10000), (0, 0x1a060000, 0x10000), (0, 0x1a070000, 0x10000), (1, 0x1b000000, 0x02000),
     (1, 0x1b002000, 0x02000), (1, 0x1b004000, 0x02000), (1, 0x1b006000, 0x02000), (1, 0x1b008000, 0x02000),
     (1, 0x1b00a000, 0x02000), (1, 0x1b00c000, 0x02000), (1, 0x1b00e000, 0x02000), (1, 0x1b010000, 0x10000),
     (1, 0x1b020000, 0x10000), (1, 0x1b030000, 0x10000), (1, 0x1b040000, 0x10000), (1, 0x1b050000, 0x10000),
     (1, 0x1b060000, 0x10000), (1, 0x1b070000, 0x10000)]"

definition sectorMapLpc23xx :: "sectormap list" where
  "sectorMapLpc23xx =
    [(0, 0x00000000, 0x01000), (0, 0x00001000, 0x01000), (0, 0x00002000, 0x01000), (0, 0x00003000, 0x01000),
     (0, 0x00004000, 0x01000), (0, 0x00005000, 0x01000), (0, 0x00006000, 0x01000), (0, 0x00007000, 0x01000),
     (0, 0x00008000, 0x08000), (0, 0x00010000, 0x08000), (0, 0x00018000, 0x08000), (0, 0x00020000, 0x08000),
     (0, 0x00028000, 0x08000), (0, 0x00030000, 0x08000), (0, 0x00038000, 0x08000), (0, 0x00040000, 0x08000),
     (0, 0x00048000, 0x08000), (0, 0x00050000, 0x08000), (0, 0x00058000, 0x08000), (0, 0x00060000, 0x08000),
     (0, 0x00068000, 0x08000), (0, 0x00070000, 0x08000), (0, 0x00078000, 0x01000), (0, 0x00079000, 0x01000),
     (0, 0x0007a000, 0x01000), (0, 0x0007b000, 0x01000), (0, 0x0007c000, 0x01000), (0, 0x0007d000, 0x01000)]"


section \<open>Parts\<close>

definition partDef_LPC8xx_11xx :: "partinfo list" where
  "partDef_LPC8xx_11xx =
    [part 0x00008100 no_id no_id ''LPC810M021FN8'' 4 (Some sectorMap1k) 1 1024 256 0x10000300 (TERM_CRLF OR HAS_UID),
     part 0x00008110 no_id no_id ''LPC811M001JDH16'' 8 (Some sectorMap1k) 1 2048 1024 0x10000300 (TERM_CRLF OR HAS_UID),
     part 0x00008120 no_id no_id ''LPC812M101JDH16'' 16 (Some sectorMap1k) 1 4096 1024 0x10000300 (TERM_CRLF OR HAS_UID),
     part 0x00008121 no_id no_id ''LPC812M101JD20'' 16 (Some sectorMap1k) 1 4096 1024 0x10000300 (TERM_CRLF OR HAS_UID),
     part 0x00008122 no_id no_id ''LPC812M101JDH20'' 16 (Some sectorMap1k) 1 4096 1024 0x10000300 (TERM_CRLF OR HAS_UID),
     part 0x00008221 no_id no_id ''LPC822M101JHI33'' 16 (Some sectorMap1k) 1 4096 1024 0x10000300 (TERM_CRLF),
     part 0x00008222 no_id no_id ''LPC822M101JDH20'' 16 (Some sectorMap1k) 1 4096 1024 0x10000300 (TERM_CRLF),
     part 0x00008241 no_id no_id ''LPC824M201JHI33'' 32 (Some sectorMap1k) 1 8192 1024 0x10000300 (TERM_CRLF),
     part 0x00008242 no_id no_id ''LPC824M201JDH20'' 32 (Some sectorMap1k) 1 8192 1024 0x10000300 (TERM_CRLF),
     part 0x0a07102b 0x1a07102b no_id ''LPC1111FD20'' 2 (Some sectorMap4k) 1 2048 1024 0x10000300 (UUENCODE),
     part 0x0a16d02b 0x1a16d02b no_id ''LPC1111FDH20/002'' 2 (Some sectorMap4k) 1 2048 1024 0x10000300 (UUENCODE),
     part 0x041e502b no_id no_id ''LPC1111FHN33/101'' 2 (Some sectorMap4k) 1 2048 1024 0x10000300 (UUENCODE),
     part 0x2516d02b no_id no_id ''LPC1111FHN33/[101|102]'' 2 (Some sectorMap4k) 1 2048 1024 0x10000300 (UUENCODE),
     part 0x0416502b no_id no_id ''LPC1111FHN33/201'' 2 (Some sectorMap4k) 1 4096 1024 0x10000300 (UUENCODE),
     part 0x2516902b no_id no_id ''LPC1111FHN33/[201|202]'' 2 (Some sectorMap4k) 1 4096 1024 0x10000300 (UUENCODE),
     part 0x00010013 no_id no_id ''LPC1111FHN33/103'' 2 (Some sectorMap4k) 1 2048 1024 0x10000300 (UUENCODE),
     part 0x00010012 no_id no_id ''LPC1111FHN33/203'' 2 (Some sectorMap4k) 1 4096 1024 0x10000300 (UUENCODE),
     part 0x0a24902b 0x1a24902b no_id ''LPC1112[FD20|FDH20|FDH28]/102'' 4 (Some sectorMap4k) 1 2048 1024 0x10000300 (UUENCODE),
     part 0x042d502b no_id no_id ''LPC1112FHN33/101'' 4 (Some sectorMap4k) 1 2048 1024 0x10000300 (UUENCODE),
     part 0x2524d02b no_id no_id ''LPC1112FHN33/[101|102]'' 4 (Some sectorMap4k) 1 2048 1024 0x10000300 (UUENCODE),
     part 0x0425502b no_id no_id ''LPC1112FHN33/201'' 4 (Some sectorMap4k) 1 4096 1024 0x10000300 (UUENCODE),
     part 0x2524902b no_id no_id ''LPC1112[FHN33/201|FHN33/202|FHN24/202|FHI33/202]'' 4 (Some sectorMap4k) 1 4096 1024 0x10000300 (UUENCODE),
     part 0x00020023 no_id no_id ''LPC1112FHN33/103'' 4 (Some sectorMap4k) 1 2048 1024 0x10000300 (UUENCODE),
     part 0x00020022 no_id no_id ''LPC1112FH[N|I]33/203'' 4 (Some sectorMap4k) 1 4096 1024 0x10000300 (UUENCODE),
     part 0x0434502b no_id no_id ''LPC1113FHN33/201'' 6 (Some sectorMap4k) 1 4096 1024 0x10000300 (UUENCODE),
     part 0x2532902b no_id no_id ''LPC1113[FBD|FHN]/[201|202]'' 6 (Some sectorMap4k) 1 4096 1024 0x10000300 (UUENCODE),
     part 0x0434102b no_id no_id ''LPC1113FHN33/301'' 6 (Some sectorMap4k) 1 8192 1024 0x10000300 (UUENCODE),
     part 0x2532102b no_id no_id ''LPC1113[FBD48|FHN33]/[301/302]'' 6 (Some sectorMap4k) 1 8192 1024 0x10000300 (UUENCODE),
     part 0x00030030 no_id no_id ''LPC1113[FBD48|FHN33]/303'' 6 (Some sectorMap4k) 1 8192 1024 0x10000300 (UUENCODE),
     part 0x00030032 no_id no_id ''LPC1113FHN33/203'' 6 (Some sectorMap4k) 1 8192 1024 0x10000300 (UUENCODE),
     part 0x0a40902b 0x1a40902b no_id ''LPC1114[FDH|FN]28/102'' 8 (Some sectorMap4k) 1 4096 1024 0x10000300 (UUENCODE),
     part 0x0444502b no_id no_id ''LPC1114FHN33/201'' 8 (Some sectorMap4k) 1 4096 1024 0x10000300 (UUENCODE),
     part 0x2540902b no_id no_id ''LPC1114FHN33/[201|202]'' 8 (Some sectorMap4k) 1 4096 1024 0x10000300 (UUENCODE),
     part 0x0444102b no_id no_id ''LPC1114[FHN33|FBD48]/301'' 8 (Some sectorMap4k) 1 8192 1024 0x10000300 (UUENCODE),
     part 0x2540102b no_id no_id ''LPC1114[FHN33/301|FHN33/302|FHI33/302|FBD48/302|FBD100/302]'' 8 (Some sectorMap4k) 1 8192 1024 0x10000300 (UUENCODE),
     part 0x00040040 no_id no_id ''LPC1114[FBD48|FHN33]/303'' 8 (Some sectorMap4k) 1 8192 1024 0x10000300 (UUENCODE),
     part 0x00040042 no_id no_id ''LPC1114FHN33/203'' 8 (Some sectorMap4k) 1 4096 1024 0x10000300 (UUENCODE),
     part 0x00040060 no_id no_id ''LPC1114FBD48/323'' 12 (Some sectorMap4k) 1 8192 1024 0x10000300 (UUENCODE),
     part 0x00040070 no_id no_id ''LPC1114[FBD48|FHN33]/333'' 14 (Some sectorMap4k) 1 8192 1024 0x10000300 (UUENCODE),
     part 0x00040040 no_id no_id ''LPC1114FHI33/303'' 8 (Some sectorMap4k) 1 8192 1024 0x10000300 (UUENCODE),
     part 0x00050080 no_id no_id ''LPC1115FBD48/303'' 16 (Some sectorMap4k) 1 8192 1024 0x10000300 (UUENCODE),
     part 0x1421102b no_id no_id ''LPC11C12FBD48/301'' 4 (Some sectorMap4k) 1 8192 1024 0x10000300 (UUENCODE),
     part 0x1440102b no_id no_id ''LPC11C14FBD48/301'' 8 (Some sectorMap4k) 1 8192 1024 0x10000300 (UUENCODE),
     part 0x1431102b no_id no_id ''LPC11C22FBD48/301'' 4 (Some sectorMap4k) 1 8192 1024 0x10000300 (UUENCODE),
     part 0x1430102b no_id no_id ''LPC11C24FBD48/301'' 8 (Some sectorMap4k) 1 8192 1024 0x10000300 (UUENCODE)]"

definition partDef_LPC112x_13xx :: "partinfo list" where
  "partDef_LPC112x_13xx =
    [part 0x00140040 no_id no_id ''LPC1124JBD48/303'' 8 (Some sectorMap4k) 1 8192 1024 0x10000300 (UUENCODE OR HAS_UID),
     part 0x00150080 no_id no_id ''LPC1125JBD48/303'' 16 (Some sectorMap4k) 1 8192 1024 0x10000300 (UUENCODE OR HAS_UID),
     part 0x293e902b no_id no_id ''LPC11E11FHN33/101'' 2 (Some sectorMap4k) 1 4096 1024 0x10000300 (UUENCODE),
     part 0x2954502b no_id no_id ''LPC11E12FBD48/201'' 4 (Some sectorMap4k) 1 6144 1024 0x10000300 (UUENCODE),
     part 0x296a102b no_id no_id ''LPC11E13FBD48/301'' 6 (Some sectorMap4k) 1 8192 1024 0x10000300 (UUENCODE),
     part 0x2980102b no_id no_id ''LPC11E14FHN33/401'' 8 (Some sectorMap4k) 1 10240 1024 0x10000300 (UUENCODE),
     part 0x2980102b no_id no_id ''LPC11E14FBD48/401'' 8 (Some sectorMap4k) 1 10240 1024 0x10000300 (UUENCODE),
     part 0x2980102b no_id no_id ''LPC11E14FBD64/401'' 8 (Some sectorMap4k) 1 10240 1024 0x10000300 (UUENCODE),
     part 0x00009c41 no_id no_id ''LPC11E35FHI33/501'' 16 (Some sectorMap4k) 1 12288 1024 0x10000300 (UUENCODE),
     part 0x0000bc41 no_id no_id ''LPC11E36FBD64/501'' 24 (Some sectorMap4k) 1 12288 1024 0x10000300 (UUENCODE),
     part 0x00009c41 no_id no_id ''LPC11E36FHN33/501'' 24 (Some sectorMap4k) 1 12288 1024 0x10000300 (UUENCODE),
     part 0x00007c41 no_id no_id ''LPC11E37FBD48/501'' 32 (Some sectorMap4k) 1 12288 1024 0x10000300 (UUENCODE),
     part 0x00007c45 no_id no_id ''LPC11E37HFBD64/401'' 32 (Some sectorMap4k) 1 12288 1024 0x10000300 (UUENCODE),
     part 0x00007c41 no_id no_id ''LPC11E37FBD64/501'' 32 (Some sectorMap4k) 1 12288 1024 0x10000300 (UUENCODE),
     part 0x2c42502b no_id no_id ''LPC1311FHN33'' 2 (Some sectorMap4k) 1 4096 1024 0x10000300 (UUENCODE OR HAS_UID),
     part 0x1816902b no_id no_id ''LPC1311FHN33/01'' 2 (Some sectorMap4k) 1 4096 1024 0x10000300 (UUENCODE OR HAS_UID),
     part 0x2c40102b no_id no_id ''LPC1313F[HN33|BD48]'' 8 (Some sectorMap4k) 1 8192 1024 0x10000300 (UUENCODE OR HAS_UID),
     part 0x1830102b no_id no_id ''LPC1313F[HN33|BD48]/01'' 8 (Some sectorMap4k) 1 8192 1024 0x10000300 (UUENCODE OR HAS_UID),
     part 0x3d01402b no_id no_id ''LPC1342F[HN33|BD48]'' 4 (Some sectorMap4k) 1 4096 1024 0x10000300 (UUENCODE OR HAS_UID),
     part 0x3d00002b no_id no_id ''LPC1343F[HN33|BD48]'' 8 (Some sectorMap4k) 1 8192 1024 0x10000300 (UUENCODE OR HAS_UID),
     part 0x28010541 no_id no_id ''LPC1345FHN33'' 8 (Some sectorMap4k) 1 8192 1024 0x10000300 (UUENCODE OR HAS_UID),
     part 0x28010541 no_id no_id ''LPC1345FBD48'' 8 (Some sectorMap4k) 1 8192 1024 0x10000300 (UUENCODE OR HAS_UID),
     part 0x08018542 no_id no_id ''LPC1346FHN33'' 12 (Some sectorMap4k) 1 8192 1024 0x10000300 (UUENCODE OR HAS_UID),
     part 0x08018542 no_id no_id ''LPC1346FBD48'' 12 (Some sectorMap4k) 1 8192 1024 0x10000300 (UUENCODE OR HAS_UID),
     part 0x08020543 no_id no_id ''LPC1347FHN33'' 16 (Some sectorMap4k) 1 8192 1024 0x10000300 (UUENCODE OR HAS_UID),
     part 0x08020543 no_id no_id ''LPC1347FBD48'' 16 (Some sectorMap4k) 1 8192 1024 0x10000300 (UUENCODE OR HAS_UID),
     part 0x08020543 no_id no_id ''LPC1347FBD64'' 16 (Some sectorMap4k) 1 8192 1024 0x10000300 (UUENCODE OR HAS_UID),
     part 0x3a010523 no_id no_id ''LPC1315FHN33'' 8 (Some sectorMap4k) 1 8192 1024 0x10000300 (UUENCODE OR HAS_UID),
     part 0x3a010523 no_id no_id ''LPC1315FBD48'' 8 (Some sectorMap4k) 1 8192 1024 0x10000300 (UUENCODE OR HAS_UID),
     part 0x1a018524 no_id no_id ''LPC1316FHN33'' 12 (Some sectorMap4k) 1 8192 1024 0x10000300 (UUENCODE OR HAS_UID),
     part 0x1a018524 no_id no_id ''LPC1316FBD48'' 12 (Some sectorMap4k) 1 8192 1024 0x10000300 (UUENCODE OR HAS_UID),
     part 0x1a020525 no_id no_id ''LPC1317FHN33'' 16 (Some sectorMap4k) 1 8192 1024 0x10000300 (UUENCODE OR HAS_UID),
     part 0x1a020525 no_id no_id ''LPC1317FBD48'' 16 (Some sectorMap4k) 1 8192 1024 0x10000300 (UUENCODE OR HAS_UID),
     part 0x1a020525 no_id no_id ''LPC1317FBD64'' 16 (Some sectorMap4k) 1 8192 1024 0x10000300 (UUENCODE OR HAS_UID)]"

definition partDef_LPC17xx :: "partinfo list" where
  "partDef_LPC17xx =
    [part 0x27011132 no_id no_id ''LPC1774'' 18 (Some sectorMapLpc17xx) 1 32768 1024 0x10000300 (UUENCODE),
     part 0x27191f43 no_id no_id ''LPC1776'' 22 (Some sectorMapLpc17xx) 1 65536 1024 0x10000300 (UUENCODE),
     part 0x27193747 no_id no_id ''LPC1777'' 30 (Some sectorMapLpc17xx) 1 65536 1024 0x10000300 (UUENCODE),
     part 0x27193f47 no_id no_id ''LPC1778'' 30 (Some sectorMapLpc17xx) 1 65536 1024 0x10000300 (UUENCODE),
     part 0x281d1743 no_id no_id ''LPC1785'' 22 (Some sectorMapLpc17xx) 1 65536 1024 0x10000300 (UUENCODE),
     part 0x281d1f43 no_id no_id ''LPC1786'' 22 (Some sectorMapLpc17xx) 1 65536 1024 0x10000300 (UUENCODE),
     part 0x281d3747 no_id no_id ''LPC1787'' 30 (Some sectorMapLpc17xx) 1 65536 1024 0x10000300 (UUENCODE),
     part 0x281d3f47 no_id no_id ''LPC1788'' 30 (Some sectorMapLpc17xx) 1 65536 1024 0x10000300 (UUENCODE),
     part 0x26113f37 no_id no_id ''LPC1769'' 30 (Some sectorMapLpc17xx) 1 65536 1024 0x10000300 (UUENCODE OR VECT_REMAP256),
     part 0x26013f37 no_id no_id ''LPC1768'' 30 (Some sectorMapLpc17xx) 1 65536 1024 0x10000300 (UUENCODE OR VECT_REMAP256),
     part 0x26012837 no_id no_id ''LPC1767'' 30 (Some sectorMapLpc17xx) 1 65536 1024 0x10000300 (UUENCODE OR VECT_REMAP256),
     part 0x26013f33 no_id no_id ''LPC1766'' 22 (Some sectorMapLpc17xx) 1 65536 1024 0x10000300 (UUENCODE OR VECT_REMAP256),
     part 0x26013733 no_id no_id ''LPC1765'' 22 (Some sectorMapLpc17xx) 1 65536 1024 0x10000300 (UUENCODE OR VECT_REMAP256),
     part 0x26011922 no_id no_id ''LPC1764'' 18 (Some sectorMapLpc17xx) 1 32768 1024 0x10000300 (UUENCODE OR VECT_REMAP256),
     part 0x26012033 no_id no_id ''LPC1763'' 22 (Some sectorMapLpc17xx) 1 65536 1024 0x10000300 (UUENCODE OR VECT_REMAP256),
     part 0x25113737 no_id no_id ''LPC1759'' 30 (Some sectorMapLpc17xx) 1 65536 1024 0x10000300 (UUENCODE OR VECT_REMAP256),
     part 0x25013f37 no_id no_id ''LPC1758'' 30 (Some sectorMapLpc17xx) 1 65536 1024 0x10000300 (UUENCODE OR VECT_REMAP256),
     part 0x25011723 no_id no_id ''LPC1756'' 22 (Some sectorMapLpc17xx) 1 32768 1024 0x10000300 (UUENCODE OR VECT_REMAP256),
     part 0x25011722 no_id no_id ''LPC1754'' 18 (Some sectorMapLpc17xx) 1 32768 1024 0x10000300 (UUENCODE OR VECT_REMAP256),
     part 0x25001121 no_id no_id ''LPC1752'' 16 (Some sectorMapLpc17xx) 1 16384 1024 0x10000300 (UUENCODE OR VECT_REMAP256),
     part 0x25001118 0x25001110 no_id ''LPC1751'' 8 (Some sectorMapLpc17xx) 1 8192 1024 0x10000300 (UUENCODE OR VECT_REMAP256)]"

definition partDef_LPC2xxx :: "partinfo list" where
  "partDef_LPC2xxx =
    [part 0x0002ff01 no_id no_id ''LPC2131/LPC2131/01'' 8 (Some sectorMapLpc23xx) 1 8192 1024 0x40000200 (UUENCODE OR VECT_REMAP64),
     part 0x0002ff11 no_id no_id ''LPC2132/LPC2132/01'' 9 (Some sectorMapLpc23xx) 1 16384 1024 0x40000200 (UUENCODE OR VECT_REMAP64),
     part 0x0002ff12 no_id no_id ''LPC2134/LPC2134/01'' 11 (Some sectorMapLpc23xx) 1 16384 1024 0x40000200 (UUENCODE OR VECT_REMAP64),
     part 0x0002ff23 no_id no_id ''LPC2136/LPC2136/01'' 15 (Some sectorMapLpc23xx) 1 32768 1024 0x40000200 (UUENCODE OR VECT_REMAP64),
     part 0x0002ff25 no_id no_id ''LPC2138/LPC2138/01'' 27 (Some sectorMapLpc23xx) 1 32768 1024 0x40000200 (UUENCODE OR VECT_REMAP64),
     part 0x0201ff01 no_id no_id ''LPC2109'' 8 (Some sectorMap8k) 1 8192 1024 0x40000200 (UUENCODE),
     part 0x0201ff12 no_id no_id ''LPC2119'' 16 (Some sectorMap8k) 1 16384 1024 0x40000200 (UUENCODE),
     part 0x0201ff13 no_id no_id ''LPC2129'' 18 (Some sectorMapLpc21xx) 1 16384 1024 0x40000200 (UUENCODE),
     part 0x0101ff12 no_id no_id ''LPC2114'' 16 (Some sectorMap8k) 1 16384 1024 0x40000200 (UUENCODE),
     part 0x0101ff13 no_id no_id ''LPC2124'' 18 (Some sectorMapLpc21xx) 1 16384 1024 0x40000200 (UUENCODE),
     part 0x0301ff13 no_id no_id ''LPC2194'' 18 (Some sectorMapLpc21xx) 1 16384 1024 0x40000200 (UUENCODE),
     part 0x0401ff13 no_id no_id ''LPC2292'' 18 (Some sectorMapLpc21xx) 1 16384 1024 0x40000200 (UUENCODE),
     part 0x0501ff13 no_id no_id ''LPC2294'' 18 (Some sectorMapLpc21xx) 1 16384 1024 0x40000200 (UUENCODE),
     part 0x0601ff13 no_id no_id ''LPC2214/01'' 18 (Some sectorMapLpc21xx) 1 16384 1024 0x40000200 (UUENCODE),
     part 0x0401ff12 no_id no_id ''LPC2212/01'' 16 (Some sectorMap8k) 1 16384 1024 0x40000200 (UUENCODE),
     part 0x0301ff12 no_id no_id ''LPC2210/LPC2220/LPC2290'' 0 None 0 16384 1024 0x10000300 (UUENCODE),
     part 0x0301ff32 no_id no_id ''LPC2220C/LPC2290/01C'' 0 None 0 65536 1024 0x10000300 (UUENCODE),
     part 0x1600f701 no_id no_id ''LPC2361'' 9 (Some sectorMapLpc23xx) 1 8192 1024 0x40000200 (UUENCODE OR VECT_REMAP64),
     part 0x1600ff22 no_id no_id ''LPC2362'' 11 (Some sectorMapLpc23xx) 1 32768 1024 0x40000200 (UUENCODE OR VECT_REMAP64),
     part 0x1600f902 no_id no_id ''LPC2364'' 11 (Some sectorMapLpc23xx) 1 8192 1024 0x40000200 (UUENCODE OR VECT_REMAP64),
     part 0x1600e823 no_id no_id ''LPC2365'' 15 (Some sectorMapLpc23xx) 1 32768 1024 0x40000200 (UUENCODE OR VECT_REMAP64),
     part 0x1600f923 no_id no_id ''LPC2366'' 15 (Some sectorMapLpc23xx) 1 32768 1024 0x40000200 (UUENCODE OR VECT_REMAP64),
     part 0x1600e825 no_id no_id ''LPC2367'' 28 (Some sectorMapLpc23xx) 1 32768 1024 0x40000200 (UUENCODE OR VECT_REMAP64),
     part 0x1600f925 no_id no_id ''LPC2368'' 28 (Some sectorMapLpc23xx) 1 32768 1024 0x40000200 (UUENCODE OR VECT_REMAP64),
     part 0x1700e825 no_id no_id ''LPC2377'' 28 (Some sectorMapLpc23xx) 1 32768 1024 0x40000200 (UUENCODE OR VECT_REMAP64),
     part 0x1700fd25 no_id no_id ''LPC2378'' 28 (Some sectorMapLpc23xx) 1 32768 1024 0x40000200 (UUENCODE OR VECT_REMAP64),
     part 0x1700ff35 no_id no_id ''LPC2387'' 28 (Some sectorMapLpc23xx) 1 65536 1024 0x40000200 (UUENCODE OR VECT_REMAP64),
     part 0x1800ff35 no_id no_id ''LPC2388'' 28 (Some sectorMapLpc23xx) 1 65536 1024 0x40000200 (UUENCODE OR VECT_REMAP64)]"

definition partDef_LPC18xx_546xx :: "partinfo list" where
  "partDef_LPC18xx_546xx =
    [part 0xf000d830 no_id 0x00 ''LPC1850FET[180|256]'' 0 None 0 98304 1024 0x10000200 (UUENCODE),
     part 0xf000d860 no_id 0x00 ''LPC18S50FET[180|256]'' 0 None 0 98304 1024 0x10000200 (UUENCODE),
     part 0xf000da30 no_id 0x00 ''LPC1830[[FET[100|180|256]|FBD144]'' 0 None 0 98304 1024 0x10000200 (UUENCODE),
     part 0xf000da60 no_id 0x00 ''LPC18S30[[FET[100|256]|FBD144]'' 0 None 0 98304 1024 0x10000200 (UUENCODE),
     part 0xf00adb3c no_id 0x00 ''LPC1820[FET100|FBD[100|144]]'' 0 None 0 98304 1024 0x10000200 (UUENCODE),
     part 0xf00adb6c no_id 0x00 ''LPC18S20FBD144'' 0 None 0 98304 1024 0x10000200 (UUENCODE),
     part 0xf00b5b3f no_id 0x00 ''LPC1810[FET100|FBD144]'' 0 None 0 65536 1024 0x10000200 (UUENCODE),
     part 0xf00b5b6f no_id 0x00 ''LPC18S10[FET[100|180]|FBD144]'' 0 None 0 65536 1024 0x10000200 (UUENCODE),
     part 0xf001d830 no_id 0x00 ''LPC1857[FET[180|256]|FBD208]'' 15 (Some sectorMapLpc18x7) 2 32768 1024 0x10000200 (UUENCODE),
     part 0xf001d860 no_id 0x00 ''LPC18S57JBD208'' 15 (Some sectorMapLpc18x7) 2 32768 1024 0x10000200 (UUENCODE),
     part 0xf001d830 no_id 0x44 ''LPC1853[FET[180|256]|FBD208]'' 11 (Some sectorMapLpc18x3) 2 32768 1024 0x10000200 (UUENCODE),
     part 0xf001da30 no_id 0x00 ''LPC1837FET[[100|180|256]FBD144]'' 15 (Some sectorMapLpc18x7) 2 32768 1024 0x10000200 (UUENCODE),
     part 0xf001da60 no_id 0x00 ''LPC18S37[JET100|JBD144]'' 15 (Some sectorMapLpc18x7) 2 32768 1024 0x10000200 (UUENCODE),
     part 0xf001da30 no_id 0x44 ''LPC1833FET[[100|180|256]FBD144]'' 11 (Some sectorMapLpc18x3) 2 32768 1024 0x10000200 (UUENCODE),
     part 0xf001db3c no_id 0x00 ''LPC1827[JBD144|JET100]'' 15 (Some sectorMapLpc18x7) 2 32768 1024 0x10000200 (UUENCODE),
     part 0xf001db3c no_id 0x22 ''LPC1823[JBD144|JET100]'' 11 (Some sectorMapLpc18x3) 2 32768 1024 0x10000200 (UUENCODE),
     part 0xf00bdb3c no_id 0x44 ''LPC1823[JBD144|JET100]'' 11 (Some sectorMapLpc18x3) 2 32768 1024 0x10000200 (UUENCODE),
     part 0xf00bdb3c no_id 0x80 ''LPC1822[JBD144|JET100]'' 15 (Some sectorMapLpc18x2) 2 32768 1024 0x10000200 (UUENCODE),
     part 0xf001db3f no_id 0x00 ''LPC1817[JBD144|JET100]'' 15 (Some sectorMapLpc18x7) 2 32768 1024 0x10000200 (UUENCODE),
     part 0xf001db3f no_id 0x22 ''LPC1815[JBD144|JET100]'' 13 (Some sectorMapLpc18x5) 2 32768 1024 0x10000200 (UUENCODE),
     part 0xf00bdb3f no_id 0x44 ''LPC1813[JBD144|JET100]'' 11 (Some sectorMapLpc18x3) 2 32768 1024 0x10000200 (UUENCODE),
     part 0xf00bdb3f no_id 0x80 ''LPC1812[JBD144|JET100]'' 15 (Some sectorMapLpc18x2) 1 32768 1024 0x10000200 (UUENCODE),
     part 0x00001549 no_id 0x00 ''LPC1549'' 64 (Some sectorMap4k) 1 36864 1024 0x02000200 (TERM_CRLF),
     part 0x00001548 no_id 0x00 ''LPC1548'' 32 (Some sectorMap4k) 1 20480 1024 0x02000200 (TERM_CRLF),
     part 0x00001547 no_id 0x00 ''LPC1547'' 16 (Some sectorMap4k) 1 12288 1024 0x02000200 (TERM_CRLF),
     part 0x00001519 no_id 0x00 ''LPC1519'' 64 (Some sectorMap4k) 1 36864 1024 0x02000200 (TERM_CRLF),
     part 0x00001518 no_id 0x00 ''LPC1518'' 32 (Some sectorMap4k) 1 20480 1024 0x02000200 (TERM_CRLF),
     part 0x00001517 no_id 0x00 ''LPC1517'' 16 (Some sectorMap4k) 1 12288 1024 0x02000200 (TERM_CRLF),
     part 0x7f954605 no_id no_id ''LPC54605J256ET180'' 8 (Some sectorMap32k) 1 139264 1024 0x20000200 (TERM_CRLF OR HAS_UID OR SKIP_0),
     part 0xfff54605 no_id no_id ''LPC54605J512ET180'' 16 (Some sectorMap32k) 1 204800 1024 0x20000200 (TERM_CRLF OR HAS_UID OR SKIP_0),
     part 0x7f954606 no_id no_id ''LPC54606J256[ET100|BD100|ET180]'' 8 (Some sectorMap32k) 1 139264 1024 0x20000200 (TERM_CRLF OR HAS_UID OR SKIP_0),
     part 0xfff54606 no_id no_id ''LPC54606J512[ET100|BD100|BD208]'' 16 (Some sectorMap32k) 1 204800 1024 0x20000200 (TERM_CRLF OR HAS_UID OR SKIP_0),
     part 0x7f954607 no_id no_id ''LPC54607J256[ET180|BD208]'' 8 (Some sectorMap32k) 1 139264 1024 0x20000200 (TERM_CRLF OR HAS_UID OR SKIP_0),
     part 0xfff54607 no_id no_id ''LPC54607J512ET180'' 16 (Some sectorMap32k) 1 204800 1024 0x20000200 (TERM_CRLF OR HAS_UID OR SKIP_0),
     part 0xfff54608 no_id no_id ''LPC54608J512[ET180|BD208]'' 16 (Some sectorMap32k) 1 204800 1024 0x20000200 (TERM_CRLF OR HAS_UID OR SKIP_0),
     part 0xfff54616 no_id no_id ''LPC54616J512[ET100|BD100|BD208]'' 16 (Some sectorMap32k) 1 204800 1024 0x20000200 (TERM_CRLF OR HAS_UID OR SKIP_0),
     part 0x7f954616 no_id no_id ''LPC54616J256ET180'' 8 (Some sectorMap32k) 1 139264 1024 0x20000200 (TERM_CRLF OR HAS_UID OR SKIP_0),
     part 0xfff54618 no_id no_id ''LPC54618J512[ET180|BD208]'' 16 (Some sectorMap32k) 1 204800 1024 0x20000200 (TERM_CRLF OR HAS_UID OR SKIP_0),
     part 0xfff54628 no_id no_id ''LPC54628J512ET180'' 16 (Some sectorMap32k) 1 204800 1024 0x20000200 (TERM_CRLF OR HAS_UID OR SKIP_0),
     part 0xa001c830 no_id no_id ''LPC4357'' 30 (Some sectorMapLpc43x7) 2 139264 1024 0x10000300 (TERM_CRLF OR UUENCODE)]"

definition partDef :: "partinfo list" where
  "partDef = partDef_LPC8xx_11xx @ partDef_LPC112x_13xx @ partDef_LPC17xx @ partDef_LPC2xxx @ partDef_LPC18xx_546xx"

definition partDefUnknown :: partinfo where
  "partDefUnknown = part 0 0 0 ''unknown'' 0 None 0 0 0 0 0"

section \<open>Searches\<close>

fun sector_loop :: "u32 \<Rightarrow> nat \<Rightarrow> nat \<Rightarrow> sectormap list \<Rightarrow> int option" where
  "sector_loop addr i 0 rows = Some (- 1)"
| "sector_loop addr i (Suc n) [] = None"
| "sector_loop addr i (Suc n) ((bank, base, sz) # rows) =
     (if base \<le> addr \<and> addr < base + sz then Some (int i) else sector_loop addr (Suc i) n rows)"

definition LPCISP_GetSectorAddr :: "u32 \<Rightarrow> partinfo \<Rightarrow> int option" where
  "LPCISP_GetSectorAddr addr p =
     (case sectorMap p of None \<Rightarrow> Some (- 1) | Some rows \<Rightarrow> sector_loop addr 0 (numSectors p) rows)"

fun size_loop :: "u32 \<Rightarrow> nat \<Rightarrow> sectormap list \<Rightarrow> u32 option" where
  "size_loop acc 0 rows = Some acc"
| "size_loop acc (Suc n) [] = None"
| "size_loop acc (Suc n) ((bank, base, sz) # rows) = size_loop (acc + sz) n rows"

definition GetFlashSize :: "partinfo \<Rightarrow> u32 option" where
  "GetFlashSize p = (case sectorMap p of None \<Rightarrow> Some 0 | Some rows \<Rightarrow> size_loop 0 (numSectors p) rows)"

definition id_matches :: "u32 \<Rightarrow> u32 \<Rightarrow> partinfo \<Rightarrow> nat \<Rightarrow> bool" where
  "id_matches pid id1 p j \<longleftrightarrow> p_id p ! j = pid \<and> (p_id1 p = no_id \<or> p_id1 p = id1)"

fun find_part :: "u32 \<Rightarrow> u32 \<Rightarrow> partinfo list \<Rightarrow> partinfo option" where
  "find_part pid id1 [] = None"
| "find_part pid id1 (p # ps) =
     (if id_matches pid id1 p 0 then Some (p\<lparr>idIdx := 0\<rparr>)
      else if id_matches pid id1 p 1 then Some (p\<lparr>idIdx := 1\<rparr>)
      else find_part pid id1 ps)"

section \<open>Sectors of an address\<close>

text \<open>Sectors that lie one behind the other from an address on.\<close>

fun chained :: "nat \<Rightarrow> sectormap list \<Rightarrow> bool" where
  "chained a [] \<longleftrightarrow> True"
| "chained a ((bank, base, sz) # rows) \<longleftrightarrow>
     unat base = a \<and> a + unat sz < 2 ^ 32 \<and> chained (a + unat sz) rows"

definition in_sector :: "u32 \<Rightarrow> sectormap \<Rightarrow> bool" where
  "in_sector addr = (\<lambda>(bank, base, sz). unat base \<le> unat addr \<and> unat addr < unat base + unat sz)"

definition span :: "sectormap list \<Rightarrow> nat" where
  "span rows = sum_list (map (\<lambda>(bank, base, sz). unat sz) rows)"

lemma span_simps [simp]: "span [] = 0" "span (r # rows) = unat (snd (snd r)) + span rows"
  by (simp_all add: span_def case_prod_beta)

lemma in_sector_test:
  "a + unat sz < 2 ^ 32 \<Longrightarrow> unat base = a \<Longrightarrow>
     base \<le> addr \<and> addr < base + sz \<longleftrightarrow> in_sector addr (bank, base, sz)"
  by (simp add: in_sector_def word_le_nat_alt word_less_nat_alt unat_word_ariths)

lemma sector_loop_chained:
  assumes "chained a rows" "n \<le> length rows"
  shows "if a \<le> unat addr \<and> unat addr < a + span (take n rows)
    then \<exists>k < n. sector_loop addr i n rows = Some (int (i + k)) \<and> in_sector addr (rows ! k)
    else sector_loop addr i n rows = Some (- 1)"
  using assms
proof (induction n arbitrary: a i rows)
  case 0
  then show ?case by simp
next
  case (Suc n)
  then obtain bank base sz rows' where rows: "rows = (bank, base, sz) # rows'" by (cases rows) auto
  with Suc.prems have c: "unat base = a" "a + unat sz < 2 ^ 32" "chained (a + unat sz) rows'" "n \<le> length rows'"
    by simp_all
  note test = in_sector_test [OF c(2,1), of addr bank]
  show ?case
  proof (cases "in_sector addr (bank, base, sz)")
    case True
    then have "a \<le> unat addr \<and> unat addr < a + span (take (Suc n) rows)"
      using rows c(1) by (simp add: in_sector_def)
    moreover have "sector_loop addr i (Suc n) rows = Some (int (i + 0)) \<and> in_sector addr (rows ! 0)"
      using True test rows by simp
    ultimately show ?thesis by (metis zero_less_Suc)
  next
    case False
    then have skip: "sector_loop addr i (Suc n) rows = sector_loop addr (Suc i) n rows'"
      using test rows by auto
    have range: "a \<le> unat addr \<and> unat addr < a + span (take (Suc n) rows) \<longleftrightarrow>
        a + unat sz \<le> unat addr \<and> unat addr < a + unat sz + span (take n rows')"
      using False rows c(1) by (auto simp: in_sector_def)
    show ?thesis
    proof (cases "a + unat sz \<le> unat addr \<and> unat addr < a + unat sz + span (take n rows')")
      case True
      with Suc.IH [OF c(3,4), of "Suc i"] obtain k where "k < n" "sector_loop addr (Suc i) n rows' = Some (int (Suc i + k))"
        "in_sector addr (rows' ! k)" by auto
      with True range skip rows show ?thesis by (auto intro!: exI [of _ "Suc k"])
    next
      case False
      with Suc.IH [OF c(3,4), of "Suc i"] range skip show ?thesis by auto
    qed
  qed
qed

lemma size_loop_span:
  assumes "chained a rows" "n \<le> length rows"
  shows "size_loop acc n rows = Some (acc + of_nat (span (take n rows)))"
  using assms
proof (induction n arbitrary: a acc rows)
  case (Suc n)
  then obtain bank base sz rows' where "rows = (bank, base, sz) # rows'" by (cases rows) auto
  with Suc.IH [of "a + unat sz" rows' "acc + sz"] Suc.prems show ?case by (simp add: algebra_simps)
qed simp

lemma span_bound: "chained a rows \<Longrightarrow> n \<le> length rows \<Longrightarrow> a < 2 ^ 32 \<Longrightarrow> a + span (take n rows) < 2 ^ 32"
proof (induction n arbitrary: a rows)
  case (Suc n)
  then obtain bank base sz rows' where "rows = (bank, base, sz) # rows'" by (cases rows) auto
  with Suc.IH [of "a + unat sz" rows'] Suc.prems show ?case by simp
qed simp

text \<open>The sectors of bank 0 of every map are chained.\<close>

definition bank0 :: "sectormap list \<Rightarrow> sectormap list" where
  "bank0 rows = takeWhile (\<lambda>r. fst r = 0) rows"

definition map_ok :: "sectormap list \<Rightarrow> bool" where
  "map_ok rows \<longleftrightarrow> rows \<noteq> [] \<and> chained (unat (fst (snd (hd rows)))) (bank0 rows)"

named_theorems sector_maps

lemma maps_ok [sector_maps]:
  "map_ok sectorMap1k" "map_ok sectorMap4k" "map_ok sectorMap8k" "map_ok sectorMap32k" "map_ok sectorMapLpc17xx"
  "map_ok sectorMapLpc18x2" "map_ok sectorMapLpc18x3" "map_ok sectorMapLpc18x5" "map_ok sectorMapLpc18x7"
  "map_ok sectorMapLpc21xx" "map_ok sectorMapLpc43x7" "map_ok sectorMapLpc23xx"
  by (simp_all add: map_ok_def bank0_def sectorMap1k_def sectorMap4k_def sectorMap8k_def sectorMap32k_def
      sectorMapLpc17xx_def sectorMapLpc18x2_def sectorMapLpc18x3_def sectorMapLpc18x5_def sectorMapLpc18x7_def
      sectorMapLpc21xx_def sectorMapLpc43x7_def sectorMapLpc23xx_def)


definition part_ok :: "partinfo \<Rightarrow> bool" where
  "part_ok p \<longleftrightarrow> (case sectorMap p of None \<Rightarrow> numSectors p = 0
     | Some rows \<Rightarrow> map_ok rows \<and> numSectors p \<le> length rows)"

lemma length_maps [simp]:
  "length sectorMap1k = 32" "length sectorMap4k = 64" "length sectorMap8k = 16" "length sectorMap32k = 16"
  "length sectorMapLpc17xx = 32" "length sectorMapLpc18x2 = 15" "length sectorMapLpc18x3 = 22"
  "length sectorMapLpc18x5 = 26" "length sectorMapLpc18x7 = 30" "length sectorMapLpc21xx = 18"
  "length sectorMapLpc43x7 = 30" "length sectorMapLpc23xx = 28"
  by (simp_all add: sectorMap1k_def sectorMap4k_def sectorMap8k_def sectorMap32k_def
      sectorMapLpc17xx_def sectorMapLpc18x2_def sectorMapLpc18x3_def sectorMapLpc18x5_def sectorMapLpc18x7_def
      sectorMapLpc21xx_def sectorMapLpc43x7_def sectorMapLpc23xx_def)

lemma part_ok_part: "part_ok (part a b c nm n m banks ram block base fl) \<longleftrightarrow>
    (case m of None \<Rightarrow> n = 0 | Some rows \<Rightarrow> map_ok rows \<and> n \<le> length rows)"
  by (auto simp: part_ok_def part_def split: option.splits)

lemma parts_ok: "list_all part_ok partDef"
  unfolding partDef_def list_all_append
  by (simp add: partDef_LPC8xx_11xx_def partDef_LPC112x_13xx_def partDef_LPC17xx_def partDef_LPC2xxx_def
      partDef_LPC18xx_546xx_def part_ok_part sector_maps)

lemma bank0_take: "\<forall>r \<in> set (take n rows). fst r = 0 \<Longrightarrow> n \<le> length rows \<Longrightarrow> take n rows = take n (bank0 rows) \<and> n \<le> length (bank0 rows)"
proof (induction n arbitrary: rows)
  case (Suc n)
  then obtain r rows' where "rows = r # rows'" by (cases rows) auto
  with Suc show ?case by (simp add: bank0_def)
qed simp

lemma sector_loop_take: "n \<le> length rows \<Longrightarrow> sector_loop addr i n (take n rows) = sector_loop addr i n rows"
proof (induction n arbitrary: i rows)
  case (Suc n)
  then obtain r s where "rows = r # s" by (cases rows) auto
  with Suc.IH [of s "Suc i"] Suc.prems show ?case by (cases r) simp
qed simp

lemma size_loop_take: "n \<le> length rows \<Longrightarrow> size_loop acc n (take n rows) = size_loop acc n rows"
proof (induction n arbitrary: acc rows)
  case (Suc n)
  then obtain r s where "rows = r # s" by (cases rows) auto
  with Suc.IH [of s] Suc.prems show ?case by (cases r) simp
qed simp

lemma sector_of_address:
  assumes "p \<in> set partDef" "sectorMap p = Some rows" "\<forall>r \<in> set (take (numSectors p) rows). fst r = 0"
  shows "\<exists>size0. GetFlashSize p = Some size0 \<and> unat (fst (snd (hd rows))) + unat size0 < 2 ^ 32 \<and>
    (if unat (fst (snd (hd rows))) \<le> unat addr \<and> unat addr < unat (fst (snd (hd rows))) + unat size0
     then \<exists>k < numSectors p. LPCISP_GetSectorAddr addr p = Some (int k) \<and> in_sector addr (rows ! k)
     else LPCISP_GetSectorAddr addr p = Some (- 1))"
proof -
  let ?n = "numSectors p" and ?a = "unat (fst (snd (hd rows)))"
  have ok: "map_ok rows" "?n \<le> length rows"
    using parts_ok assms(1,2) by (auto simp: list_all_iff part_ok_def)
  have tk: "take ?n rows = take ?n (bank0 rows)" "?n \<le> length (bank0 rows)"
    using bank0_take [OF assms(3) ok(2)] by simp_all
  have ch: "chained ?a (bank0 rows)" using ok(1) by (simp add: map_ok_def)
  let ?s = "span (take ?n rows)"
  have loop: "sector_loop addr 0 ?n rows = sector_loop addr 0 ?n (bank0 rows)"
    using sector_loop_take [OF ok(2)] sector_loop_take [OF tk(2)] tk(1) by metis
  have nth: "k < ?n \<Longrightarrow> bank0 rows ! k = rows ! k" for k
    using tk(1) by (metis nth_take)
  have "size_loop 0 ?n rows = Some (of_nat ?s)"
    using size_loop_take [OF ok(2), of 0] size_loop_take [OF tk(2), of 0] tk(1) size_loop_span [OF ch tk(2), of 0] by simp
  moreover have "unat (of_nat ?s :: u32) = ?s"
    using span_bound [OF ch tk(2)] tk(1) unsigned_less [of "fst (snd (hd rows))", where ?'a = nat]
    by (intro unat_of_nat_small) simp
  moreover have "?a + ?s < 2 ^ 32"
    using span_bound [OF ch tk(2)] tk(1) unsigned_less [of "fst (snd (hd rows))", where ?'a = nat] by simp
  ultimately show ?thesis
    using sector_loop_chained [OF ch tk(2), of addr 0] assms(2) loop nth tk(1)
    by (auto simp: GetFlashSize_def LPCISP_GetSectorAddr_def split: if_splits)
qed

section \<open>Properties\<close>

lemma lpc810:
  "hd partDef_LPC8xx_11xx \<in> set partDef" "numSectors (hd partDef_LPC8xx_11xx) = 4"
  "sectorMap (hd partDef_LPC8xx_11xx) = Some sectorMap1k" "GetFlashSize (hd partDef_LPC8xx_11xx) = Some 0x1000"
  "flashBlockSize (hd partDef_LPC8xx_11xx) = 256" "fst (snd (hd sectorMap1k)) = 0"
  "\<forall>r \<in> set (take 4 sectorMap1k). fst r = 0"
proof -
  let ?p = "hd partDef_LPC8xx_11xx"
  have p: "?p = part 0x00008100 no_id no_id ''LPC810M021FN8'' 4 (Some sectorMap1k) 1 1024 256 0x10000300 (TERM_CRLF OR HAS_UID)"
    by (simp add: partDef_LPC8xx_11xx_def)
  have rows: "take 4 sectorMap1k = [(0, 0, 0x400), (0, 0x400, 0x400), (0, 0x800, 0x400), (0, 0xc00, 0x400)]"
    by (simp add: sectorMap1k_def)
  have "size_loop 0 4 (take 4 sectorMap1k) = Some 0x1000"
    unfolding rows by (simp add: eval_nat_numeral)
  then show "GetFlashSize ?p = Some 0x1000"
    unfolding p by (simp add: GetFlashSize_def part_def size_loop_take)
  show "?p \<in> set partDef" by (simp add: partDef_def partDef_LPC8xx_11xx_def)
  show "numSectors ?p = 4" "sectorMap ?p = Some sectorMap1k" "flashBlockSize ?p = 256" unfolding p by (simp_all add: part_def)
  show "fst (snd (hd sectorMap1k)) = 0" by (simp add: sectorMap1k_def)
  show "\<forall>r \<in> set (take 4 sectorMap1k). fst r = 0" unfolding rows by simp
qed

text \<open>C25: The sector of an address. For every part of the table whose sectors lie in bank 0, the search never
  reads behind the end of the sector map; for an address from the base of the first sector up to
  the flash size that \<open>GetFlashSize\<close> reports it returns the number of a sector of the part that
  contains the address, and for every other address it returns -1.\<close>

theorem part_sectors:
  assumes "p \<in> set partDef" "sectorMap p = Some rows" "\<forall>r \<in> set (take (numSectors p) rows). fst r = 0"
  shows "\<exists>size0. GetFlashSize p = Some size0 \<and>
    (if unat (fst (snd (hd rows))) \<le> unat addr \<and> unat addr < unat (fst (snd (hd rows))) + unat size0
     then \<exists>k < numSectors p. LPCISP_GetSectorAddr addr p = Some (int k) \<and> in_sector addr (rows ! k)
     else LPCISP_GetSectorAddr addr p = Some (- 1))"
  using sector_of_address [OF assms, of addr] by blast

lemma part_sectors_witness:
  "\<exists>k < 4. LPCISP_GetSectorAddr 0x801 (hd partDef_LPC8xx_11xx) = Some (int k) \<and> in_sector 0x801 (sectorMap1k ! k)"
  using part_sectors [OF lpc810(1,3), of "0x801"] lpc810 by auto

end
