(* ===== verification/Isp_Cmd.thy ===== *)
theory Isp_Cmd
  imports Serial_Io Uuencode Part_Desc Ble_Cmd "HOL-Library.Monad_Syntax"
begin

text \<open>
  Lines and commands of the NXP boot loader client: the first half of \<open>isp.c\<close>, and the identification
  of the part in \<open>nxp_partdesc.c\<close>. The line is a script of answers and a log of what is written
  (\<open>Serial_Io\<close>), which ends with reads that time out, so that every reading loop ends. A function gives
  \<open>None\<close> when it would write behind the end of its buffer. Log output is left out.
\<close>

section \<open>State\<close>

record lpcispcfg =
  resetPin :: nat
  ispPin :: nat
  echo :: bool
  lineTermination :: u8

text \<open>The line, the configuration, the levels set on pins, and the messages sent to the app.\<close>

record isp =
  is_ser :: serial
  is_cfg :: lpcispcfg
  is_gpio :: "(nat \<times> bool) list"
  is_ble :: "(u16 \<times> bytes) list"

definition with_rx :: "isp \<Rightarrow> u8 option list \<Rightarrow> isp" where
  [model_simps]: "with_rx s bs = s\<lparr>is_ser := (is_ser s)\<lparr>rx := bs\<rparr>\<rparr>"

definition gpio_set :: "nat \<Rightarrow> bool \<Rightarrow> isp \<Rightarrow> isp" where
  "gpio_set pin level s = s\<lparr>is_gpio := is_gpio s @ [(pin, level)]\<rparr>"

section \<open>Numbers in text\<close>

text \<open>\<open>sprintf("%d")\<close> of a signed integer, and of an unsigned one, whose top bit it takes for a sign.\<close>

definition fmt_int :: "int \<Rightarrow> bytes" where
  "fmt_int i = bytes_of ((if i < 0 then ''-'' else []) @ dec_str (nat \<bar>i\<bar>))"

definition fmt_u32 :: "u32 \<Rightarrow> bytes" where
  "fmt_u32 w = fmt_int (sint w)"

text \<open>\<open>strtol(s, NULL, 10)\<close> with \<open>b\<close> bits: white space, a sign, digits, and saturation.\<close>

definition strto :: "nat \<Rightarrow> bytes \<Rightarrow> int" where
  "strto b bs =
     (let t = dropWhile isspace (chars_of (cstr bs));
          neg = (take 1 t = ''-'');
          u = (if neg \<or> take 1 t = ''+'' then drop 1 t else t);
          ds = takeWhile (\<lambda>c. 48 \<le> (of_char c :: nat) \<and> (of_char c :: nat) \<le> 57) u;
          n = foldl (\<lambda>a c. a * 10 + (of_char c - 48)) (0 :: int) ds;
          v = (if neg then - n else n)
      in max (- (2 ^ (b - 1))) (min (2 ^ (b - 1) - 1) v))"

definition strtol10 :: "bytes \<Rightarrow> int" where "strtol10 = strto 32"
definition strtoll10 :: "bytes \<Rightarrow> int" where "strtoll10 = strto 64"

section \<open>Writing\<close>

text \<open>\<open>WriteString\<close>, \<open>WriteBuffer\<close> and \<open>WriteChar\<close>: whether all bytes were taken.\<close>

definition WriteBuffer :: "write_result \<Rightarrow> bytes \<Rightarrow> isp \<Rightarrow> bool \<times> isp" where
  "WriteBuffer w bs s =
     (let (n, ser) = serial_write w bs (is_ser s) in (n = int (length bs), s\<lparr>is_ser := ser\<rparr>))"

definition WriteString :: "write_result \<Rightarrow> bytes \<Rightarrow> isp \<Rightarrow> bool \<times> isp" where
  "WriteString w str s = WriteBuffer w (cstr str) s"

definition WriteChar :: "write_result \<Rightarrow> u8 \<Rightarrow> isp \<Rightarrow> bool \<times> isp" where
  "WriteChar w c s = WriteBuffer w [c] s"

section \<open>Reading\<close>

definition LPCISP_SERIAL_ReadBytes :: "nat \<Rightarrow> isp \<Rightarrow> bytes \<times> isp" where
  "LPCISP_SERIAL_ReadBytes n s = (let (bs, rs) = serial_read_bytes n (rx (is_ser s)) in (bs, with_rx s rs))"

definition ReadBuffer :: "nat \<Rightarrow> isp \<Rightarrow> bytes \<times> isp" where
  "ReadBuffer n s = LPCISP_SERIAL_ReadBytes n s"

text \<open>
  The line readers. \<open>cap\<close> is the size of the buffer, \<open>acc\<close> what stands in it; a result without a line
  is a time-out.
\<close>

fun ReadStringAny :: "nat \<Rightarrow> bytes \<Rightarrow> u8 option list \<Rightarrow> (bytes option \<times> u8 option list) option" where
  "ReadStringAny cap acc [] = Some (None, [])"
| "ReadStringAny cap acc (None # rs) = Some (None, rs)"
| "ReadStringAny cap acc (Some c # rs) =
     (if acc \<noteq> [] \<or> (c \<noteq> CR \<and> c \<noteq> LF)
      then if cap \<le> length acc then None
           else if acc \<noteq> [] \<and> (c = LF \<or> c = CR) then Some (Some acc, rs)
           else ReadStringAny cap (acc @ [c]) rs
      else ReadStringAny cap acc rs)"

fun ReadStringCRLF :: "nat \<Rightarrow> bool \<Rightarrow> bytes \<Rightarrow> u8 option list \<Rightarrow> (bytes option \<times> u8 option list) option" where
  "ReadStringCRLF cap t acc [] = Some (None, [])"
| "ReadStringCRLF cap t acc (None # rs) = Some (None, rs)"
| "ReadStringCRLF cap t acc (Some c # rs) =
     (if c = CR then ReadStringCRLF cap True acc rs
      else if c = LF
      then if t then (if cap \<le> length acc then None else Some (Some acc, rs))
           else ReadStringCRLF cap False acc rs
      else if 0x20 \<le> c
      then if cap \<le> length acc then None else ReadStringCRLF cap False (acc @ [c]) rs
      else ReadStringCRLF cap False acc rs)"

fun ReadStringLF :: "nat \<Rightarrow> bytes \<Rightarrow> u8 option list \<Rightarrow> (bytes option \<times> u8 option list) option" where
  "ReadStringLF cap acc [] = Some (None, [])"
| "ReadStringLF cap acc (None # rs) = Some (None, rs)"
| "ReadStringLF cap acc (Some c # rs) =
     (if c \<noteq> CR
      then if acc \<noteq> [] \<or> c \<noteq> LF
           then if cap \<le> length acc then None
                else if acc \<noteq> [] \<and> c = LF then Some (Some acc, rs)
                else ReadStringLF cap (acc @ [c]) rs
           else ReadStringLF cap acc rs
      else ReadStringLF cap acc rs)"

fun ReadStringCR :: "nat \<Rightarrow> bytes \<Rightarrow> u8 option list \<Rightarrow> (bytes option \<times> u8 option list) option" where
  "ReadStringCR cap acc [] = Some (None, [])"
| "ReadStringCR cap acc (None # rs) = Some (None, rs)"
| "ReadStringCR cap acc (Some c # rs) =
     (if c \<noteq> LF
      then if acc \<noteq> [] \<or> c \<noteq> CR
           then if cap \<le> length acc then None
                else if acc \<noteq> [] \<and> c = CR then Some (Some acc, rs)
                else ReadStringCR cap (acc @ [c]) rs
           else ReadStringCR cap acc rs
      else ReadStringCR cap acc rs)"

text \<open>The line read is used as a C string.\<close>

definition ReadString :: "nat \<Rightarrow> isp \<Rightarrow> (bytes option \<times> isp) option" where
  "ReadString cap s =
     (let t = lineTermination (is_cfg s); rs = rx (is_ser s)
      in map_option (\<lambda>(r, rs1). (map_option cstr r, with_rx s rs1))
           (if t = TERM_CR then ReadStringCR cap [] rs
            else if t = TERM_LF then ReadStringLF cap [] rs
            else if t = TERM_CRLF then ReadStringCRLF cap False [] rs
            else ReadStringAny cap [] rs))"

section \<open>Commands\<close>

definition AddTermination :: "bytes \<Rightarrow> lpcispcfg \<Rightarrow> bytes" where
  "AddTermination str cfg =
     str @ (if lineTermination cfg = TERM_CR then [CR] else if lineTermination cfg = TERM_LF then [LF] else [CR, LF])"

text \<open>
  The result is -1, 0 or 1 together with the last line read. \<open>alias\<close> says that command and response
  are the same buffer, of \<open>cap\<close> bytes; then the response has overwritten the command when the echo is
  compared with it.
\<close>

definition SendCommand ::
    "write_result \<Rightarrow> bool \<Rightarrow> nat \<Rightarrow> bytes \<Rightarrow> bytes option \<Rightarrow> isp \<Rightarrow> ((int \<times> bytes) \<times> isp) option" where
  "SendCommand w alias cap command match s = do {
     let s1 = snd (WriteString w (AddTermination command (is_cfg s)) s);
     (r, s2) \<leftarrow> ReadString cap s1;
     case r of
       None \<Rightarrow> Some ((- 1, []), s2)
     | Some response \<Rightarrow> do {
         (answer, s3) \<leftarrow>
           (if echo (is_cfg s2)
            then if \<not> alias \<and> take (length command) response \<noteq> command then Some (None, s2)
                 else ReadString cap s2
            else Some (Some response, s2));
         case answer of
           None \<Rightarrow> Some ((- 1, []), s3)
         | Some response \<Rightarrow>
             Some ((case match of None \<Rightarrow> 0
                    | Some m \<Rightarrow> if take (length m) response = m then 1 else 0, response), s3)
       }
   }"

definition SendCommandNoResponse :: "write_result \<Rightarrow> bytes \<Rightarrow> isp \<Rightarrow> (int \<times> isp) option" where
  "SendCommandNoResponse w command s = do {
     let (ok, s1) = WriteString w (AddTermination command (is_cfg s)) s;
     if ok \<and> echo (is_cfg s1)
     then do {
       (r, s2) \<leftarrow> ReadString 256 s1;
       Some (case r of None \<Rightarrow> - 1 | Some response \<Rightarrow> if take (length command) response = command then 0 else - 1, s2)
     }
     else Some (0, s1)
   }"

definition Unlock :: "write_result \<Rightarrow> isp \<Rightarrow> (int \<times> isp) option" where
  "Unlock w s = do {
     ((r, _), s1) \<leftarrow> SendCommand w False 256 (bytes_of ''U 23130'') (Some (bytes_of ''0'')) s;
     Some (if 0 < r then 0 else - 1, s1)
   }"

definition Echo :: "write_result \<Rightarrow> bool \<Rightarrow> isp \<Rightarrow> (int \<times> isp) option" where
  "Echo w state s = do {
     ((r, _), s1) \<leftarrow> SendCommand w False 256 (bytes_of (if state then ''A 1'' else ''A 0'')) (Some (bytes_of ''0'')) s;
     Some (if 0 \<le> r then (0, s1\<lparr>is_cfg := (is_cfg s1)\<lparr>echo := state\<rparr>\<rparr>) else (- 1, s1))
   }"

definition EnterISPMode :: "bool \<Rightarrow> isp \<Rightarrow> isp" where
  "EnterISPMode hold s =
     (let s1 = s\<lparr>is_cfg := (is_cfg s)\<lparr>echo := True\<rparr>\<rparr>;
          s2 = gpio_set (ispPin (is_cfg s1)) True s1;
          s3 = gpio_set (resetPin (is_cfg s2)) True s2;
          s4 = gpio_set (resetPin (is_cfg s3)) True s3
      in if \<not> hold then gpio_set (ispPin (is_cfg s4)) True s4 else s4)"

definition syncStr :: bytes where
  [model_simps]: "syncStr = bytes_of ''Synchronized''"

text \<open>Flushing drops nothing of the script, which says what the coming reads deliver.\<close>

fun sync_loop :: "write_result \<Rightarrow> int \<Rightarrow> nat \<Rightarrow> isp \<Rightarrow> (int \<times> isp) option" where
  "sync_loop w freq 0 s = Some (- 1, s)"
| "sync_loop w freq (Suc retry) s = do {
     let s1 = snd (WriteChar w (byte_of CHR ''?'') s);
     let (buffer, s2) = LPCISP_SERIAL_ReadBytes 256 s1;
     if take (length syncStr) buffer = syncStr
     then do {
       ((r, _), s3) \<leftarrow> SendCommand w False 256 syncStr (Some (bytes_of ''OK'')) s2;
       if 0 < r
       then do {
         ((r, _), s4) \<leftarrow> SendCommand w True 256 (fmt_int (freq div 1000)) (Some (bytes_of ''OK'')) s3;
         if 0 < r then Some (0, s4) else sync_loop w freq retry s4
       }
       else sync_loop w freq retry s3
     }
     else sync_loop w freq retry s2
   }"

definition Sync :: "write_result \<Rightarrow> int \<Rightarrow> nat \<Rightarrow> bool \<Rightarrow> isp \<Rightarrow> (int \<times> isp) option" where
  "Sync w freq retries hold s = sync_loop w freq (if retries \<noteq> 0 then retries else 1) (EnterISPMode hold s)"

text \<open>The commands printed into the buffer that also takes the response, expecting the answer 0.\<close>

definition buffer_command :: "write_result \<Rightarrow> bytes \<Rightarrow> isp \<Rightarrow> ((int \<times> bytes) \<times> isp) option" where
  "buffer_command w cmd s = SendCommand w True 256 cmd (Some (bytes_of ''0'')) s"

definition LPCISP_SetBaudRate :: "write_result \<Rightarrow> int \<Rightarrow> int \<Rightarrow> isp \<Rightarrow> (int \<times> isp) option" where
  "LPCISP_SetBaudRate w baud stop s = do {
     ((r, _), s1) \<leftarrow> buffer_command w (bytes_of ''B '' @ fmt_int baud @ bytes_of '' '' @ fmt_int stop) s;
     Some (if r = 1 then 1 else 0, s1)
   }"

section \<open>Identification\<close>

definition LPCISP_ReadPartID :: "write_result \<Rightarrow> isp \<Rightarrow> ((u32 \<times> u32) \<times> isp) option" where
  "LPCISP_ReadPartID w s = do {
     ((r, _), s1) \<leftarrow> SendCommand w False 256 (bytes_of ''J'') (Some (bytes_of ''0'')) s;
     if r \<noteq> 1 then Some ((- 1, 0), s1)
     else do {
       (l, s2) \<leftarrow> ReadString 256 s1;
       case l of
         None \<Rightarrow> Some ((- 1, 0), s2)
       | Some buffer \<Rightarrow>
           let pid = word_of_int (strtoll10 buffer) :: u32
           in if pid = 0 then Some ((- 1, 0), s2)
              else do {
                (l, s3) \<leftarrow> ReadString 256 s2;
                Some ((pid, case l of None \<Rightarrow> 0 | Some buffer \<Rightarrow> word_of_int (strtoll10 buffer)), s3)
              }
     }
   }"

fun read_uid :: "nat \<Rightarrow> u32 list \<Rightarrow> isp \<Rightarrow> ((nat \<times> u32 list) \<times> isp) option" where
  "read_uid 0 uid s = Some ((0, uid), s)"
| "read_uid (Suc n) uid s = do {
     (l, s1) \<leftarrow> ReadString 256 s;
     case l of
       None \<Rightarrow> Some ((Suc n, uid), s1)
     | Some buffer \<Rightarrow> read_uid n (uid[n := word_of_int (strtoll10 buffer)]) s1
   }"

text \<open>The four words arrive from \<open>uid[3]\<close> down; the words stay changed when one is missing.\<close>

definition LPCISP_ReadPartUID :: "write_result \<Rightarrow> u32 list \<Rightarrow> isp \<Rightarrow> ((int \<times> u32 list) \<times> isp) option" where
  "LPCISP_ReadPartUID w uid s = do {
     ((r, _), s1) \<leftarrow> SendCommand w False 256 (bytes_of ''N'') (Some (bytes_of ''0'')) s;
     if r \<noteq> 1 then Some ((- 1, uid), s1)
     else do {
       ((missing, uid1), s2) \<leftarrow> read_uid 4 uid s1;
       Some ((if missing = 0 then 0 else - 1, uid1), s2)
     }
   }"

text \<open>Major and minor version; a value is kept when its line does not come.\<close>

definition LPCISP_ReadBootCodeVersion ::
    "write_result \<Rightarrow> u8 \<times> u8 \<Rightarrow> isp \<Rightarrow> ((int \<times> u8 \<times> u8) \<times> isp) option" where
  "LPCISP_ReadBootCodeVersion w v s = do {
     ((r, _), s1) \<leftarrow> SendCommand w False 256 (bytes_of ''K'') (Some (bytes_of ''0'')) s;
     if r \<noteq> 1 then Some ((- 1, v), s1)
     else do {
       (l, s2) \<leftarrow> ReadString 256 s1;
       case l of
         None \<Rightarrow> Some ((- 1, v), s2)
       | Some b1 \<Rightarrow> do {
           let minor = word_of_int (strtol10 b1);
           (l, s3) \<leftarrow> ReadString 256 s2;
           case l of
             None \<Rightarrow> Some ((- 1, fst v, minor), s3)
           | Some b2 \<Rightarrow> Some ((0, word_of_int (strtol10 b2), minor), s3)
         }
     }
   }"

definition GetPartInfo :: "write_result \<Rightarrow> isp \<Rightarrow> ((int \<times> partinfo) \<times> isp) option" where
  "GetPartInfo w s = do {
     ((pid, id1), s1) \<leftarrow> LPCISP_ReadPartID w s;
     let p = partDefUnknown\<lparr>p_id := [pid, 0], p_id1 := id1, idIdx := 0\<rparr>;
     if pid = - 1 then Some ((- 1, p), s1)
     else do {
       let found = find_part pid id1 partDef;
       let p1 = (case found of None \<Rightarrow> p | Some q \<Rightarrow> q);
       (uid, s2) \<leftarrow>
         (if found \<noteq> None \<and> p_flags p1 AND HAS_UID \<noteq> 0
          then do { ((_, u), s2) \<leftarrow> LPCISP_ReadPartUID w (p_uid p1) s1; Some (u, s2) }
          else Some (p_uid p1, s1));
       ((_, major, minor), s3) \<leftarrow> LPCISP_ReadBootCodeVersion w (bootMajor p1, bootMinor p1) s2;
       Some ((0, p1\<lparr>p_uid := uid, bootMajor := major, bootMinor := minor\<rparr>), s3)
     }
   }"

section \<open>Attaching\<close>

datatype isp_err = ISP_ERR_NONE | ISP_ERR_BAUD | ISP_ERR_SYNC | ISP_ERR_COMM | ISP_ERR_INFO | ISP_ERR_UNKNOWN_DEV

definition LPCISP_SERIAL_ChangeBaudRate :: "int \<Rightarrow> int" where
  "LPCISP_SERIAL_ChangeBaudRate baud = 0"

definition LPCISP_Sync ::
    "write_result \<Rightarrow> int \<Rightarrow> int \<Rightarrow> nat \<Rightarrow> bool \<Rightarrow> bool \<Rightarrow> partinfo \<Rightarrow> isp \<Rightarrow> ((isp_err \<times> partinfo) \<times> isp) option" where
  "LPCISP_Sync w baud0 clock0 retries setecho hold p s = do {
     let s1 = s\<lparr>is_cfg := (is_cfg s)\<lparr>lineTermination := TERM_ANY\<rparr>\<rparr>;
     let baud = (if baud0 = 0 then 57600 else baud0);
     let clock = (if clock0 = 0 then 12000 else clock0);
     if LPCISP_SERIAL_ChangeBaudRate baud \<noteq> 0 then Some ((ISP_ERR_BAUD, p), s1)
     else do {
       (r, s2) \<leftarrow> Sync w (clock * 1000) retries hold s1;
       if r \<noteq> 0 then Some ((ISP_ERR_SYNC, p), s2)
       else do {
         (r, s3) \<leftarrow> Echo w setecho s2;
         if r \<noteq> 0 then Some ((ISP_ERR_COMM, p), s3)
         else do {
           ((r, p1), s4) \<leftarrow> GetPartInfo w s3;
           if r \<noteq> 0 then Some ((ISP_ERR_INFO, p1), s4)
           else do {
             let s5 = s4\<lparr>is_cfg := (is_cfg s4)\<lparr>lineTermination := p_flags p1 AND TERM_MASK\<rparr>\<rparr>;
             if numSectors p1 = 0 then Some ((ISP_ERR_UNKNOWN_DEV, p1), s5)
             else do {
               (r, s6) \<leftarrow> Unlock w s5;
               Some ((if r = 0 then ISP_ERR_NONE else ISP_ERR_COMM, p1), s6)
             }
           }
         }
       }
     }
   }"

end
