(* ===== verification/Isp_Flash.thy ===== *)
theory Isp_Flash
  imports Isp_Cmd
begin

text \<open>
  Memory of an NXP part through its boot loader: the second half of \<open>isp.c\<close>. Blocks go to the RAM as
  encoded lines with a checksum, and from there to the flash; sectors are prepared and erased;
  memory is read back and verified. Buffers the code reads from are the memory from the pointer on.
\<close>

declare Option.bind_cong [fundef_cong]

section \<open>Writing to the RAM\<close>

definition GetCheckSum :: "bytes \<Rightarrow> u32" where
  "GetCheckSum bs = fold (\<lambda>b cs. cs + ucast b) bs 0"

definition WriteRAMAddress :: "write_result \<Rightarrow> u32 \<Rightarrow> nat \<Rightarrow> isp \<Rightarrow> (int \<times> isp) option" where
  "WriteRAMAddress w addr count s =
     (if count mod 4 = 0
      then do {
        ((r, _), s1) \<leftarrow> buffer_command w (bytes_of ''W '' @ fmt_u32 addr @ bytes_of '' '' @ fmt_u32 (of_nat count)) s;
        Some (if r = 1 then 0 else - 1, s1)
      }
      else Some (- 1, s))"

text \<open>The lines of one block: whether one failed, and the checksum.\<close>

function ram_lines ::
    "write_result \<Rightarrow> bool \<Rightarrow> bytes \<Rightarrow> nat \<Rightarrow> u32 \<Rightarrow> isp \<Rightarrow> ((bool \<times> u32) \<times> isp) option" where
  "ram_lines w uu mem remaining cs s =
     (if remaining = 0 then Some ((False, cs), s)
      else let n = min remaining 45; cs1 = cs + GetCheckSum (take n mem)
           in if length mem < n then None
              else if uu
              then do {
                line \<leftarrow> uuencode mem n;
                (r, s1) \<leftarrow> SendCommandNoResponse w (cstr line) s;
                if r < 0 then Some ((True, cs1), s1) else ram_lines w uu (drop n mem) (remaining - n) cs1 s1
              }
              else let (ok, s1) = WriteBuffer w (take n mem) s
                   in if \<not> ok then Some ((True, cs1), s1)
                      else ram_lines w uu (drop n mem) (remaining - n) cs1 s1)"
  by auto
termination
  by (relation "measure (\<lambda>(w, uu, mem, remaining, cs, s). remaining)") auto

datatype ram_reply = Ram_OK | Ram_Resend | Ram_Silent

lemma ReadStringAny_consumes: "ReadStringAny cap acc rs = Some (Some l, rs1) \<Longrightarrow> length rs1 < length rs"
  by (induction cap acc rs rule: ReadStringAny.induct) (force split: if_splits)+

lemma ReadStringCRLF_consumes: "ReadStringCRLF cap t acc rs = Some (Some l, rs1) \<Longrightarrow> length rs1 < length rs"
  by (induction cap t acc rs rule: ReadStringCRLF.induct) (force split: if_splits)+

lemma ReadStringLF_consumes: "ReadStringLF cap acc rs = Some (Some l, rs1) \<Longrightarrow> length rs1 < length rs"
  by (induction cap acc rs rule: ReadStringLF.induct) (force split: if_splits)+

lemma ReadStringCR_consumes: "ReadStringCR cap acc rs = Some (Some l, rs1) \<Longrightarrow> length rs1 < length rs"
  by (induction cap acc rs rule: ReadStringCR.induct) (force split: if_splits)+

lemmas reader_consumes = ReadStringAny_consumes ReadStringCRLF_consumes ReadStringLF_consumes ReadStringCR_consumes

lemma ReadString_consumes:
  "ReadString cap s = Some (Some l, s1) \<Longrightarrow> length (rx (is_ser s1)) < length (rx (is_ser s))"
  by (auto simp: ReadString_def with_rx_def Let_def split: if_splits dest: reader_consumes)

text \<open>The loop that reads lines until one is an answer.\<close>

function ram_answer :: "isp \<Rightarrow> (ram_reply \<times> isp) option" where
  "ram_answer s =
     (case ReadString 64 s of
        None \<Rightarrow> None
      | Some (None, s1) \<Rightarrow> Some (Ram_Silent, s1)
      | Some (Some buffer, s1) \<Rightarrow>
          if take 2 buffer = bytes_of ''OK'' then Some (Ram_OK, s1)
          else if take 6 buffer = bytes_of ''RESEND'' then Some (Ram_Resend, s1)
          else ram_answer s1)"
  by pat_completeness auto
termination
  by (relation "measure (\<lambda>s. length (rx (is_ser s)))") (auto dest: ReadString_consumes)

declare ram_lines.simps [simp del] ram_answer.simps [simp del]

text \<open>The loop over the blocks. The address command precedes a block only when none of it was resent.\<close>

function ram_blocks ::
    "write_result \<Rightarrow> bool \<Rightarrow> u32 \<Rightarrow> nat \<Rightarrow> bytes \<Rightarrow> nat \<Rightarrow> isp \<Rightarrow> (bool \<times> isp) option" where
  "ram_blocks w uu addr len mem resend s =
     (if len = 0 \<or> resend = 0 then Some (False, s)
      else let n = min len 512
           in case (if resend = 5 then map_option (\<lambda>(r, s1). (r < 0, s1)) (WriteRAMAddress w addr n s)
                    else Some (False, s)) of
                None \<Rightarrow> None
              | Some (True, s1) \<Rightarrow> Some (True, s1)
              | Some (False, s1) \<Rightarrow>
                  (case ram_lines w uu mem n 0 s1 of
                     None \<Rightarrow> None
                   | Some ((True, _), s2) \<Rightarrow> Some (True, s2)
                   | Some ((False, cs), s2) \<Rightarrow>
                       if \<not> uu then ram_blocks w uu (addr + of_nat n) (len - n) (drop n mem) resend s2
                       else case SendCommandNoResponse w (fmt_u32 cs) s2 of
                              None \<Rightarrow> None
                            | Some (r, s3) \<Rightarrow>
                                if r < 0 then Some (True, s3)
                                else case ram_answer s3 of
                                       None \<Rightarrow> None
                                     | Some (Ram_Silent, s4) \<Rightarrow> Some (True, s4)
                                     | Some (Ram_OK, s4) \<Rightarrow>
                                         ram_blocks w uu (addr + of_nat n) (len - n) (drop n mem) 5 s4
                                     | Some (Ram_Resend, s4) \<Rightarrow>
                                         ram_blocks w uu addr len mem (resend - 1) s4))"
  by pat_completeness auto
termination
  by (relation "measures [\<lambda>(w, uu, addr, len, mem, resend, s). len, \<lambda>(w, uu, addr, len, mem, resend, s). resend]")
    auto

declare ram_blocks.simps [simp del]

definition is_uu :: "partinfo \<Rightarrow> bool" where
  [model_simps]: "is_uu p \<longleftrightarrow> p_flags p AND UUENCODE \<noteq> 0"

text \<open>Success is \<open>True\<close>; a misaligned request counts as one.\<close>

definition WriteToRAM :: "write_result \<Rightarrow> u32 \<Rightarrow> nat \<Rightarrow> bytes \<Rightarrow> partinfo \<Rightarrow> isp \<Rightarrow> (bool \<times> isp) option" where
  "WriteToRAM w addr len mem p s =
     (if addr AND 3 = 0 \<and> len mod 4 = 0
      then map_option (\<lambda>(fail, s1). (\<not> fail, s1)) (ram_blocks w (is_uu p) addr len mem 5 s)
      else Some (True, s))"

section \<open>Vector table and reset\<close>

definition store_le32 :: "u32 \<Rightarrow> bytes" where
  "store_le32 v = [ucast v, ucast (drop_bit 8 v), ucast (drop_bit 16 v), ucast (drop_bit 24 v)]"

definition LPCISP_FixVectorTable :: "bytes \<Rightarrow> bytes option" where
  "LPCISP_FixVectorTable mem =
     (if length mem < 32 then None
      else let cs = fold (\<lambda>i cs. cs + the (le32 mem (4 * i))) [0..<7] 0
           in Some (take 28 mem @ store_le32 (- cs) @ drop 32 mem))"

definition LPCISP_ResetTarget :: "isp \<Rightarrow> int" where
  "LPCISP_ResetTarget s = 0"

definition reset_code :: bytes where
  "reset_code = [0x72, 0xb6, 0x02, 0x4a, 0x02, 0x4b, 0x1a, 0x60, 0xfe, 0xe7, 0x00, 0x00,
     0x04, 0x00, 0xfa, 0x05, 0x0c, 0xed, 0x00, 0xe0]"

definition LPCISP_ExitISPMode :: "write_result \<Rightarrow> partinfo \<Rightarrow> isp \<Rightarrow> isp option" where
  "LPCISP_ExitISPMode w p s =
     (if LPCISP_ResetTarget s < 0
      then do {
        (ok, s1) \<leftarrow> WriteToRAM w (flashBlockRAMBase p) ((length reset_code + 3) div 4 * 4) reset_code p s;
        if ok
        then do {
          (_, s2) \<leftarrow> SendCommandNoResponse w (bytes_of ''G '' @ fmt_u32 (flashBlockRAMBase p) @ bytes_of '' T'') s1;
          Some s2
        }
        else Some s1
      }
      else Some s)"

section \<open>Sectors\<close>

text \<open>A bank number is sent only to a part with several banks.\<close>

definition sector_command :: "string \<Rightarrow> int \<Rightarrow> int \<Rightarrow> int \<Rightarrow> partinfo \<Rightarrow> bytes" where
  "sector_command letter lo_sec hi_sec bank p =
     bytes_of letter @ bytes_of '' '' @ fmt_int lo_sec @ bytes_of '' '' @ fmt_int hi_sec @
     (if 1 < numBanks p then bytes_of '' '' @ fmt_int bank else [])"

definition PrepareSectorsForWrite ::
    "write_result \<Rightarrow> int \<Rightarrow> int \<Rightarrow> int \<Rightarrow> partinfo \<Rightarrow> isp \<Rightarrow> (bool \<times> isp) option" where
  "PrepareSectorsForWrite w startSector endSector bank p s =
     (if startSector \<le> endSector
      then do {
        ((r, _), s1) \<leftarrow> buffer_command w (sector_command ''P'' startSector endSector bank p) s;
        Some (r = 1, s1)
      }
      else Some (False, s))"

definition LPCISP_CopyRAMtoFlash :: "write_result \<Rightarrow> u32 \<Rightarrow> u32 \<Rightarrow> nat \<Rightarrow> isp \<Rightarrow> (bool \<times> isp) option" where
  "LPCISP_CopyRAMtoFlash w src dest len s = do {
     ((r, _), s1) \<leftarrow> buffer_command w
       (bytes_of ''C '' @ fmt_u32 dest @ bytes_of '' '' @ fmt_u32 src @ bytes_of '' '' @ fmt_u32 (of_nat len)) s;
     Some (r = 1, s1)
   }"

definition LPCISP_Erase :: "write_result \<Rightarrow> int \<Rightarrow> int \<Rightarrow> int \<Rightarrow> partinfo \<Rightarrow> isp \<Rightarrow> (int \<times> isp) option" where
  "LPCISP_Erase w startSector endSector bank p s =
     (if 0 \<le> startSector \<and> startSector \<le> endSector
      then do {
        (ok, s1) \<leftarrow> PrepareSectorsForWrite w startSector endSector bank p s;
        if ok
        then do {
          ((r, _), s2) \<leftarrow> buffer_command w (sector_command ''E'' startSector endSector bank p) s1;
          Some (if r = 1 then 0 else - 1, s2)
        }
        else Some (- 1, s1)
      }
      else Some (- 1, s))"

definition RTN_SECTOR_NOT_BLANK :: int where [model_simps]: "RTN_SECTOR_NOT_BLANK = 8"

definition LPCISP_BlankCheck :: "write_result \<Rightarrow> int \<Rightarrow> int \<Rightarrow> isp \<Rightarrow> (int \<times> isp) option" where
  "LPCISP_BlankCheck w startSector endSector s =
     (if startSector \<le> endSector
      then do {
        ((r, resp), s1) \<leftarrow> buffer_command w
          (bytes_of ''I '' @ fmt_int startSector @ bytes_of '' '' @ fmt_int endSector) s;
        if r = 1 then Some (1, s1)
        else if r = 0 \<and> strtol10 resp = RTN_SECTOR_NOT_BLANK
        then do {
          (l, s2) \<leftarrow> ReadString 256 s1;
          if l = None then Some (- 1, s2) else do { (_, s3) \<leftarrow> ReadString 256 s2; Some (- 1, s3) }
        }
        else Some (- 1, s1)
      }
      else Some (- 1, s))"

section \<open>Reading and verifying\<close>

text \<open>
  The loop that reads back, with the bytes read so far, of which the buffer takes \<open>cap\<close>. A line that
  is shorter than its length character says is \<open>None\<close> (the code decodes what an earlier line left in
  the buffer), and so is a negative length.
\<close>

partial_function (option) read_blocks ::
    "write_result \<Rightarrow> bool \<Rightarrow> nat \<Rightarrow> u32 \<Rightarrow> bytes \<Rightarrow> u32 \<Rightarrow> nat \<Rightarrow> isp \<Rightarrow> ((int \<times> bytes) \<times> isp) option" where
  "read_blocks w uu cap count acc cs lineCnt s =
     (if count = 0 then Some ((- 1, acc), s)
      else if uu
      then case ReadString 256 s of
             None \<Rightarrow> None
           | Some (None, s1) \<Rightarrow> Some ((- 1, acc), s1)
           | Some (Some line, s1) \<Rightarrow>
               (case uudecode (line @ [0]) of
                  None \<Rightarrow> None
                | Some (n, bs) \<Rightarrow>
                    if n < 0 \<or> cap < length (acc @ bs) then None
                    else let cs1 = cs + GetCheckSum bs; count1 = count - of_int n; acc1 = acc @ bs
                         in if count1 = 0 \<or> lineCnt + 1 = 20
                            then case ReadString 256 s1 of
                                   None \<Rightarrow> None
                                 | Some (None, s2) \<Rightarrow> read_blocks w uu cap count1 acc1 cs1 (lineCnt + 1) s2
                                 | Some (Some l, s2) \<Rightarrow>
                                     if cs1 = word_of_int (strtol10 l)
                                     then case SendCommandNoResponse w (bytes_of ''OK'') s2 of
                                            None \<Rightarrow> None
                                          | Some (_, s3) \<Rightarrow>
                                              if count1 = 0 then Some ((0, acc1), s3)
                                              else read_blocks w uu cap count1 acc1 0 0 s3
                                     else Some ((- 1, acc1), s2)
                            else read_blocks w uu cap count1 acc1 cs1 (lineCnt + 1) s1)
      else let (bs, s1) = ReadBuffer (min 64 (unat count)) s
           in if cap < length (acc @ bs) then None
              else if bs = [] then Some ((- 1, acc), s1)
              else if count = of_nat (length bs) then Some ((0, acc @ bs), s1)
              else read_blocks w uu cap (count - of_nat (length bs)) (acc @ bs) cs lineCnt s1)"

definition LPCISP_ReadFromTarget ::
    "write_result \<Rightarrow> nat \<Rightarrow> u32 \<Rightarrow> u32 \<Rightarrow> partinfo \<Rightarrow> isp \<Rightarrow> ((int \<times> bytes) \<times> isp) option" where
  "LPCISP_ReadFromTarget w cap addr count p s = do {
     ((r, _), s1) \<leftarrow> buffer_command w (bytes_of ''R '' @ fmt_u32 addr @ bytes_of '' '' @ fmt_u32 count) s;
     if r = 1 then read_blocks w (is_uu p) cap count [] 0 0 s1 else Some ((- 1, []), s1)
   }"

text \<open>The part of the image a device cannot read back is skipped: offset, start and length.\<close>

definition verify_range :: "u8 \<Rightarrow> u32 \<Rightarrow> u32 \<Rightarrow> u32 \<times> u32 \<times> u32" where
  "verify_range flags start len =
     (let (off, start, len) = (if flags AND SKIP_0 \<noteq> 0 \<and> start = 0 then (4, 4, len - 4) else (0, start, len))
      in if flags AND VECT_REMAP64 \<noteq> 0 \<and> start < 64 then (64, 64, len - (64 - start))
         else if flags AND VECT_REMAP256 \<noteq> 0 \<and> start < 256 then (256, 256, len - (256 - start))
         else (off, start, len))"

partial_function (option) verify_loop ::
    "write_result \<Rightarrow> partinfo \<Rightarrow> bytes \<Rightarrow> u32 \<Rightarrow> u32 \<Rightarrow> u32 \<Rightarrow> u32 \<Rightarrow> isp \<Rightarrow> (bool \<times> isp) option" where
  "verify_loop w p data off start len addr s =
     (if addr < start + len
      then let left = len - (addr - start)
           in case LPCISP_ReadFromTarget w 256 addr (min ((left + 3) AND NOT 3) 256) p s of
                None \<Rightarrow> None
              | Some ((r, buf), s1) \<Rightarrow>
                  if r < 0 then Some (True, s1)
                  else let n = min (unat left) 256; d = drop (unat (off + addr - start)) data
                       in if length d < n \<or> length buf < n then None
                          else if take n buf \<noteq> take n d then Some (True, s1)
                          else verify_loop w p data off start len (addr + 256) s1
      else Some (False, s))"

definition LPCISP_VerifyFlash ::
    "write_result \<Rightarrow> bytes \<Rightarrow> u32 \<Rightarrow> u32 \<Rightarrow> partinfo \<Rightarrow> isp \<Rightarrow> (int \<times> isp) option" where
  "LPCISP_VerifyFlash w data start0 len0 p s =
     (let (off, start, len) = verify_range (p_flags p) start0 len0
      in map_option (\<lambda>(fail, s1). (if fail then - 1 else 0, s1)) (verify_loop w p data off start len start s))"

section \<open>Writing to the flash\<close>

text \<open>The percentage sent after a block, with 32-bit products.\<close>

definition write_percent :: "u32 \<Rightarrow> u32 \<Rightarrow> u8" where
  "write_percent tot len =
     (let percent = 50 + sint ((tot - len) * 50 div tot) in if 100 < percent then 100 else word_of_int percent)"

text \<open>
  \<open>slack\<close> is the memory behind the block buffer, \<open>extra\<close> whether the block of 0xFF is still to be
  written. The result is the flag \<open>fail\<close>.
\<close>

partial_function (option) flash_blocks ::
    "write_result \<Rightarrow> partinfo \<Rightarrow> bytes \<Rightarrow> nat \<Rightarrow> u32 \<Rightarrow> nat \<Rightarrow> bytes \<Rightarrow> bool \<Rightarrow> isp \<Rightarrow> (bool \<times> isp) option" where
  "flash_blocks w p slack tot addr len data extra s =
     (if len = 0 \<and> \<not> extra then Some (False, s)
      else let bs = flashBlockSize p; n = (if 0 < len then min len bs else bs);
               buf = (if 0 < len then take n data @ replicate (bs - n) 0xFF else replicate bs 0xFF);
               extra1 = (0 < len \<and> extra)
           in if 0 < len \<and> length data < n then None
              else case WriteToRAM w (flashBlockRAMBase p) ((bs + 3) div 4 * 4) (buf @ slack) p s of
                None \<Rightarrow> None
              | Some (ok, s1) \<Rightarrow>
                  if \<not> ok then Some (True, s1)
                  else case LPCISP_GetSectorAddr addr p of
                     None \<Rightarrow> None
                   | Some sector \<Rightarrow>
                       if sector < 0 then Some (True, s1)
                       else case PrepareSectorsForWrite w sector sector 0 p s1 of
                              None \<Rightarrow> None
                            | Some (ok, s2) \<Rightarrow>
                                if \<not> ok then Some (True, s2)
                                else case LPCISP_CopyRAMtoFlash w (flashBlockRAMBase p) addr bs s2 of
                                   None \<Rightarrow> None
                                 | Some (ok, s3) \<Rightarrow>
                                     if \<not> ok then Some (True, s3)
                                     else let len1 = (if 0 < len then len - n else len)
                                          in flash_blocks w p slack tot (addr + of_nat bs) len1
                                               (if 0 < len then drop n data else data) extra1
                                               (if 0 < tot
                                                then s3\<lparr>is_ble := is_ble s3 @ [(ACK_PROGRAM_START_PHONE_ESP32,
                                                       [write_percent (of_nat tot) (of_nat len1)])]\<rparr>
                                                else s3))"

definition LPCISP_WriteToFlash ::
    "write_result \<Rightarrow> bool \<Rightarrow> bytes \<Rightarrow> bytes \<Rightarrow> u32 \<Rightarrow> nat \<Rightarrow> partinfo \<Rightarrow> isp \<Rightarrow> (int \<times> isp) option" where
  "LPCISP_WriteToFlash w malloc_ok slack data addr len p s =
     (if malloc_ok
      then map_option (\<lambda>(fail, s1). (if fail then - 1 else 0, s1)) (flash_blocks w p slack len addr len data True s)
      else Some (0, s))"

end
