(* ===== verification/Isp_Spec.thy ===== *)
theory Isp_Spec
  imports Isp_Flash
begin

text \<open>
  What the NXP boot loader client achieves against a target: the blocks it writes to the RAM are the
  data, an identified part is one of the table, and the limits of the flash and of repeated blocks.
\<close>

section \<open>Answers of the target\<close>

text \<open>
  The script of answer lines, each ended by CR LF. With \<open>TERM_ANY\<close> a reader stops at the CR, so that a
  LF may be left at the front; every reader skips it.
\<close>

definition answer_script :: "bytes \<Rightarrow> bytes list \<Rightarrow> u8 option list" where
  "answer_script pre ls = map Some pre @ concat (map (\<lambda>l. map Some (l @ [CR, LF])) ls)"

definition text_line :: "bytes \<Rightarrow> bool" where
  "text_line l \<longleftrightarrow> l \<noteq> [] \<and> CR \<notin> set l \<and> LF \<notin> set l \<and> 0 \<notin> set l"

definition eol_rest :: "bytes \<Rightarrow> bool" where
  "eol_rest pre \<longleftrightarrow> set pre \<subseteq> {CR, LF}"

text \<open>An attached part without echo, whose lines end in any way.\<close>

definition attached :: "isp \<Rightarrow> bool" where
  "attached s \<longleftrightarrow> \<not> echo (is_cfg s) \<and> lineTermination (is_cfg s) = TERM_ANY"

lemma any_skip: "eol_rest pre \<Longrightarrow> ReadStringAny cap [] (map Some pre @ rs) = ReadStringAny cap [] rs"
  by (induction pre) (auto simp: eol_rest_def)

lemma any_line:
  assumes "CR \<notin> set l" "LF \<notin> set l" "length (acc @ l) < cap" "acc @ l \<noteq> []"
  shows "ReadStringAny cap acc (map Some (l @ [CR]) @ rs) = Some (Some (acc @ l), rs)"
  using assms
proof (induction l arbitrary: acc)
  case Nil
  then show ?case by simp
next
  case (Cons c l)
  then have "ReadStringAny cap (acc @ [c]) (map Some (l @ [CR]) @ rs) = Some (Some (acc @ c # l), rs)"
    using Cons.IH [of "acc @ [c]"] by simp
  with Cons.prems show ?case by auto
qed

lemma cstr_id: "0 \<notin> set l \<Longrightarrow> cstr l = l"
  by (induction l) (auto simp: cstr_def)

lemma cstr_terminated: "0 \<notin> set l \<Longrightarrow> cstr (l @ 0 # rest) = l"
  by (induction l) (auto simp: cstr_def)

lemma read_answer:
  assumes "attached s" "rx (is_ser s) = answer_script pre (l # ls)" "eol_rest pre" "text_line l" "length l < cap"
  shows "ReadString cap s = Some (Some l, with_rx s (answer_script [LF] ls))"
proof -
  have "ReadStringAny cap [] (rx (is_ser s)) = Some (Some l, answer_script [LF] ls)"
    using assms any_skip [OF assms(3)] any_line [of l "[]" cap "map Some [LF] @ concat (map (\<lambda>l. map Some (l @ [CR, LF])) ls)"]
    by (simp add: answer_script_def text_line_def)
  then show ?thesis
    using assms(1,4) by (simp add: ReadString_def attached_def model_simps text_line_def cstr_id)
qed

definition sent_lines :: "bytes list \<Rightarrow> isp \<Rightarrow> isp" where
  "sent_lines ls s = s\<lparr>is_ser := (is_ser s)\<lparr>tx := tx (is_ser s) @ map (\<lambda>l. l @ [CR, LF]) ls\<rparr>\<rparr>"

lemma sent_lines_simps [simp]:
  "sent_lines [] s = s" "sent_lines ms (sent_lines ls s) = sent_lines (ls @ ms) s"
  "rx (is_ser (sent_lines ls s)) = rx (is_ser s)" "is_cfg (sent_lines ls s) = is_cfg s"
  "attached (sent_lines ls s) = attached s" "attached (with_rx s rs) = attached s"
  "with_rx (sent_lines ls s) rs = sent_lines ls (with_rx s rs)" "with_rx (with_rx s rs) rs' = with_rx s rs'"
  "rx (is_ser (with_rx s rs)) = rs" "is_cfg (with_rx s rs) = is_cfg s"
  by (simp_all add: sent_lines_def with_rx_def attached_def)

lemma write_line:
  assumes "attached s" "0 \<notin> set l"
  shows "WriteString write_all (AddTermination l (is_cfg s)) s = (True, sent_lines [l] s)"
  using assms
  by (simp add: WriteString_def WriteBuffer_def AddTermination_def attached_def sent_lines_def cstr_id
      TERM_ANY_def TERM_CR_def TERM_LF_def CR_def LF_def byte_of_def)

lemma send_no_response:
  assumes "attached s" "0 \<notin> set l"
  shows "SendCommandNoResponse write_all l s = Some (0, sent_lines [l] s)"
  using assms write_line [OF assms] by (simp add: SendCommandNoResponse_def attached_def)

lemma send_command:
  assumes "attached s" "0 \<notin> set l" "rx (is_ser s) = answer_script pre (a # ls)" "eol_rest pre" "text_line a" "length a < cap"
  shows "SendCommand write_all alias cap l (Some m) s =
    Some ((if take (length m) a = m then 1 else 0, a), sent_lines [l] (with_rx s (answer_script [LF] ls)))"
proof -
  have "ReadString cap (sent_lines [l] s) = Some (Some a, sent_lines [l] (with_rx s (answer_script [LF] ls)))"
    using read_answer [of "sent_lines [l] s" pre a ls cap] assms by simp
  then show ?thesis
    using assms(1) write_line [OF assms(1,2)] by (simp add: SendCommand_def attached_def)
qed

section \<open>Numbers and literals on the line\<close>

lemma digit_byte: "k < 10 \<Longrightarrow> byte_of (digit_char k) = of_nat (48 + k)"
proof -
  assume k: "k < 10"
  have "byte_of (digit_char k) = (of_nat (of_char (char_of (48 + k) :: char)) :: u8)"
    using k by (simp only: byte_of_def digit_char_def of_nat_of_char if_True)
  with k show ?thesis by (simp only: of_char_of) simp
qed

lemma digit_text: "k < 10 \<Longrightarrow> byte_of (digit_char k) \<notin> {0, CR, LF}"
proof -
  assume k: "k < 10"
  then have "unat (byte_of (digit_char k)) = 48 + k"
    using unat_of_nat_small [of "48 + k", where ?'a = 8] by (simp add: digit_byte)
  then show ?thesis by (auto simp: CR_def LF_def byte_of_def)
qed

lemma dec_str_text: "b \<in> set (bytes_of (dec_str n)) \<Longrightarrow> b \<notin> {0, CR, LF}"
proof (induction n rule: dec_str.induct)
  case (1 n)
  then show ?case
    using digit_text [of n] digit_text [of "n mod 10"]
    by (subst (asm) (2) dec_str.simps) (auto simp: bytes_of_def split: if_splits)
qed

lemma fmt_int_text: "b \<in> set (fmt_int i) \<Longrightarrow> b \<notin> {0, CR, LF}"
  using dec_str_text [of b "nat \<bar>i\<bar>"]
  by (auto simp: fmt_int_def bytes_of_def byte_of_def CR_def LF_def split: if_splits)

lemma fmt_u32_text: "0 \<notin> set (fmt_u32 v)"
  using fmt_int_text [of 0 "sint v"] by (auto simp: fmt_u32_def)

lemma letters_text: "0 \<notin> set (bytes_of ''W '')" "0 \<notin> set (bytes_of '' '')"
  by (simp_all add: bytes_of_def byte_of_def)

definition ZERO :: bytes where "ZERO = bytes_of ''0''"
definition OKAY :: bytes where "OKAY = bytes_of ''OK''"
definition RESEND :: bytes where "RESEND = bytes_of ''RESEND''"

lemma reply_text [simp]: "text_line ZERO" "text_line OKAY" "text_line RESEND"
  by (simp_all add: text_line_def ZERO_def OKAY_def RESEND_def bytes_of_def byte_of_def CR_def LF_def)

lemma reply_length [simp]: "length ZERO = 1" "length OKAY = 2" "length RESEND = 6"
  by (simp_all add: ZERO_def OKAY_def RESEND_def)

lemma eol_rest_simps [simp]: "eol_rest []" "eol_rest [LF]"
  by (simp_all add: eol_rest_def)

section \<open>Blocks for the RAM\<close>

text \<open>What a target makes of the encoded lines.\<close>

fun decode_lines :: "bytes list \<Rightarrow> bytes option" where
  "decode_lines [] = Some []"
| "decode_lines (l # ls) =
     (case uudecode (l @ [0]) of None \<Rightarrow> None
      | Some (n, bs) \<Rightarrow> (if n = int (length bs) then map_option ((@) bs) (decode_lines ls) else None))"

definition address_line :: "u32 \<Rightarrow> nat \<Rightarrow> bytes" where
  "address_line addr n = bytes_of ''W '' @ fmt_u32 addr @ bytes_of '' '' @ fmt_u32 (of_nat n)"

text \<open>
  The lines that put data into the RAM from an address on: for each block of at most 512 bytes the
  address command, encoded lines of the block, and its checksum.
\<close>

inductive ram_log :: "u32 \<Rightarrow> bytes \<Rightarrow> bytes list \<Rightarrow> bool" where
  log_none: "ram_log addr [] []"
| log_block: "decode_lines ls = Some blk \<Longrightarrow> blk \<noteq> [] \<Longrightarrow> length blk = min (length (blk @ rest)) 512 \<Longrightarrow>
    ram_log (addr + of_nat (length blk)) rest log \<Longrightarrow>
    ram_log addr (blk @ rest) (address_line addr (length blk) # ls @ fmt_u32 (GetCheckSum blk) # log)"

lemma GetCheckSum_sum: "GetCheckSum bs = sum_list (map ucast bs)"
proof -
  have "fold (\<lambda>b cs. cs + ucast b) bs (c :: u32) = c + sum_list (map ucast bs)" for c
    by (induction bs arbitrary: c) (simp_all add: add.assoc)
  then show ?thesis by (simp add: GetCheckSum_def)
qed

lemma GetCheckSum_append: "GetCheckSum (as @ bs) = GetCheckSum as + GetCheckSum bs"
  by (simp add: GetCheckSum_sum)

lemma ram_lines_sent:
  assumes "attached s" "remaining + 2 \<le> length mem"
  shows "\<exists>ls. ram_lines write_all True mem remaining cs s =
      Some ((False, cs + GetCheckSum (take remaining mem)), sent_lines ls s) \<and>
    decode_lines ls = Some (take remaining mem)"
  using assms
proof (induction remaining arbitrary: mem cs s rule: less_induct)
  case (less remaining)
  show ?case
  proof (cases "remaining = 0")
    case True
    then show ?thesis by (intro exI [of _ "[]"]) (simp add: ram_lines.simps GetCheckSum_def)
  next
    case False
    let ?n = "min remaining 45"
    have "?n \<le> 3 * (length mem div 3)" using less.prems(2) by linarith
    moreover have "?n \<le> 223" by simp
    ultimately obtain l where l: "uuencode mem ?n = Some (l @ [0])" "0 \<notin> set l" "uudecode (l @ [0]) = Some (int ?n, take ?n mem)"
      using uuencode_line [of ?n mem] by blast
    let ?s = "sent_lines [l] s" and ?cs = "cs + GetCheckSum (take ?n mem)"
    have dec: "remaining - ?n < remaining" and len: "remaining - ?n + 2 \<le> length (drop ?n mem)"
      using False less.prems(2) by auto
    obtain ls where ls: "ram_lines write_all True (drop ?n mem) (remaining - ?n) ?cs ?s =
        Some ((False, ?cs + GetCheckSum (take (remaining - ?n) (drop ?n mem))), sent_lines ls ?s)"
      "decode_lines ls = Some (take (remaining - ?n) (drop ?n mem))"
      using less.IH [OF dec, of ?s "drop ?n mem" ?cs] less.prems(1) len by auto
    have split: "take remaining mem = take ?n mem @ take (remaining - ?n) (drop ?n mem)"
      using take_add [of ?n "remaining - ?n" mem] by simp
    have "ram_lines write_all True mem remaining cs s =
        Some ((False, cs + GetCheckSum (take remaining mem)), sent_lines (l # ls) s)"
      using False l ls(1) less.prems send_no_response [OF less.prems(1) l(2)]
      by (subst ram_lines.simps) (simp add: cstr_terminated Let_def split GetCheckSum_append add.assoc)
    moreover have "decode_lines (l # ls) = Some (take remaining mem)"
      using l(3) ls(2) less.prems(2) by (simp add: split)
    ultimately show ?thesis by blast
  qed
qed

lemma address_accepted:
  assumes "attached s" "rx (is_ser s) = answer_script pre (ZERO # ls)" "eol_rest pre" "n mod 4 = 0"
  shows "WriteRAMAddress write_all addr n s =
    Some (0, sent_lines [address_line addr n] (with_rx s (answer_script [LF] ls)))"
proof -
  have "0 \<notin> set (address_line addr n)"
    using fmt_u32_text letters_text by (simp add: address_line_def)
  note sc = send_command [OF assms(1) this assms(2,3) reply_text(1), of 256 True ZERO]
  from sc assms(4) show ?thesis by (simp add: WriteRAMAddress_def buffer_command_def address_line_def flip: ZERO_def)
qed

lemma reply_kind: "take 2 OKAY = bytes_of ''OK''" "take 2 RESEND \<noteq> bytes_of ''OK''" "take 6 RESEND = bytes_of ''RESEND''"
  by (simp_all add: OKAY_def RESEND_def bytes_of_def byte_of_def)

lemma answer_ok:
  assumes "attached s" "eol_rest pre" "rx (is_ser s) = answer_script pre (OKAY # ls)"
  shows "ram_answer s = Some (Ram_OK, with_rx s (answer_script [LF] ls))"
  using read_answer [OF assms(1,3,2), of 64] by (subst ram_answer.simps) (simp add: reply_kind)

lemma answer_resend:
  assumes "attached s" "eol_rest pre" "rx (is_ser s) = answer_script pre (RESEND # ls)"
  shows "ram_answer s = Some (Ram_Resend, with_rx s (answer_script [LF] ls))"
  using read_answer [OF assms(1,3,2), of 64] by (subst ram_answer.simps) (simp add: reply_kind)

text \<open>One block with its checksum, up to the answer of the target.\<close>

lemma block_sent:
  assumes "attached s" "n + 2 \<le> length mem"
  shows "\<exists>ls cs. ram_lines write_all True mem n 0 s = Some ((False, cs), sent_lines ls s) \<and>
    SendCommandNoResponse write_all (fmt_u32 cs) (sent_lines ls s) = Some (0, sent_lines (ls @ [fmt_u32 cs]) s) \<and>
    decode_lines ls = Some (take n mem) \<and> cs = GetCheckSum (take n mem)"
  using ram_lines_sent [OF assms, of 0] send_no_response [of "sent_lines ls s" "fmt_u32 (GetCheckSum (take n mem))" for ls]
    assms(1) fmt_u32_text by fastforce

definition block_count :: "nat \<Rightarrow> nat" where
  "block_count len = (len + 511) div 512"

lemma block_count_step: "0 < len \<Longrightarrow> block_count len = Suc (block_count (len - min len 512))"
proof (cases "512 \<le> len")
  case True
  then obtain m where "len = 512 + m" using le_Suc_ex by blast
  then show ?thesis by (simp add: block_count_def)
next
  case False
  assume "0 < len"
  with False have "(len + 511) div 512 = 1" by (intro div_nat_eqI) simp_all
  with False show ?thesis by (simp add: block_count_def)
qed

lemma ram_blocks_sent:
  assumes "attached s" "len + 2 \<le> length mem" "len mod 4 = 0" "eol_rest pre"
    and "rx (is_ser s) = answer_script pre (concat (replicate (block_count len) [ZERO, OKAY]) @ ls)"
  shows "\<exists>log pre'. ram_blocks write_all True addr len mem 5 s = Some (False, sent_lines log (with_rx s (answer_script pre' ls))) \<and>
    eol_rest pre' \<and> ram_log addr (take len mem) log"
  using assms
proof (induction len arbitrary: addr mem s pre rule: less_induct)
  case (less len)
  show ?case
  proof (cases "len = 0")
    case True
    with less.prems show ?thesis
      by (intro exI [of _ "[]"] exI [of _ pre]) (simp add: ram_blocks.simps block_count_def log_none with_rx_def)
  next
    case False
    let ?n = "min len 512"
    let ?ls = "concat (replicate (block_count (len - ?n)) [ZERO, OKAY]) @ ls"
    have rx: "rx (is_ser s) = answer_script pre (ZERO # OKAY # ?ls)"
      using less.prems(5) False by (simp add: block_count_step)
    have "?n mod 4 = 0" using less.prems(3) by (simp add: min_def)
    note ad = address_accepted [OF less.prems(1) rx less.prems(4) this, of addr]
    let ?s1 = "sent_lines [address_line addr ?n] (with_rx s (answer_script [LF] (OKAY # ?ls)))"
    have "?n + 2 \<le> length mem" "attached ?s1" using less.prems(1,2) by simp_all
    then obtain bl cs where bl: "ram_lines write_all True mem ?n 0 ?s1 = Some ((False, cs), sent_lines bl ?s1)"
      "SendCommandNoResponse write_all (fmt_u32 cs) (sent_lines bl ?s1) = Some (0, sent_lines (bl @ [fmt_u32 cs]) ?s1)"
      "decode_lines bl = Some (take ?n mem)" "cs = GetCheckSum (take ?n mem)"
      using block_sent [of ?s1 ?n mem] by blast
    let ?s2 = "sent_lines (bl @ [fmt_u32 cs]) ?s1"
    have ok: "ram_answer ?s2 = Some (Ram_OK, with_rx ?s2 (answer_script [LF] ?ls))"
      using answer_ok [of ?s2 "[LF]" ?ls] less.prems(1) by simp
    have step: "ram_blocks write_all True addr len mem 5 s =
        ram_blocks write_all True (addr + of_nat ?n) (len - ?n) (drop ?n mem) 5 (with_rx ?s2 (answer_script [LF] ?ls))"
      using False ad bl(1,2) ok by (subst ram_blocks.simps) (simp add: Let_def)
    have "(len - ?n) mod 4 = 0" unfolding min_def using less.prems(3) by presburger
    then have dec: "len - ?n < len" "len - ?n + 2 \<le> length (drop ?n mem)" "(len - ?n) mod 4 = 0"
      using False less.prems(2) by auto
    obtain log pre' where log: "ram_blocks write_all True (addr + of_nat ?n) (len - ?n) (drop ?n mem) 5
          (with_rx ?s2 (answer_script [LF] ?ls)) = Some (False, sent_lines log (with_rx (with_rx ?s2 (answer_script [LF] ?ls)) (answer_script pre' ls)))"
      "eol_rest pre'" "ram_log (addr + of_nat ?n) (take (len - ?n) (drop ?n mem)) log"
      using less.IH [OF dec(1), of "with_rx ?s2 (answer_script [LF] ?ls)" "drop ?n mem" "[LF]" "addr + of_nat ?n"] dec less.prems(1)
      by auto
    have lens: "length (take ?n mem) = ?n" "take ?n mem \<noteq> []" using less.prems(2) False by auto
    have "ram_log addr (take ?n mem @ take (len - ?n) (drop ?n mem))
        (address_line addr (length (take ?n mem)) # bl @ fmt_u32 (GetCheckSum (take ?n mem)) # log)"
      using bl(3) lens log(3) less.prems(2) by (intro log_block) auto
    moreover have "take len mem = take ?n mem @ take (len - ?n) (drop ?n mem)"
      using take_add [of ?n "len - ?n" mem] by simp
    ultimately show ?thesis using step log(1,2) bl(4) lens(1)
      by (intro exI [of _ "address_line addr ?n # bl @ fmt_u32 cs # log"] exI [of _ pre']) simp
  qed
qed

text \<open>A target that asks for a block again and again: the address command is not repeated.\<close>

lemma resend_loop:
  assumes "attached s" "0 < len" "len + 2 \<le> length mem" "eol_rest pre" "k < 5"
    and "rx (is_ser s) = answer_script pre (replicate k RESEND)"
  shows "\<exists>s'. ram_blocks write_all True addr len mem k s = Some (False, s')"
  using assms
proof (induction k arbitrary: s pre)
  case 0
  then show ?case by (simp add: ram_blocks.simps)
next
  case (Suc k)
  let ?n = "min len 512"
  have "?n + 2 \<le> length mem" using Suc.prems(3) by simp
  then obtain bl cs where bl: "ram_lines write_all True mem ?n 0 s = Some ((False, cs), sent_lines bl s)"
    "SendCommandNoResponse write_all (fmt_u32 cs) (sent_lines bl s) = Some (0, sent_lines (bl @ [fmt_u32 cs]) s)"
    using block_sent [OF Suc.prems(1)] by blast
  let ?s = "sent_lines (bl @ [fmt_u32 cs]) s"
  have "ram_answer ?s = Some (Ram_Resend, with_rx ?s (answer_script [LF] (replicate k RESEND)))"
    using answer_resend [of ?s pre "replicate k RESEND"] Suc.prems by simp
  then have "ram_blocks write_all True addr len mem (Suc k) s =
      ram_blocks write_all True addr len mem k (with_rx ?s (answer_script [LF] (replicate k RESEND)))"
    using Suc.prems(2,5) bl by (subst ram_blocks.simps) (simp add: Let_def)
  moreover have "\<exists>s'. ram_blocks write_all True addr len mem k (with_rx ?s (answer_script [LF] (replicate k RESEND))) = Some (False, s')"
    using Suc.prems by (intro Suc.IH [of _ "[LF]"]) simp_all
  ultimately show ?case by simp
qed

section \<open>The end of the flash\<close>

lemma flash_step:
  assumes "flash_blocks w p slack tot addr len data True s = Some (fail, s')" "len \<noteq> 0"
  shows "fail \<or> (\<exists>s4. flash_blocks w p slack tot (addr + of_nat (flashBlockSize p)) (len - min len (flashBlockSize p))
    (drop (min len (flashBlockSize p)) data) True s4 = Some (fail, s'))"
proof -
  let ?bs = "flashBlockSize p" and ?n = "min len (flashBlockSize p)"
  define W where "W = WriteToRAM w (flashBlockRAMBase p) ((?bs + 3) div 4 * 4)
    ((take ?n data @ replicate (?bs - ?n) 0xFF) @ slack) p s"
  define R where "R = (\<lambda>s3. flash_blocks w p slack tot (addr + of_nat ?bs) (len - ?n) (drop ?n data) True
    (if 0 < tot then s3\<lparr>is_ble := is_ble s3 @ [(ACK_PROGRAM_START_PHONE_ESP32,
       [write_percent (of_nat tot) (of_nat (len - ?n))])]\<rparr> else s3))"
  have "flash_blocks w p slack tot addr len data True s =
      (if length data < ?n then None
       else case W of None \<Rightarrow> None
         | Some (ok, s1) \<Rightarrow> if \<not> ok then Some (True, s1)
            else case LPCISP_GetSectorAddr addr p of None \<Rightarrow> None
              | Some sector \<Rightarrow> if sector < 0 then Some (True, s1)
                 else case PrepareSectorsForWrite w sector sector 0 p s1 of None \<Rightarrow> None
                   | Some (ok, s2) \<Rightarrow> if \<not> ok then Some (True, s2)
                      else case LPCISP_CopyRAMtoFlash w (flashBlockRAMBase p) addr ?bs s2 of None \<Rightarrow> None
                        | Some (ok, s3) \<Rightarrow> if \<not> ok then Some (True, s3) else R s3)"
    using assms(2) by (subst flash_blocks.simps) (simp add: W_def R_def Let_def cong: option.case_cong prod.case_cong if_cong)
  with assms(1) have "fail \<or> (\<exists>s3. R s3 = Some (fail, s'))"
    by (auto split: option.splits prod.splits if_splits)
  then show ?thesis by (auto simp: R_def)
qed

lemma flash_blocks_end:
  assumes "0 < flashBlockSize p"
    and "LPCISP_GetSectorAddr (addr + of_nat (flashBlockSize p * ((len + flashBlockSize p - 1) div flashBlockSize p))) p = Some (- 1)"
    and "flash_blocks w p slack tot addr len data True s = Some (fail, s')"
  shows "fail"
  using assms(2,3)
proof (induction len arbitrary: addr data s rule: less_induct)
  case (less len)
  let ?bs = "flashBlockSize p"
  show ?case
  proof (cases "len = 0")
    case True
    with less.prems assms(1) show ?thesis
      by (subst (asm) flash_blocks.simps) (auto simp: Let_def split: option.splits if_splits)
  next
    case False
    let ?n = "min len ?bs"
    have cnt: "(len + ?bs - 1) div ?bs = Suc ((len - ?n + ?bs - 1) div ?bs)"
    proof (cases "?bs \<le> len")
      case True
      then obtain m where "len = ?bs + m" using le_Suc_ex by blast
      moreover have "(m + ?bs + ?bs - 1) div ?bs = Suc ((m + ?bs - 1) div ?bs)"
        using assms(1) div_add_self2 [of ?bs "m + ?bs - 1"] by simp
      ultimately show ?thesis by (simp add: add.commute)
    next
      case False
      then have "(len + ?bs - 1) div ?bs = 1" using \<open>len \<noteq> 0\<close> assms(1) by (intro div_nat_eqI) simp_all
      then show ?thesis using False assms(1) by simp
    qed
    have ge: "LPCISP_GetSectorAddr (addr + of_nat ?bs + of_nat (?bs * ((len - ?n + ?bs - 1) div ?bs))) p = Some (- 1)"
      using less.prems(1) unfolding cnt by (simp add: add.assoc)
    from less.prems(2) False
    have "fail \<or> (\<exists>s4. flash_blocks w p slack tot (addr + of_nat ?bs) (len - ?n) (drop ?n data) True s4 = Some (fail, s'))"
      by (rule flash_step)
    then show ?thesis using less.IH [OF _ ge] False assms(1) by auto
  qed
qed

section \<open>Properties\<close>

text \<open>C26: Data reaches the RAM of the target. For an attached part that takes encoded data and answers each
  address command with 0 and each checksum with OK, \<open>WriteToRAM\<close> succeeds, and the lines it sends
  are, for every block of at most 512 bytes, the address command, lines that decode to exactly the
  bytes of the block, and the sum of these bytes.\<close>

theorem isp_ram_written:
  assumes "is_uu p" "attached s" "addr AND 3 = 0" "length data mod 4 = 0" "2 \<le> length slack"
    and "rx (is_ser s) = answer_script [] (concat (replicate (block_count (length data)) [ZERO, OKAY]))"
  shows "\<exists>log rs. WriteToRAM write_all addr (length data) (data @ slack) p s = Some (True, sent_lines log (with_rx s rs)) \<and>
    ram_log addr data log"
  using ram_blocks_sent [OF assms(2) _ assms(4), of "data @ slack" "[]" "[]" addr] assms by (auto simp: WriteToRAM_def)

text \<open>C27: A block that is never accepted counts as written. If the target accepts the address command and then
  asks five times for the block to be sent again, \<open>WriteToRAM\<close> reports success for any amount of
  data, although no block was accepted.\<close>

theorem isp_resend_exhausted:
  assumes "is_uu p" "attached s" "addr AND 3 = 0" "length data mod 4 = 0" "0 < length data" "2 \<le> length slack"
    and "rx (is_ser s) = answer_script [] (ZERO # replicate 5 RESEND)"
  shows "\<exists>s'. WriteToRAM write_all addr (length data) (data @ slack) p s = Some (True, s')"
proof -
  let ?n = "min (length data) 512" and ?mem = "data @ slack"
  have "?n mod 4 = 0" using assms(4) by (simp add: min_def)
  note ad = address_accepted [OF assms(2,7) _ this, of addr]
  let ?s1 = "sent_lines [address_line addr ?n] (with_rx s (answer_script [LF] (replicate 5 RESEND)))"
  have "?n + 2 \<le> length ?mem" "attached ?s1" using assms(2,6) by simp_all
  then obtain bl cs where bl: "ram_lines write_all True ?mem ?n 0 ?s1 = Some ((False, cs), sent_lines bl ?s1)"
    "SendCommandNoResponse write_all (fmt_u32 cs) (sent_lines bl ?s1) = Some (0, sent_lines (bl @ [fmt_u32 cs]) ?s1)"
    using block_sent [of ?s1 ?n ?mem] by blast
  let ?s2 = "sent_lines (bl @ [fmt_u32 cs]) ?s1"
  have "ram_answer ?s2 = Some (Ram_Resend, with_rx ?s2 (answer_script [LF] (replicate 4 RESEND)))"
    using answer_resend [of ?s2 "[LF]" "replicate 4 RESEND"] assms(2) by (simp add: numeral_eq_Suc)
  then have "ram_blocks write_all True addr (length data) ?mem 5 s =
      ram_blocks write_all True addr (length data) ?mem 4 (with_rx ?s2 (answer_script [LF] (replicate 4 RESEND)))"
    using ad bl assms(5) by (subst ram_blocks.simps) (simp add: Let_def)
  moreover have "\<exists>s'. ram_blocks write_all True addr (length data) ?mem 4
      (with_rx ?s2 (answer_script [LF] (replicate 4 RESEND))) = Some (False, s')"
    using assms by (intro resend_loop [of _ _ _ "[LF]"]) simp_all
  ultimately show ?thesis using assms(1,3,4) by (auto simp: WriteToRAM_def)
qed

section \<open>Witnesses\<close>

definition example_part :: partinfo where
  "example_part = part 0x1000 no_id no_id ''part'' 4 (Some sectorMap1k) 1 1024 256 0x10000300 UUENCODE"

definition example_isp :: "u8 option list \<Rightarrow> isp" where
  "example_isp rs = \<lparr>is_ser = \<lparr>rx = rs, tx = []\<rparr>,
     is_cfg = \<lparr>resetPin = 12, ispPin = 11, echo = False, lineTermination = TERM_ANY\<rparr>, is_gpio = [], is_ble = []\<rparr>"

lemma example_isp_simps [simp]: "attached (example_isp rs)" "rx (is_ser (example_isp rs)) = rs" "is_uu example_part"
  by (simp_all add: attached_def example_isp_def is_uu_def example_part_def part_def UUENCODE_def)

lemma isp_ram_written_witness:
  "\<exists>log rs. WriteToRAM write_all 0x10000300 4 (replicate 4 7 @ [0, 0]) example_part (example_isp (answer_script [] [ZERO, OKAY])) =
      Some (True, sent_lines log (with_rx (example_isp (answer_script [] [ZERO, OKAY])) rs)) \<and>
    ram_log 0x10000300 (replicate 4 7) log"
  using isp_ram_written [of example_part "example_isp (answer_script [] [ZERO, OKAY])" "0x10000300" "replicate 4 7" "[0, 0]"]
  by (simp add: block_count_def)

lemma isp_resend_exhausted_witness:
  "\<exists>s'. WriteToRAM write_all 0x10000300 4 (replicate 4 7 @ [0, 0]) example_part
     (example_isp (answer_script [] (ZERO # replicate 5 RESEND))) = Some (True, s')"
  using isp_resend_exhausted [of example_part "example_isp (answer_script [] (ZERO # replicate 5 RESEND))" "0x10000300" "replicate 4 7" "[0, 0]"]
  by simp

end
