(* ===== verification/Probe_Link.thy ===== *)
theory Probe_Link
  imports Serial_Io Can_Tms Ble_Cmd
begin

text \<open>
  Programming a target through a debug probe that speaks the GDB remote protocol on a serial line:
  transport, packets and session (\<open>probe_link/*.c\<close>) and the update (\<open>probe_link_update.c\<close>). The line is
  a script of what arrives and a log of what is sent; time passes only in reads that time out, in
  steps of the 50 ms of a read. Logs and the UART configuration are left out.
\<close>

section \<open>Transport\<close>

record probe =
  pl_open :: bool
  pl_ser :: serial

definition probe_link_transport_open :: "probe \<Rightarrow> esp_err \<times> probe" where
  "probe_link_transport_open s = (if pl_open s then (ESP_OK, s) else (ESP_OK, s\<lparr>pl_open := True\<rparr>))"

definition probe_link_transport_close :: "probe \<Rightarrow> probe" where
  "probe_link_transport_close s = (if \<not> pl_open s then s else s\<lparr>pl_open := False\<rparr>)"

definition probe_link_transport_send_packet :: "write_result \<Rightarrow> bytes \<Rightarrow> probe \<Rightarrow> esp_err \<times> probe" where
  "probe_link_transport_send_packet w buf s =
     (if \<not> pl_open s \<or> buf = [] then (ESP_ERR_INVALID_ARG, s)
      else let (written, ser) = serial_write w buf (pl_ser s)
           in (if written < 0 \<or> written \<noteq> int (length buf) then ESP_FAIL else ESP_OK, s\<lparr>pl_ser := ser\<rparr>))"

text \<open>\<open>uart_read_bytes\<close> waits for \<open>len\<close> bytes and returns fewer only at the time-out.\<close>

definition probe_link_transport_recv_packet :: "nat \<Rightarrow> probe \<Rightarrow> (esp_err \<times> bytes) \<times> probe" where
  "probe_link_transport_recv_packet len s =
     (if \<not> pl_open s \<or> len = 0 then ((ESP_ERR_INVALID_ARG, []), s)
      else let (bs, rs) = serial_read_bytes len (rx (pl_ser s))
           in ((if bs = [] then ESP_ERR_TIMEOUT else ESP_OK, bs), s\<lparr>pl_ser := (pl_ser s)\<lparr>rx := rs\<rparr>\<rparr>))"

section \<open>Packets\<close>

definition DOLLAR :: u8 where "DOLLAR = 0x24"
definition HASH :: u8 where "HASH = 0x23"
definition BRACE :: u8 where "BRACE = 0x7D"
definition PLUS :: u8 where "PLUS = 0x2B"
definition MINUS :: u8 where "MINUS = 0x2D"

lemmas probe_chars = DOLLAR_def HASH_def BRACE_def PLUS_def MINUS_def

definition probe_link_protocol_needs_escape :: "u8 \<Rightarrow> bool" where
  "probe_link_protocol_needs_escape ch \<longleftrightarrow> ch = DOLLAR \<or> ch = HASH \<or> ch = BRACE"

text \<open>A lower case hexadecimal digit, \<open>hex[n]\<close>.\<close>

definition hex_char :: "u8 \<Rightarrow> u8" where
  "hex_char n = (if n < 10 then 0x30 + n else 0x57 + n)"

definition hex_pair :: "u8 \<Rightarrow> bytes" where
  "hex_pair c = [hex_char (drop_bit 4 c AND 0x0F), hex_char (c AND 0x0F)]"

definition probe_link_protocol_make_packet :: "bytes \<Rightarrow> nat \<Rightarrow> esp_err + bytes" where
  "probe_link_protocol_make_packet payload out_size =
     (if out_size < 5 then Inl ESP_ERR_INVALID_ARG
      else if out_size < length payload + 4 then Inl ESP_ERR_NO_MEM
      else Inr (DOLLAR # payload @ HASH # hex_pair (fold (\<lambda>ch c. c + ch) payload 0)))"

fun packet_prefix :: "nat \<Rightarrow> bytes \<Rightarrow> bytes \<times> u8 \<Rightarrow> (bytes \<times> u8) option" where
  "packet_prefix out_size [] (out, csum) = Some (out, csum)"
| "packet_prefix out_size (ch # chs) (out, csum) =
     (if out_size \<le> length out + 1 then None else packet_prefix out_size chs (out @ [ch], csum + ch))"

fun packet_data :: "nat \<Rightarrow> bytes \<Rightarrow> bytes \<times> u8 \<Rightarrow> (bytes \<times> u8) option" where
  "packet_data out_size [] (out, csum) = Some (out, csum)"
| "packet_data out_size (ch # chs) (out, csum) =
     (if probe_link_protocol_needs_escape ch
      then if out_size \<le> length out + 2 then None
           else packet_data out_size chs (out @ [BRACE, ch XOR 0x20], csum + BRACE + (ch XOR 0x20))
      else if out_size \<le> length out + 1 then None
      else packet_data out_size chs (out @ [ch], csum + ch))"

definition probe_link_protocol_make_packet_binary :: "bytes \<Rightarrow> bytes \<Rightarrow> nat \<Rightarrow> esp_err + bytes" where
  "probe_link_protocol_make_packet_binary prefix data out_size =
     (if out_size < 8 then Inl ESP_ERR_INVALID_ARG
      else case packet_prefix out_size prefix ([DOLLAR], 0) of
             None \<Rightarrow> Inl ESP_ERR_NO_MEM
           | Some oc \<Rightarrow>
               (case packet_data out_size data oc of
                  None \<Rightarrow> Inl ESP_ERR_NO_MEM
                | Some (out, csum) \<Rightarrow>
                    if out_size \<le> length out + 3 then Inl ESP_ERR_NO_MEM
                    else Inr (out @ HASH # hex_pair csum)))"

definition probe_link_protocol_check_ack :: "bytes \<Rightarrow> esp_err \<times> bool" where
  "probe_link_protocol_check_ack buf =
     (case buf of [] \<Rightarrow> (ESP_ERR_INVALID_ARG, False)
      | c # _ \<Rightarrow> if c = PLUS then (ESP_OK, True) else if c = MINUS then (ESP_OK, False)
                else (ESP_ERR_INVALID_RESPONSE, False))"

section \<open>Requests and responses\<close>

definition probe_link_wait_ack :: "probe \<Rightarrow> esp_err \<times> probe" where
  "probe_link_wait_ack s =
     (let ((ret, ack_buf), s1) = probe_link_transport_recv_packet 8 s
      in if ret \<noteq> ESP_OK then (ret, s1)
         else let (ret, ack) = probe_link_protocol_check_ack ack_buf
              in (if ret \<noteq> ESP_OK \<or> \<not> ack then ESP_FAIL else ESP_OK, s1))"

text \<open>One character within 50 ms.\<close>

definition recv_char :: "probe \<Rightarrow> u8 option \<times> probe" where
  "recv_char s =
     (let ((ret, bs), s1) = probe_link_transport_recv_packet 1 s
      in (if ret \<noteq> ESP_OK then None else Some (hd bs), s1))"

lemma recv_char_length:
  "recv_char s = (r, s1) \<Longrightarrow> length (rx (pl_ser s1)) + (if r = None then 0 else 1) \<le> length (rx (pl_ser s))"
  by (cases "rx (pl_ser s)"; cases "hd (rx (pl_ser s))")
    (auto simp: recv_char_def probe_link_transport_recv_packet_def split: if_splits)

text \<open>The wait for the start of a response; \<open>left\<close> is the time left.\<close>

function wait_dollar :: "nat \<Rightarrow> probe \<Rightarrow> (bool \<times> nat) \<times> probe" where
  "wait_dollar left s =
     (if left = 0 then ((False, 0), s)
      else case recv_char s of
             (None, s1) \<Rightarrow> wait_dollar (left - 50) s1
           | (Some ch, s1) \<Rightarrow> if ch = DOLLAR then ((True, left), s1) else wait_dollar left s1)"
  by pat_completeness auto
termination
  by (relation "measures [\<lambda>(left, s). length (rx (pl_ser s)) + left]")
    (auto dest!: recv_char_length [OF sym])

text \<open>
  The payload up to the hash. The last character is remembered, since the code tests it once more
  when the time is over. The text read stands in the first component of a success.
\<close>

function read_payload :: "nat \<Rightarrow> u8 \<Rightarrow> bytes \<Rightarrow> nat \<Rightarrow> probe \<Rightarrow> (esp_err + bytes) \<times> probe" where
  "read_payload out_size ch out left s =
     (if left = 0 then (if ch \<noteq> HASH then Inl ESP_ERR_TIMEOUT else Inr out, s)
      else case recv_char s of
             (None, s1) \<Rightarrow> read_payload out_size ch out (left - 50) s1
           | (Some c, s1) \<Rightarrow>
               if c = HASH then (Inr out, s1)
               else if c = BRACE
               then case recv_char s1 of
                      (None, s2) \<Rightarrow> (Inl ESP_ERR_TIMEOUT, s2)
                    | (Some d, s2) \<Rightarrow>
                        if out_size \<le> length out + 1 then (Inl ESP_ERR_NO_MEM, s2)
                        else read_payload out_size (d XOR 0x20) (out @ [d XOR 0x20]) left s2
               else if out_size \<le> length out + 1 then (Inl ESP_ERR_NO_MEM, s1)
               else read_payload out_size c (out @ [c]) left s1)"
  by pat_completeness auto
termination
  by (relation "measures [\<lambda>(out_size, ch, out, left, s). length (rx (pl_ser s)) + left]")
    (auto dest!: recv_char_length [OF sym])

declare wait_dollar.simps [simp del] read_payload.simps [simp del]

text \<open>The checksum is read and not compared.\<close>

definition probe_link_read_response :: "write_result \<Rightarrow> nat \<Rightarrow> nat \<Rightarrow> probe \<Rightarrow> (esp_err + bytes) \<times> probe" where
  "probe_link_read_response w out_size timeout_ms s =
     (if out_size = 0 then (Inl ESP_ERR_INVALID_ARG, s)
      else let ((found, left), s1) = wait_dollar timeout_ms s
           in if \<not> found then (Inl ESP_ERR_TIMEOUT, s1)
              else case read_payload out_size DOLLAR [] left s1 of
                     (Inl e, s2) \<Rightarrow> (Inl e, s2)
                   | (Inr out, s2) \<Rightarrow>
                       (case recv_char s2 of
                          (None, s3) \<Rightarrow> (Inl ESP_ERR_TIMEOUT, s3)
                        | (Some _, s3) \<Rightarrow>
                            (case recv_char s3 of
                               (None, s4) \<Rightarrow> (Inl ESP_ERR_TIMEOUT, s4)
                             | (Some _, s4) \<Rightarrow> (Inr out, snd (probe_link_transport_send_packet w [PLUS] s4)))))"

definition PROBE_LINK_PACKET_MAX :: nat where [model_simps]: "PROBE_LINK_PACKET_MAX = 1024"

text \<open>Sending a packet and reading the response, for both kinds of command.\<close>

definition send_and_read ::
    "write_result \<Rightarrow> esp_err + bytes \<Rightarrow> nat \<Rightarrow> nat \<Rightarrow> probe \<Rightarrow> (esp_err + bytes) \<times> probe" where
  "send_and_read w pkt resp_size timeout_ms s =
     (case pkt of
        Inl e \<Rightarrow> (Inl e, s)
      | Inr packet \<Rightarrow>
          let (ret, s1) = probe_link_transport_send_packet w packet s
          in if ret \<noteq> ESP_OK then (Inl ret, s1)
             else let (ret, s2) = probe_link_wait_ack s1
                  in if ret \<noteq> ESP_OK then (Inl ret, s2)
                     else probe_link_read_response w resp_size timeout_ms s2)"

definition probe_link_send_text_cmd ::
    "write_result \<Rightarrow> bytes \<Rightarrow> nat \<Rightarrow> nat \<Rightarrow> probe \<Rightarrow> (esp_err + bytes) \<times> probe" where
  "probe_link_send_text_cmd w payload resp_size timeout_ms s =
     send_and_read w (probe_link_protocol_make_packet payload PROBE_LINK_PACKET_MAX) resp_size timeout_ms s"

definition probe_link_send_binary_cmd ::
    "write_result \<Rightarrow> bytes \<Rightarrow> bytes \<Rightarrow> nat \<Rightarrow> nat \<Rightarrow> probe \<Rightarrow> (esp_err + bytes) \<times> probe" where
  "probe_link_send_binary_cmd w prefix data resp_size timeout_ms s =
     send_and_read w (probe_link_protocol_make_packet_binary prefix data PROBE_LINK_PACKET_MAX) resp_size timeout_ms s"

section \<open>Session\<close>

datatype probe_iface = PROBE_LINK_IFACE_SWD | PROBE_LINK_IFACE_JTAG

record probe_session_cfg =
  iface :: probe_iface
  target_index :: int
  reset_after :: bool

text \<open>The session has its own copy of the response reader, and packets of at most 512 bytes.\<close>

definition session_read_response :: "write_result \<Rightarrow> nat \<Rightarrow> nat \<Rightarrow> probe \<Rightarrow> (esp_err + bytes) \<times> probe" where
  "session_read_response w out_size timeout_ms s = probe_link_read_response w out_size timeout_ms s"

definition probe_link_send_raw :: "write_result \<Rightarrow> bytes \<Rightarrow> nat \<Rightarrow> nat \<Rightarrow> probe \<Rightarrow> esp_err \<times> probe" where
  "probe_link_send_raw w payload resp_size timeout_ms s =
     (case probe_link_protocol_make_packet payload 512 of
        Inl e \<Rightarrow> (e, s)
      | Inr packet \<Rightarrow>
          let (ret, s1) = probe_link_transport_send_packet w packet s
          in if ret \<noteq> ESP_OK then (ret, s1)
             else let ((ret, ack_buf), s2) = probe_link_transport_recv_packet 8 s1
                  in if ret \<noteq> ESP_OK then (ret, s2)
                     else let (ret, ack) = probe_link_protocol_check_ack ack_buf
                          in if ret \<noteq> ESP_OK \<or> \<not> ack then (ESP_FAIL, s2)
                             else if resp_size = 0 then (ESP_OK, s2)
                             else (case session_read_response w resp_size timeout_ms s2 of
                                     (Inl e, s3) \<Rightarrow> (e, s3) | (Inr _, s3) \<Rightarrow> (ESP_OK, s3)))"

text \<open>A signed number as \<open>%d\<close> prints it.\<close>

definition dec_int :: "int \<Rightarrow> string" where
  "dec_int i = (if i < 0 then ''-'' else []) @ dec_str (nat \<bar>i\<bar>)"

definition attach_cmd :: "nat \<Rightarrow> int \<Rightarrow> bytes" where
  "attach_cmd n i = bytes_of (c_copy n (''vAttach;'' @ dec_int i))"

definition probe_link_session_run :: "write_result \<Rightarrow> probe_session_cfg \<Rightarrow> probe \<Rightarrow> esp_err \<times> probe" where
  "probe_link_session_run w cfg s =
     (let (ret, s) = probe_link_transport_open s
      in if ret \<noteq> ESP_OK then (ret, s)
         else let s = snd (probe_link_send_raw w (bytes_of ''qSupported'') 256 200 s);
                  scan_cmd = bytes_of (if iface cfg = PROBE_LINK_IFACE_JTAG
                    then ''qRcmd,6a7461675f7363616e'' else ''qRcmd,737764705f7363616e'');
                  (ret, s) = probe_link_send_raw w scan_cmd 256 500 s
              in if ret \<noteq> ESP_OK then (ret, probe_link_transport_close s)
                 else let (ret, s) = (if 0 < target_index cfg
                            then probe_link_send_raw w (attach_cmd 64 (target_index cfg)) 256 500 s else (ESP_OK, s))
                      in if ret \<noteq> ESP_OK then (ret, probe_link_transport_close s)
                         else let (ret, s) = (if reset_after cfg
                                    then probe_link_send_raw w (bytes_of ''qRcmd,7265736574'') 256 500 s else (ESP_OK, s))
                              in (if ret \<noteq> ESP_OK then ret else ESP_OK, probe_link_transport_close s))"

section \<open>Update\<close>

record probe_meta_cfg =
  pm_session :: probe_session_cfg
  dry_run :: bool
  do_erase :: bool
  base_addr :: u32

definition probe_link_parse_u32 :: "string \<Rightarrow> u32" where
  "probe_link_parse_u32 text = strtoul0 (dropWhile isspace text)"

text \<open>A number is not negative here; the \<open>valueint\<close> of a larger one is \<open>INT_MAX\<close>.\<close>

definition probe_link_parse_meta :: "fw_env \<Rightarrow> fw_meta \<Rightarrow> probe_meta_cfg \<Rightarrow> probe_meta_cfg" where
  "probe_link_parse_meta env m cfg0 =
     (let cfg = cfg0\<lparr>dry_run := True, do_erase := True, base_addr := 0x08000000\<rparr>
      in if fm_meta_json m = [] then cfg
         else case e_json_parse env (bytes_of (fm_meta_json m)) of
                None \<Rightarrow> cfg
              | Some root \<Rightarrow>
                  let cfg = (case root ''probe_dry_run'' of Some (JBool b) \<Rightarrow> cfg\<lparr>dry_run := b\<rparr> | _ \<Rightarrow> cfg);
                      cfg = (case root ''probe_target'' of
                               Some (JNum n) \<Rightarrow> cfg\<lparr>pm_session := (pm_session cfg)\<lparr>target_index := min (int n) (2 ^ 31 - 1)\<rparr>\<rparr> | _ \<Rightarrow> cfg);
                      cfg = (case root ''probe_reset'' of
                               Some (JBool b) \<Rightarrow> cfg\<lparr>pm_session := (pm_session cfg)\<lparr>reset_after := b\<rparr>\<rparr> | _ \<Rightarrow> cfg);
                      cfg = (case root ''probe_erase'' of Some (JBool b) \<Rightarrow> cfg\<lparr>do_erase := b\<rparr> | _ \<Rightarrow> cfg)
                  in (case root ''probe_addr'' of
                        Some (JNum n) \<Rightarrow> cfg\<lparr>base_addr := of_nat n\<rparr>
                      | Some (JStr t) \<Rightarrow> cfg\<lparr>base_addr := probe_link_parse_u32 t\<rparr>
                      | _ \<Rightarrow> cfg))"

fun hex_encode_loop :: "nat \<Rightarrow> bytes \<Rightarrow> bytes \<Rightarrow> bytes" where
  "hex_encode_loop out_size out [] = out"
| "hex_encode_loop out_size out (ch # chs) =
     (if length out + 2 < out_size then hex_encode_loop out_size (out @ hex_pair ch) chs else out)"

definition probe_link_hex_encode :: "bytes \<Rightarrow> nat \<Rightarrow> bytes" where
  "probe_link_hex_encode text out_size = hex_encode_loop out_size [] (cstr text)"

text \<open>\<open>snprintf\<close> into the command buffer of 96 bytes.\<close>

definition cmd_buf :: "bytes \<Rightarrow> bytes" where
  "cmd_buf bs = take 95 bs"

definition hex8 :: "u32 \<Rightarrow> bytes" where
  "hex8 v = bytes_of (hex_digits 8 (unat v))"

text \<open>Counters and their product with 100 are 32 bits wide.\<close>

definition read_progress :: "nat \<Rightarrow> nat \<Rightarrow> fw_sys \<Rightarrow> fw_sys" where
  "read_progress total_read tot s =
     (if 0 < tot then set_progress (ucast ((of_nat total_read * 100 :: u32) div of_nat tot)) s else s)"

partial_function (option) probe_dry_loop ::
    "fw_env \<Rightarrow> fw_storage_reader \<Rightarrow> nat \<Rightarrow> nat \<Rightarrow> fw_sys \<Rightarrow> fw_sys option" where
  "probe_dry_loop env r tot total_read sys =
     (let (buf, r1) = fw_storage_reader_read env r 1024
      in if buf = [] then Some sys
         else probe_dry_loop env r1 tot (total_read + length buf) (read_progress (total_read + length buf) tot sys))"

partial_function (option) probe_write_loop ::
    "write_result \<Rightarrow> fw_env \<Rightarrow> fw_storage_reader \<Rightarrow> u32 \<Rightarrow> nat \<Rightarrow> nat \<Rightarrow> probe \<Rightarrow> fw_sys \<Rightarrow>
     (esp_err \<times> probe \<times> fw_sys) option" where
  "probe_write_loop w env r addr tot total_read s sys =
     (let (buf, r1) = fw_storage_reader_read env r 256
      in if buf = [] then Some (ESP_OK, s, sys)
         else case probe_link_send_binary_cmd w (cmd_buf (bytes_of ''vFlashWrite:'' @ hex8 addr @ bytes_of '':'')) buf 128 2000 s of
                (Inl e, s1) \<Rightarrow> Some (ESP_FAIL, s1, sys)
              | (Inr resp, s1) \<Rightarrow>
                  if take 2 resp \<noteq> bytes_of ''OK'' then Some (ESP_FAIL, s1, sys)
                  else probe_write_loop w env r1 (addr + of_nat (length buf)) tot (total_read + length buf) s1
                         (read_progress (total_read + length buf) tot sys))"

text \<open>An error of a step: the message, the closed line, and the result.\<close>

definition probe_fail :: "string \<Rightarrow> esp_err \<Rightarrow> probe \<Rightarrow> fw_sys \<Rightarrow> (esp_err \<times> probe \<times> fw_sys) option" where
  "probe_fail msg e s sys = Some (e, probe_link_transport_close s, set_step FW_STEP_ERROR msg sys)"

definition probe_program ::
    "write_result \<Rightarrow> fw_env \<Rightarrow> probe_meta_cfg \<Rightarrow> fw_storage_reader \<Rightarrow> probe \<Rightarrow> fw_sys \<Rightarrow>
     (esp_err \<times> probe \<times> fw_sys) option" where
  "probe_program w env cfg r s sys =
     (let tot = fm_original_size (r_meta r);
          (ret, s) = probe_link_transport_open s
      in if ret \<noteq> ESP_OK then Some (ret, s, set_step FW_STEP_ERROR ''probe link uart open fail'' sys)
         else let s = snd (probe_link_send_text_cmd w (bytes_of ''qSupported'') 128 500 s);
                  scan = probe_link_hex_encode (bytes_of (if iface (pm_session cfg) = PROBE_LINK_IFACE_JTAG
                           then ''jtag_scan'' else ''swdp_scan'')) 64
         in case probe_link_send_text_cmd w (cmd_buf (bytes_of ''qRcmd,'' @ scan)) 128 1000 s of
              (Inl e, s) \<Rightarrow> probe_fail ''probe link scan fail'' e s sys
            | (Inr _, s) \<Rightarrow>
         (case probe_link_send_text_cmd w (attach_cmd 96 (target_index (pm_session cfg))) 128 1000 s of
            (Inl e, s) \<Rightarrow> probe_fail ''probe link attach fail'' e s sys
          | (Inr _, s) \<Rightarrow>
         (case (if do_erase cfg
                then probe_link_send_text_cmd w (cmd_buf (bytes_of ''vFlashErase:'' @ hex8 (base_addr cfg) @
                       bytes_of '','' @ hex8 (of_nat tot))) 128 2000 s
                else (Inr [], s)) of
            (Inl e, s) \<Rightarrow> probe_fail ''probe link erase fail'' e s sys
          | (Inr _, s) \<Rightarrow>
         (case probe_write_loop w env r (base_addr cfg) tot 0 s sys of
            None \<Rightarrow> None
          | Some (ret, s, sys) \<Rightarrow>
              if ret \<noteq> ESP_OK then probe_fail ''probe link write fail'' ESP_FAIL s sys
              else case probe_link_send_text_cmd w (bytes_of ''vFlashDone'') 128 2000 s of
                     (Inl e, s) \<Rightarrow> probe_fail ''probe link done fail'' ESP_FAIL s sys
                   | (Inr resp, s) \<Rightarrow>
                       if take 2 resp \<noteq> bytes_of ''OK'' then probe_fail ''probe link done fail'' ESP_FAIL s sys
                       else let s = (if reset_after (pm_session cfg)
                                     then snd (probe_link_send_text_cmd w (cmd_buf (bytes_of ''qRcmd,'' @
                                            probe_link_hex_encode (bytes_of ''reset'') 64)) 128 1000 s)
                                     else s)
                            in Some (ESP_OK, probe_link_transport_close s,
                                     set_progress 100 (set_step FW_STEP_DONE ''probe link done'' sys))))))"

definition probe_link_update_from_reader ::
    "write_result \<Rightarrow> fw_env \<Rightarrow> fw_meta \<Rightarrow> fw_storage_reader \<Rightarrow> probe \<Rightarrow> fw_sys \<Rightarrow>
     (esp_err \<times> probe \<times> fw_sys) option" where
  "probe_link_update_from_reader w env m r s sys0 =
     (let sys = set_progress 0 (set_step FW_STEP_PREPARE ''probe link prepare'' sys0);
          cfg = probe_link_parse_meta env m
            \<lparr>pm_session = \<lparr>iface = (if fm_exec m = FW_EXEC_JTAG then PROBE_LINK_IFACE_JTAG else PROBE_LINK_IFACE_SWD),
                           target_index = 1, reset_after = False\<rparr>,
             dry_run = False, do_erase = False, base_addr = 0\<rparr>
      in if dry_run cfg
         then map_option (\<lambda>sys. (ESP_OK, s, set_progress 100 (set_step FW_STEP_DONE ''probe link dry-run done'' sys)))
                (probe_dry_loop env r (fm_original_size (r_meta r)) 0 (set_step FW_STEP_WRITE ''probe link dry-run'' sys))
         else probe_program w env cfg r s (set_step FW_STEP_WRITE ''probe link write'' sys))"


section \<open>A packet comes back through the response reader\<close>

lemma recv_char_Some [simp]:
  "pl_open s \<Longrightarrow> rx (pl_ser s) = Some c # rs \<Longrightarrow> recv_char s = (Some c, s\<lparr>pl_ser := (pl_ser s)\<lparr>rx := rs\<rparr>\<rparr>)"
  by (simp add: recv_char_def probe_link_transport_recv_packet_def Let_def)

lemma escaped_not_hash: "probe_link_protocol_needs_escape c \<Longrightarrow> c XOR 0x20 \<noteq> HASH"
  "probe_link_protocol_needs_escape c \<Longrightarrow> (c XOR 0x20) XOR 0x20 = c"
  by (auto simp: probe_link_protocol_needs_escape_def probe_chars)

text \<open>What the packet maker writes for the data, as a list.\<close>

definition escape :: "bytes \<Rightarrow> bytes" where
  "escape data = concat (map (\<lambda>c. if probe_link_protocol_needs_escape c then [BRACE, c XOR 0x20] else [c]) data)"

lemma packet_prefix_out:
  "packet_prefix n p (out, csum) = Some (out1, csum1) \<Longrightarrow> out1 = out @ p"
  by (induction p arbitrary: out csum) (fastforce split: if_splits)+

lemma packet_data_out:
  "packet_data n d (out, csum) = Some (out1, csum1) \<Longrightarrow> out1 = out @ escape d"
  by (induction d arbitrary: out csum) (fastforce simp: escape_def split: if_splits)+

lemma make_packet_binary_form:
  assumes "probe_link_protocol_make_packet_binary prefix data n = Inr pkt"
  obtains csum where "pkt = DOLLAR # prefix @ escape data @ HASH # hex_pair csum"
  using assms packet_prefix_out packet_data_out
  by (fastforce simp: probe_link_protocol_make_packet_binary_def split: if_splits option.splits)

lemma escape_simps [simp]:
  "escape [] = []"
  "escape (c # d) = (if probe_link_protocol_needs_escape c then [BRACE, c XOR 0x20] else [c]) @ escape d"
  by (auto simp: escape_def)

lemma read_payload_escape:
  assumes "0 < left" "pl_open s" "length out + length data < n"
    "rx (pl_ser s) = map Some (escape data) @ Some HASH # rs"
  shows "read_payload n ch out left s = (Inr (out @ data), s\<lparr>pl_ser := (pl_ser s)\<lparr>rx := rs\<rparr>\<rparr>)"
  using assms
proof (induction data arbitrary: ch out s)
  case Nil
  then show ?case by (subst read_payload.simps) simp
next
  case (Cons c data)
  show ?case
  proof (cases "probe_link_protocol_needs_escape c")
    case True
    then show ?thesis using Cons.prems escaped_not_hash [OF True]
      by (subst read_payload.simps) (simp add: Cons.IH probe_chars)
  next
    case False
    then have "c \<noteq> HASH" "c \<noteq> BRACE" by (auto simp: probe_link_protocol_needs_escape_def)
    then show ?thesis using Cons.prems False by (subst read_payload.simps) (simp add: Cons.IH)
  qed
qed

lemma escape_plain: "list_all (\<lambda>c. \<not> probe_link_protocol_needs_escape c) p \<Longrightarrow> escape p = p"
  by (induction p) auto

lemma escape_append [simp]: "escape (p @ d) = escape p @ escape d"
  by (induction p) auto

text \<open>C28: A binary command packet, built from a prefix that needs no escape and any data (quoted where
  it must be), is read back exactly by the response reader on the same line: it delivers prefix and
  data unescaped, leaves the rest of the line untouched and sends one acknowledgement, whenever the
  buffer has room for the text and its end and the time-out is not 0.
\<close>

theorem probe_packet_roundtrip:
  assumes "probe_link_protocol_make_packet_binary prefix data n = Inr pkt"
    and "list_all (\<lambda>c. \<not> probe_link_protocol_needs_escape c) prefix"
    and "length prefix + length data < out_size" "0 < timeout_ms"
    and "pl_open s" "rx (pl_ser s) = map Some pkt @ rs"
  shows "probe_link_read_response w out_size timeout_ms s =
           (Inr (prefix @ data), s\<lparr>pl_ser := \<lparr>rx = rs, tx = tx (pl_ser s) @ [[PLUS]]\<rparr>\<rparr>)"
proof -
  obtain csum where pkt: "pkt = DOLLAR # prefix @ escape data @ HASH # hex_pair csum"
    using make_packet_binary_form [OF assms(1)] .
  define s1 where "s1 = s\<lparr>pl_ser := (pl_ser s)\<lparr>rx := map Some (escape (prefix @ data)) @ Some HASH #
                            map Some (hex_pair csum) @ rs\<rparr>\<rparr>"
  have "wait_dollar timeout_ms s = ((True, timeout_ms), s1)"
    using assms pkt by (subst wait_dollar.simps) (simp add: s1_def escape_plain)
  moreover have "read_payload out_size DOLLAR [] timeout_ms s1 =
      (Inr (prefix @ data), s1\<lparr>pl_ser := (pl_ser s1)\<lparr>rx := map Some (hex_pair csum) @ rs\<rparr>\<rparr>)"
    using assms(3,4,5) by (subst read_payload_escape) (auto simp: s1_def)
  ultimately show ?thesis using assms(3,5)
    by (auto simp: probe_link_read_response_def s1_def hex_pair_def probe_link_transport_send_packet_def
        serial_write_def Let_def)
qed

lemma probe_packet_roundtrip_witness:
  "probe_link_read_response write_all 128 2000
     \<lparr>pl_open = True, pl_ser = \<lparr>rx = map Some ([0x24, 0x76, 0x3A, 0x7D, 0x03, 0x01, 0x23, 0x33, 0x31] :: bytes) @ [], tx = []\<rparr>\<rparr> =
   (Inr [0x76, 0x3A, 0x23, 0x01],
    \<lparr>pl_open = True, pl_ser = \<lparr>rx = map Some ([0x24, 0x76, 0x3A, 0x7D, 0x03, 0x01, 0x23, 0x33, 0x31] :: bytes) @ [], tx = []\<rparr>\<rparr>
      \<lparr>pl_ser := \<lparr>rx = [], tx = tx \<lparr>rx = [], tx = []\<rparr> @ [[PLUS]]\<rparr>\<rparr>)"
  using probe_packet_roundtrip [of "[0x76, 0x3A]" "[0x23, 0x01]" 100
      "[0x24, 0x76, 0x3A, 0x7D, 0x03, 0x01, 0x23, 0x33, 0x31]" 128 2000
      "\<lparr>pl_open = True, pl_ser = \<lparr>rx = map Some [0x24, 0x76, 0x3A, 0x7D, 0x03, 0x01, 0x23, 0x33, 0x31] @ [], tx = []\<rparr>\<rparr>" "[]" write_all]
  by (simp add: probe_link_protocol_make_packet_binary_def probe_link_protocol_needs_escape_def probe_chars
      hex_pair_def hex_char_def)

section \<open>A prompt answer is taken for the acknowledgement\<close>

lemma read_bytes_all:
  "length bs \<le> n \<Longrightarrow> serial_read_bytes n (map Some bs) = (bs, [])"
proof (induction bs arbitrary: n)
  case Nil
  then show ?case by (cases n) auto
next
  case (Cons b bs)
  then show ?case by (cases n) auto
qed

lemma wait_dollar_silent:
  "pl_open s \<Longrightarrow> rx (pl_ser s) = [] \<Longrightarrow> wait_dollar left s = ((False, 0), s)"
proof (induction left arbitrary: s rule: less_induct)
  case (less left)
  show ?case
  proof (cases "left = 0")
    case False
    have r: "recv_char s = (None, s)"
      using less.prems by (cases s; cases "pl_ser s") (simp add: recv_char_def probe_link_transport_recv_packet_def Let_def)
    from False show ?thesis using less.IH [of "left - 50" s] less.prems
      by (subst wait_dollar.simps) (simp add: r)
  qed (subst wait_dollar.simps, simp)
qed



text \<open>C29: The wait for the acknowledgement reads up to eight bytes, so a probe that answers at once, with
  the acknowledgement and a whole response of together at most eight bytes (such as
  \<open>+$OK#9a\<close>) and is silent then, is taken for one that only acknowledges: whatever the command and
  its time-out, the result is the time-out error, and all of the answer is consumed.
\<close>

theorem probe_prompt_answer_lost:
  assumes "pl_open s" "rx (pl_ser s) = map Some (PLUS # ans)" "length ans < 8"
    and "length payload + 4 \<le> PROBE_LINK_PACKET_MAX" "0 < resp_size"
    and "w (length (tx (pl_ser s))) (length payload + 4) = int (length payload) + 4"
  shows "\<exists>s1. probe_link_send_text_cmd w payload resp_size timeout_ms s = (Inl ESP_ERR_TIMEOUT, s1) \<and>
           rx (pl_ser s1) = []"
proof -
  obtain pkt where pkt: "probe_link_protocol_make_packet payload PROBE_LINK_PACKET_MAX = Inr pkt"
    "length pkt = length payload + 4" "pkt \<noteq> []"
    using assms(4) by (auto simp: probe_link_protocol_make_packet_def PROBE_LINK_PACKET_MAX_def hex_pair_def)
  define s1 where "s1 = s\<lparr>pl_ser := \<lparr>rx = rx (pl_ser s), tx = tx (pl_ser s) @ [pkt]\<rparr>\<rparr>"
  have send: "probe_link_transport_send_packet w pkt s = (ESP_OK, s1)"
    using assms(1,6) pkt by (simp add: probe_link_transport_send_packet_def serial_write_def s1_def)
  define s2 where "s2 = s1\<lparr>pl_ser := (pl_ser s1)\<lparr>rx := []\<rparr>\<rparr>"
  have ack: "probe_link_wait_ack s1 = (ESP_OK, s2)"
    using assms(1,3) read_bytes_all [of "PLUS # ans" 8]
    by (simp add: probe_link_wait_ack_def probe_link_transport_recv_packet_def s1_def s2_def assms(2)
        probe_link_protocol_check_ack_def)
  have "wait_dollar timeout_ms s2 = ((False, 0), s2)"
    using wait_dollar_silent [of s2 timeout_ms] assms(1) by (auto simp: s2_def s1_def)
  then have "probe_link_read_response w resp_size timeout_ms s2 = (Inl ESP_ERR_TIMEOUT, s2)"
    using assms(5) by (simp add: probe_link_read_response_def)
  with send ack show ?thesis
    by (simp add: probe_link_send_text_cmd_def send_and_read_def pkt s2_def)
qed

lemma probe_prompt_answer_lost_witness:
  "\<exists>s1. probe_link_send_text_cmd write_all (bytes_of ''vFlashDone'') 128 2000
      \<lparr>pl_open = True, pl_ser = \<lparr>rx = map Some (PLUS # [0x24, 0x4F, 0x4B, 0x23, 0x39, 0x61]), tx = []\<rparr>\<rparr> =
    (Inl ESP_ERR_TIMEOUT, s1) \<and> rx (pl_ser s1) = []"
  by (rule probe_prompt_answer_lost [where ans = "[0x24, 0x4F, 0x4B, 0x23, 0x39, 0x61]"])
    (simp_all add: bytes_of_def write_all_def PROBE_LINK_PACKET_MAX_def)


section \<open>The update comes to an end\<close>

lemma probe_dry_loop_returns: "probe_dry_loop env r tot n sys \<noteq> None"
proof (induction "reader_left r" arbitrary: r n sys rule: less_induct)
  case less
  obtain buf r1 where rd: "fw_storage_reader_read env r 1024 = (buf, r1)" by (rule prod.exhaust)
  show ?case
  proof (cases "buf = []")
    case False
    then show ?thesis using less [OF reader_read_left [OF rd False]]
      by (subst probe_dry_loop.simps) (simp add: rd)
  qed (subst probe_dry_loop.simps, simp add: rd)
qed

lemma probe_write_loop_returns: "probe_write_loop w env r a tot n s sys \<noteq> None"
proof (induction "reader_left r" arbitrary: r a n s sys rule: less_induct)
  case less
  obtain buf r1 where rd: "fw_storage_reader_read env r 256 = (buf, r1)" by (rule prod.exhaust)
  show ?case
  proof (cases "buf = []")
    case False
    then show ?thesis using less [OF reader_read_left [OF rd False]]
      by (subst probe_write_loop.simps) (simp add: rd split: prod.split sum.split)
  qed (subst probe_write_loop.simps, simp add: rd)
qed

text \<open>A composition returns when its parts do.\<close>

lemma returns_Some: "Some v \<noteq> None"
  by simp

lemma returns_if: "x \<noteq> None \<Longrightarrow> y \<noteq> None \<Longrightarrow> (if b then x else y) \<noteq> None"
  and returns_prod: "(\<And>a b. f a b \<noteq> None) \<Longrightarrow> (case p of (a, b) \<Rightarrow> f a b) \<noteq> None"
  and returns_sum: "(\<And>e. g e \<noteq> None) \<Longrightarrow> (\<And>v. h v \<noteq> None) \<Longrightarrow> (case r of Inl e \<Rightarrow> g e | Inr v \<Rightarrow> h v) \<noteq> None"
  by (simp_all split: prod.split sum.split)

lemma returns_bind: "x \<noteq> None \<Longrightarrow> (\<And>v. h v \<noteq> None) \<Longrightarrow> (case x of None \<Rightarrow> None | Some v \<Rightarrow> h v) \<noteq> None"
  and returns_map: "x \<noteq> None \<Longrightarrow> map_option k x \<noteq> None"
  by (simp_all split: prod.split sum.split option.split)

lemmas returns_rules = returns_Some returns_if returns_prod returns_sum returns_bind returns_map

lemma probe_program_returns: "probe_program w env cfg r s sys \<noteq> None"
  unfolding probe_program_def probe_fail_def Let_def
  by (intro returns_rules probe_write_loop_returns)

lemma probe_update_total: "probe_link_update_from_reader w env m r s sys \<noteq> None"
  unfolding probe_link_update_from_reader_def Let_def
  by (intro returns_rules probe_dry_loop_returns probe_program_returns)

text \<open>C30: The update over the debug probe returns with a result, whatever the stored file (encrypted or
  plain, whole or damaged), the meta data, the behaviour of the probe, and the results of the
  writes: every loop over the reader, over the wait for a response and over its text ends.
\<close>

theorem probe_update_returns:
  "\<exists>e s1 sys1. probe_link_update_from_reader w env m r s sys = Some (e, s1, sys1)"
  using probe_update_total by (simp add: split_paired_all)

end
