(* ===== verification/Uart_Isp.thy ===== *)
theory Uart_Isp
  imports Isp_Spec Fw_Manager
begin

text \<open>
  The update over the NXP boot loader: the client on the ESP side (\<open>uart_isp_lowlevel.c\<close>) and the
  sequence from the stored file to the flash with its messages to the app (\<open>uart_isp_update.c\<close>).
  The state joins the boot loader line, the progress state with the files, and whether the UART
  driver is installed; installing it twice stops the program, which is \<open>None\<close>.
\<close>

section \<open>State\<close>

record isp_sys =
  u_isp :: isp
  u_fw :: fw_sys
  u_uart :: bool

record uart_isp_ctx =
  cx_part :: partinfo
  flash_start :: u32
  flash_size :: u32

text \<open>What lies outside: the results of the writes, the memory behind the block buffer, and allocations.\<close>

record isp_env =
  ie_write :: write_result
  ie_slack :: bytes
  ie_block_ok :: bool
  ie_image_ok :: bool

definition on_isp :: "(isp \<Rightarrow> ('a \<times> isp) option) \<Rightarrow> isp_sys \<Rightarrow> ('a \<times> isp_sys) option" where
  "on_isp f s = map_option (\<lambda>(r, i). (r, s\<lparr>u_isp := i\<rparr>)) (f (u_isp s))"

definition isp_step :: "fw_step \<Rightarrow> string \<Rightarrow> isp_sys \<Rightarrow> isp_sys" where
  "isp_step st msg s = s\<lparr>u_fw := set_step st msg (u_fw s)\<rparr>"

definition isp_send :: "u16 \<Rightarrow> bytes \<Rightarrow> isp_sys \<Rightarrow> isp_sys" where
  "isp_send cmd payload s = s\<lparr>u_isp := (u_isp s)\<lparr>is_ble := is_ble (u_isp s) @ [(cmd, payload)]\<rparr>\<rparr>"

section \<open>Access to the part\<close>

definition uart_isp_uart_init :: "isp_sys \<Rightarrow> isp_sys option" where
  "uart_isp_uart_init s = (if u_uart s then None else Some (s\<lparr>u_uart := True\<rparr>))"

definition uart_isp_calc_flash_size :: "partinfo \<Rightarrow> u32 option" where
  "uart_isp_calc_flash_size p =
     (case sectorMap p of None \<Rightarrow> Some 0 | Some rows \<Rightarrow> size_loop 0 (numSectors p) rows)"

text \<open>\<open>p\<close> is what the context holds before, which is not initialised.\<close>

definition uart_isp_open ::
    "isp_env \<Rightarrow> u32 \<Rightarrow> uart_isp_ctx \<Rightarrow> isp_sys \<Rightarrow> ((esp_err \<times> uart_isp_ctx) \<times> isp_sys) option" where
  "uart_isp_open ie baudrate ctx s = do {
     s1 \<leftarrow> uart_isp_uart_init s;
     ((ret, p), s2) \<leftarrow> on_isp (LPCISP_Sync (ie_write ie) (sint baudrate) 0 100 False True (cx_part ctx)) s1;
     if ret \<noteq> ISP_ERR_NONE then Some ((ESP_ERR_NOT_FOUND, ctx\<lparr>cx_part := p\<rparr>), s2\<lparr>u_uart := False\<rparr>)
     else case sectorMap p of
            Some rows \<Rightarrow>
              if 0 < numSectors p
              then do {
                (bank, base, size0) \<leftarrow> (case rows of [] \<Rightarrow> None | row # _ \<Rightarrow> Some row);
                sz \<leftarrow> uart_isp_calc_flash_size p;
                Some ((ESP_OK, \<lparr>cx_part = p, flash_start = base, flash_size = sz\<rparr>), s2)
              }
              else Some ((ESP_OK, \<lparr>cx_part = p, flash_start = 0, flash_size = 0\<rparr>), s2)
          | None \<Rightarrow> Some ((ESP_OK, \<lparr>cx_part = p, flash_start = 0, flash_size = 0\<rparr>), s2)
   }"

text \<open>The loop over the sectors: the rows still to erase, the current sector and bank.\<close>

fun erase_loop ::
    "isp_env \<Rightarrow> partinfo \<Rightarrow> nat \<Rightarrow> nat \<Rightarrow> sectormap list \<Rightarrow> int \<Rightarrow> u32 \<Rightarrow> isp_sys \<Rightarrow> (esp_err \<times> isp_sys) option" where
  "erase_loop ie p i 0 rows sector bank s = Some (ESP_OK, s)"
| "erase_loop ie p i (Suc n) [] sector bank s = None"
| "erase_loop ie p i (Suc n) ((b, base, sz) # rows) sector bank s =
     (let sector1 = (if bank \<noteq> b then 0 else sector)
      in case on_isp (LPCISP_Erase (ie_write ie) sector1 sector1 (sint b) p) s of
           None \<Rightarrow> None
         | Some (r, s1) \<Rightarrow>
             if r \<noteq> 0 then Some (ESP_FAIL, s1)
             else erase_loop ie p (Suc i) n rows (sector1 + 1) b
                    (isp_send ACK_PROGRAM_START_PHONE_ESP32 [of_nat (50 * (i + 1) div numSectors p)] s1))"

definition uart_isp_erase_all :: "isp_env \<Rightarrow> uart_isp_ctx \<Rightarrow> isp_sys \<Rightarrow> (esp_err \<times> isp_sys) option" where
  "uart_isp_erase_all ie ctx s =
     (case sectorMap (cx_part ctx) of
        None \<Rightarrow> Some (ESP_ERR_INVALID_ARG, s)
      | Some rows \<Rightarrow>
          if numSectors (cx_part ctx) = 0 then Some (ESP_ERR_INVALID_ARG, s)
          else erase_loop ie (cx_part ctx) 0 (numSectors (cx_part ctx)) rows 0 0 s)"

definition uart_isp_write_chunk ::
    "isp_env \<Rightarrow> uart_isp_ctx \<Rightarrow> u32 \<Rightarrow> bytes \<Rightarrow> isp_sys \<Rightarrow> (esp_err \<times> isp_sys) option" where
  "uart_isp_write_chunk ie ctx addr data s =
     (if data = [] then Some (ESP_ERR_INVALID_ARG, s)
      else do {
        (ret, s1) \<leftarrow> on_isp (LPCISP_WriteToFlash (ie_write ie) (ie_block_ok ie) (ie_slack ie) data addr (length data) (cx_part ctx)) s;
        Some (if ret \<noteq> 0 then ESP_FAIL else ESP_OK, s1)
      })"

definition uart_isp_finalize :: "uart_isp_ctx \<Rightarrow> esp_err" where
  "uart_isp_finalize ctx = ESP_OK"

definition uart_isp_close :: "isp_sys \<Rightarrow> isp_sys" where
  "uart_isp_close s = s\<lparr>u_uart := False\<rparr>"

section \<open>The update\<close>

record isp_job =
  ij_meta :: fw_meta
  ij_file_name :: string
  ij_file_type :: string

text \<open>\<open>None\<close> for a refused file; the file set before stays then.\<close>

definition uart_isp_update_set_file :: "fw_meta \<Rightarrow> string \<Rightarrow> string \<Rightarrow> isp_job option" where
  "uart_isp_update_set_file meta name type =
     (if name = [] \<or> 64 \<le> length name \<or> length type \<noteq> 3 then None
      else Some \<lparr>ij_meta = meta, ij_file_name = c_copy 64 name, ij_file_type = c_copy 8 type\<rparr>)"

definition isp_send_status :: "string \<Rightarrow> isp_sys \<Rightarrow> isp_sys" where
  "isp_send_status status s =
     (if status = [] then s
      else isp_send ACK_PROGRAM_PROGRESS_MSG_ESP32
             (bytes_of (c_copy 96 (''{\"status\":\"'' @ status @ ''\"}''))) s)"

definition isp_send_progress :: "int \<Rightarrow> isp_sys \<Rightarrow> isp_sys" where
  "isp_send_progress percent0 s =
     (let percent = max 0 (min 100 percent0);
          s1 = s\<lparr>u_fw := set_progress (of_int percent) (u_fw s)\<rparr>;
          s2 = isp_send ACK_PROGRAM_PROGRESS_MSG_ESP32
                 (bytes_of (c_copy 64 (''{\"progress\":'' @ dec_str (nat percent) @ ''}''))) s1
      in isp_send ACK_PROGRAM_START_PHONE_ESP32 [of_int percent] s2)"

definition isp_send_step :: "nat \<Rightarrow> nat \<Rightarrow> string \<Rightarrow> isp_sys \<Rightarrow> isp_sys" where
  "isp_send_step step tot message s =
     (if message = [] then s
      else let s1 = (if step \<le> 1 then isp_step FW_STEP_PREPARE message s
                     else if step = 2 then isp_step FW_STEP_WRITE message s
                     else if tot \<le> step then isp_step FW_STEP_VERIFY message s
                     else s)
           in isp_send ACK_PROGRAM_PROGRESS_MSG_ESP32
                (bytes_of (c_copy 128 (''{\"step\":'' @ dec_str step @ '',\"total\":'' @ dec_str tot @
                   '',\"msg\":\"'' @ message @ ''\"}''))) s1)"

text \<open>Reading the whole image: what is read before the reader gives nothing more.\<close>

function image_loop :: "fw_env \<Rightarrow> nat \<Rightarrow> fw_storage_reader \<Rightarrow> bytes" where
  "image_loop env want r =
     (if want = 0 then []
      else let (bs, r1) = fw_storage_reader_read env r want
           in if bs = [] then [] else bs @ image_loop env (want - length bs) r1)"
  by auto
termination
  by (relation "measure (\<lambda>(env, want, r). want)") auto

declare image_loop.simps [simp del]

text \<open>An error: the step, the status message, and the result.\<close>

definition isp_fail :: "string \<Rightarrow> string \<Rightarrow> esp_err \<Rightarrow> isp_sys \<Rightarrow> (esp_err \<times> isp_sys) option" where
  "isp_fail msg status e s = Some (e, isp_send_status status (isp_step FW_STEP_ERROR msg s))"

text \<open>From the erased flash on: the image is read into memory and written at once.\<close>

definition isp_write_image ::
    "isp_env \<Rightarrow> fw_env \<Rightarrow> uart_isp_ctx \<Rightarrow> fw_storage_reader \<Rightarrow> nat \<Rightarrow> isp_sys \<Rightarrow> (esp_err \<times> isp_sys) option" where
  "isp_write_image ie env ctx r total_size s0 =
     (let s = isp_send_step 4 5 ''ERASE FLASH SUCCESS'' s0;
          s = isp_send_progress 50 s;
          s = isp_step FW_STEP_WRITE ''FLASHING START'' s;
          s = isp_send_step 4 5 ''FLASHING START'' s
      in if \<not> ie_image_ok ie then isp_fail ''UART ISP no memory'' ''No memory'' ESP_ERR_NO_MEM (uart_isp_close s)
         else let image = image_loop env total_size r
              in if length image \<noteq> total_size
                 then isp_fail ''UART ISP read mismatch'' ''Read mismatch'' ESP_FAIL (uart_isp_close s)
                 else case uart_isp_write_chunk ie ctx (flash_start ctx) image s of
                        None \<Rightarrow> None
                      | Some (ret, s) \<Rightarrow>
                          if ret \<noteq> ESP_OK then isp_fail ''FLASHING ERROR'' ''FLASHING ERROR'' ret (uart_isp_close s)
                          else let s = isp_step FW_STEP_VERIFY ''Completed'' s;
                                   s = isp_send_step 5 5 ''Completed'' s;
                                   ret = uart_isp_finalize ctx;
                                   s = uart_isp_close s
                               in if ret \<noteq> ESP_OK
                                  then isp_fail ''UART ISP finalize fail'' ''UART ISP finalize fail'' ret s
                                  else Some (ESP_OK, isp_send_status ''UART ISP success''
                                         (isp_step FW_STEP_DONE ''UART ISP success'' (isp_send_progress 100 s))))"

definition isp_baudrate :: "fw_meta \<Rightarrow> u32" where
  "isp_baudrate m = (if fm_uart_baud m \<noteq> 0 then fm_uart_baud m else 57600)"

text \<open>
  The context starts with what the memory holds (\<open>ctx\<close>), with the echo on and the two pins set. A
  plain file is as long as the card says.
\<close>

definition uart_isp_update_start ::
    "isp_env \<Rightarrow> fw_env \<Rightarrow> uart_isp_ctx \<Rightarrow> isp_job option \<Rightarrow> isp_sys \<Rightarrow> (esp_err \<times> isp_sys) option" where
  "uart_isp_update_start ie env ctx job s =
     (case job of
        None \<Rightarrow> isp_fail ''UART ISP file not set'' ''No file'' ESP_FAIL s
      | Some j \<Rightarrow>
          if \<not> e_sd_ok env then isp_fail ''SDMMC not ready'' ''SDMMC not ready'' ESP_FAIL s
          else case fw_storage_reader_open env (ij_file_name j) (ij_file_type j) (sy_fs (u_fw s)) of
            Inl _ \<Rightarrow> isp_fail ''UART ISP file open fail'' ''Open fail'' ESP_FAIL s
          | Inr r \<Rightarrow>
              (case (if \<not> r_encrypted r \<or> fm_original_size (r_meta r) = 0
                     then map_option length (sy_fs (u_fw s)
                       (c_copy 384 (''/sdcard/'' @ ij_file_name j @ ''.'' @ ij_file_type j)))
                     else Some (fm_original_size (r_meta r))) of
                 None \<Rightarrow> isp_fail ''UART ISP file not found'' ''File not found'' ESP_FAIL s
               | Some total_size \<Rightarrow>
                   let s = s\<lparr>u_isp := (u_isp s)\<lparr>is_cfg := (is_cfg (u_isp s))\<lparr>echo := True, ispPin := 11, resetPin := 12\<rparr>\<rparr>\<rparr>;
                       s = isp_send_step 1 5 ''DEVICE ENTER MODE'' (isp_send_progress 0 s)
                   in case uart_isp_open ie (isp_baudrate (ij_meta j)) ctx s of
                        None \<Rightarrow> None
                      | Some ((ret, ctx), s) \<Rightarrow>
                          if ret \<noteq> ESP_OK then isp_fail ''DEVICE NOT FOUND'' ''DEVICE NOT FOUND'' ret s
                          else let s = isp_send_step 3 5 ''ERASE FLASH'' (isp_send_step 2 5 ''DEVICE ATTACHED'' s)
                               in case uart_isp_erase_all ie ctx s of
                                    None \<Rightarrow> None
                                  | Some (ret, s) \<Rightarrow>
                                      if ret \<noteq> ESP_OK
                                      then isp_fail ''ERASE FLASH ERROR'' ''ERASE FLASH ERROR'' ret (uart_isp_close s)
                                      else isp_write_image ie env ctx r total_size s))"


section \<open>The identified part\<close>

text \<open>A part of the table with its number of the matching identifier and what was read from the target.\<close>

definition same_part :: "partinfo \<Rightarrow> partinfo \<Rightarrow> bool" where
  "same_part q p \<longleftrightarrow> p_id p = p_id q \<and> p_id1 p = p_id1 q \<and> p_name p = p_name q \<and> numSectors p = numSectors q \<and>
     sectorMap p = sectorMap q \<and> numBanks p = numBanks q \<and> ramSize p = ramSize q \<and>
     flashBlockSize p = flashBlockSize q \<and> flashBlockRAMBase p = flashBlockRAMBase q \<and> p_flags p = p_flags q"

lemma find_part_same: "find_part pid id1 ps = Some p \<Longrightarrow> \<exists>q \<in> set ps. \<exists>i. p = q\<lparr>idIdx := i\<rparr>"
  by (induction ps) (auto split: if_splits)

lemma GetPartInfo_same:
  assumes "GetPartInfo w s = Some ((0, p), s')" "numSectors p \<noteq> 0"
  shows "\<exists>q \<in> set partDef. same_part q p"
proof -
  obtain pid id1 s1 where id: "LPCISP_ReadPartID w s = Some ((pid, id1), s1)"
    using assms(1) by (auto simp: GetPartInfo_def Let_def bind_eq_Some_conv)
  show ?thesis
  proof (cases "find_part pid id1 partDef")
    case None
    with assms id show ?thesis
      by (auto simp: GetPartInfo_def Let_def bind_eq_Some_conv partDefUnknown_def part_def split: if_splits)
  next
    case (Some q0)
    then obtain q i where q: "q \<in> set partDef" "q0 = q\<lparr>idIdx := i\<rparr>" using find_part_same by blast
    with assms(1) id Some have "same_part q p"
      by (auto simp: GetPartInfo_def Let_def bind_eq_Some_conv same_part_def split: if_splits)
    with q show ?thesis by blast
  qed
qed

lemma Sync_same:
  assumes "LPCISP_Sync w baud clk n e h p0 s = Some ((ISP_ERR_NONE, p), s')"
  shows "\<exists>q \<in> set partDef. same_part q p \<and> 0 < numSectors q"
proof -
  obtain s3 s4 where "GetPartInfo w s3 = Some ((0, p), s4)" "numSectors p \<noteq> 0"
    using assms unfolding LPCISP_Sync_def Let_def
    by (clarsimp simp: bind_eq_Some_conv split: if_split_asm)
  then show ?thesis using GetPartInfo_same by (fastforce simp: same_part_def)
qed

lemma open_same:
  assumes "uart_isp_open ie baud ctx0 s = Some ((ESP_OK, ctx), s')"
  shows "\<exists>q \<in> set partDef. same_part q (cx_part ctx) \<and> 0 < numSectors q \<and>
    (case sectorMap q of None \<Rightarrow> True
     | Some rows \<Rightarrow> flash_start ctx = fst (snd (hd rows)) \<and> GetFlashSize q = Some (flash_size ctx))"
proof -
  obtain p i where sy: "LPCISP_Sync (ie_write ie) (sint baud) 0 100 False True (cx_part ctx0) i = Some ((ISP_ERR_NONE, p), u_isp s')"
      "cx_part ctx = p"
    using assms by (auto simp: uart_isp_open_def on_isp_def bind_eq_Some_conv split: if_splits option.splits list.splits)
  then obtain q where q: "q \<in> set partDef" "same_part q p" "0 < numSectors q" using Sync_same by blast
  moreover have "case sectorMap q of None \<Rightarrow> True
     | Some rows \<Rightarrow> flash_start ctx = fst (snd (hd rows)) \<and> GetFlashSize q = Some (flash_size ctx)"
    using assms q(2,3) sy(2)
    by (auto simp: same_part_def uart_isp_open_def on_isp_def bind_eq_Some_conv GetFlashSize_def uart_isp_calc_flash_size_def
        split: if_splits option.splits list.splits)
  ultimately show ?thesis using sy(2) by blast
qed


section \<open>Outcomes\<close>

lemma erase_loop_uart:
  "erase_loop ie p i n rows sector bank s = Some (e, s') \<Longrightarrow> u_uart s' = u_uart s"
  by (induction ie p i n rows sector bank s rule: erase_loop.induct)
    (auto simp: on_isp_def isp_send_def Let_def split: option.splits if_splits)

lemma erase_all_uart: "uart_isp_erase_all ie ctx s = Some (e, s') \<Longrightarrow> u_uart s' = u_uart s"
  by (auto simp: uart_isp_erase_all_def dest: erase_loop_uart split: option.splits if_splits)

text \<open>What an end of the update leaves: no driver, and the step that fits the result.\<close>

definition isp_ended :: "esp_err \<times> isp_sys \<Rightarrow> bool" where
  "isp_ended = (\<lambda>(e, s). \<not> u_uart s \<and>
     (if e = ESP_OK then s_step (sy_state (u_fw s)) = FW_STEP_DONE \<and> s_progress (sy_state (u_fw s)) = 100
      else s_step (sy_state (u_fw s)) = FW_STEP_ERROR))"

lemma u_kept [simp]:
  "u_uart (isp_send c b s) = u_uart s" "u_uart (isp_step st m s) = u_uart s"
  "u_uart (isp_send_status t s) = u_uart s" "u_uart (isp_send_progress pc s) = u_uart s"
  "u_uart (isp_send_step k tot m s) = u_uart s" "\<not> u_uart (uart_isp_close s)"
  "u_fw (isp_send c b s) = u_fw s" "u_fw (isp_send_status t s) = u_fw s"
  "u_fw (isp_step st m s) = set_step st m (u_fw s)"
  "u_fw (isp_send_progress pc s) = set_progress (of_int (max 0 (min 100 pc))) (u_fw s)"
  by (simp_all add: isp_send_def isp_step_def isp_send_status_def isp_send_progress_def isp_send_step_def
      uart_isp_close_def Let_def)

lemma ended_simps [simp]:
  "isp_fail msg st e s = Some x \<longleftrightarrow> x = (e, isp_send_status st (isp_step FW_STEP_ERROR msg s))"
  "isp_ended (e, isp_send_status t (isp_step FW_STEP_ERROR m s)) \<longleftrightarrow> e \<noteq> ESP_OK \<and> \<not> u_uart s"
  "isp_ended (ESP_OK, isp_send_status t (isp_step FW_STEP_DONE m (isp_send_progress 100 s))) \<longleftrightarrow> \<not> u_uart s"
  by (auto simp: isp_fail_def isp_ended_def set_step_def set_progress_def fw_state_set_step_def fw_state_set_progress_def)

lemma write_image_ended:
  "isp_write_image ie env ctx r n s = Some x \<Longrightarrow> isp_ended x"
  unfolding isp_write_image_def Let_def
  by (auto simp: uart_isp_finalize_def split: if_splits option.splits)

lemma open_uart:
  "uart_isp_open ie baud ctx s = Some ((e, c), s') \<Longrightarrow> e = ESP_OK \<or> \<not> u_uart s'"
  by (auto simp: uart_isp_open_def bind_eq_Some_conv split: if_splits option.splits list.splits)

lemma isp_update_ended:
  assumes "\<not> u_uart s" "uart_isp_update_start ie env ctx job s = Some (e, s')"
  shows "isp_ended (e, s')"
  using assms unfolding uart_isp_update_start_def Let_def
  by (auto dest!: open_uart write_image_ended split: option.split_asm if_split_asm sum.split_asm)

text \<open>C31: Every run of the update ends in a defined way. Started without the UART driver installed, whatever
  the file, the card, the target and the allocations do, a run that ends has removed the driver again;
  it leaves the step at done with 100 percent when the result is success, and at error when it is not.\<close>

theorem isp_update_outcome:
  assumes "\<not> u_uart s" "uart_isp_update_start ie env ctx job s = Some (e, s')"
  shows "\<not> u_uart s' \<and>
    (if e = ESP_OK then s_step (sy_state (u_fw s')) = FW_STEP_DONE \<and> s_progress (sy_state (u_fw s')) = 100
     else s_step (sy_state (u_fw s')) = FW_STEP_ERROR)"
  using isp_update_ended [OF assms] by (simp add: isp_ended_def)


section \<open>Images of the size of the flash\<close>

lemma sector_same: "same_part q p \<Longrightarrow> LPCISP_GetSectorAddr a p = LPCISP_GetSectorAddr a q"
  by (auto simp: LPCISP_GetSectorAddr_def same_part_def split: option.split)

lemma full_flash_blocks:
  assumes "q \<in> set partDef" "same_part q p" "sectorMap q = Some rows" "\<forall>r \<in> set (take (numSectors q) rows). fst r = 0"
    and "GetFlashSize q = Some sz" "0 < flashBlockSize q" "flashBlockSize q dvd unat sz"
    and "flash_blocks w p slack tot (fst (snd (hd rows))) (unat sz) data True s = Some (fail, s')"
  shows "fail"
proof -
  let ?a = "fst (snd (hd rows))" and ?bs = "flashBlockSize q"
  let ?e = "?a + of_nat (unat sz)"
  have "unat ?e = unat ?a + unat sz"
    using sector_of_address [OF assms(1,3,4), of ?e] assms(5) by (auto simp: unat_word_ariths)
  then have sec: "LPCISP_GetSectorAddr ?e p = Some (- 1)"
    using sector_of_address [OF assms(1,3,4), of ?e] assms(2,5) by (auto simp: sector_same)
  obtain k where k: "unat sz = ?bs * k" using assms(7) by blast
  have "(unat sz + ?bs - 1) div ?bs = k"
    using assms(6) by (intro div_nat_eqI) (auto simp: k)
  then have "LPCISP_GetSectorAddr (?a + of_nat (?bs * ((unat sz + ?bs - 1) div ?bs))) p = Some (- 1)"
    using sec k by simp
  then show ?thesis using flash_blocks_end [of p ?a "unat sz"] assms(2,6,8) by (auto simp: same_part_def)
qed

text \<open>C32: What an opened target allows. A successful opening has identified a part of the table: the context
  agrees with its entry, and holds the base of its first sector and the sum of its sector sizes. If
  these sectors lie in bank 0 and the flash consists of whole blocks, then writing an image that
  fills the flash never succeeds from there, whatever the target does and whatever is sent in
  between, once the buffer for a block is allocated: the code writes a further block of 0xFF behind
  the image. If that buffer cannot be allocated, any write reports success, and nothing at all is
  sent to the target.\<close>

theorem isp_opened_part:
  assumes "uart_isp_open ie baud ctx0 s = Some ((ESP_OK, ctx), s1)"
  shows "\<exists>q \<in> set partDef. same_part q (cx_part ctx) \<and> 0 < numSectors q \<and>
    (\<forall>rows. sectorMap q = Some rows \<longrightarrow>
       flash_start ctx = fst (snd (hd rows)) \<and> GetFlashSize q = Some (flash_size ctx) \<and>
       ((\<forall>r \<in> set (take (numSectors q) rows). fst r = 0) \<and> 0 < flashBlockSize q \<and>
        flashBlockSize q dvd unat (flash_size ctx) \<and> length data = unat (flash_size ctx) \<and> ie_block_ok ie \<longrightarrow>
        uart_isp_write_chunk ie ctx (flash_start ctx) data s2 \<noteq> Some (ESP_OK, s3))) \<and>
    (\<not> ie_block_ok ie \<and> data \<noteq> [] \<longrightarrow>
       uart_isp_write_chunk ie ctx (flash_start ctx) data s2 = Some (ESP_OK, s2))"
proof -
  obtain q where q: "q \<in> set partDef" "same_part q (cx_part ctx)" "0 < numSectors q"
    and m: "\<And>rows. sectorMap q = Some rows \<Longrightarrow>
      flash_start ctx = fst (snd (hd rows)) \<and> GetFlashSize q = Some (flash_size ctx)"
    using open_same [OF assms] by fastforce
  have "uart_isp_write_chunk ie ctx (flash_start ctx) data s2 \<noteq> Some (ESP_OK, s3)"
    if "sectorMap q = Some rows" "\<forall>r \<in> set (take (numSectors q) rows). fst r = 0" "0 < flashBlockSize q"
      "flashBlockSize q dvd unat (flash_size ctx)" "length data = unat (flash_size ctx)" "ie_block_ok ie" for rows
    using full_flash_blocks [OF q(1,2) that(1,2) _ that(3,4), where fail = False] m [OF that(1)] that(5,6)
    by (auto simp: uart_isp_write_chunk_def LPCISP_WriteToFlash_def on_isp_def bind_eq_Some_conv split: if_splits)
  moreover have "uart_isp_write_chunk ie ctx (flash_start ctx) data s2 = Some (ESP_OK, s2)"
    if "\<not> ie_block_ok ie" "data \<noteq> []"
    using that by (simp add: uart_isp_write_chunk_def LPCISP_WriteToFlash_def on_isp_def)
  ultimately show ?thesis using q m by blast
qed

section \<open>Witnesses\<close>

lemma read_any:
  assumes "lineTermination (is_cfg s) = TERM_ANY" "rx (is_ser s) = answer_script pre (l # ls)"
    "eol_rest pre" "text_line l" "length l < cap"
  shows "ReadString cap s = Some (Some l, with_rx s (answer_script [LF] ls))"
proof -
  have "ReadStringAny cap [] (rx (is_ser s)) = Some (Some l, answer_script [LF] ls)"
    using assms any_skip [OF assms(3)] any_line [of l "[]" cap "map Some [LF] @ concat (map (\<lambda>l. map Some (l @ [CR, LF])) ls)"]
    by (simp add: answer_script_def text_line_def)
  then show ?thesis
    using assms(1,4) by (simp add: ReadString_def model_simps text_line_def cstr_id)
qed

lemma write_any:
  "lineTermination (is_cfg s) = TERM_ANY \<Longrightarrow> text_line l \<Longrightarrow>
   WriteString write_all (AddTermination l (is_cfg s)) s = (True, sent_lines [l] s)"
  by (simp add: WriteString_def WriteBuffer_def AddTermination_def sent_lines_def cstr_id text_line_def
      TERM_ANY_def TERM_CR_def TERM_LF_def CR_def LF_def byte_of_def)

lemma send_any:
  assumes "lineTermination (is_cfg s) = TERM_ANY" "\<not> echo (is_cfg s)" "rx (is_ser s) = answer_script pre (a # ls)"
    "eol_rest pre" "text_line l" "text_line a" "length a < cap"
  shows "SendCommand write_all alias cap l (Some m) s =
    Some ((if take (length m) a = m then 1 else 0, a), sent_lines [l] (with_rx s (answer_script [LF] ls)))"
  using read_any [of "sent_lines [l] s" pre a ls cap] write_any [of s l] assms by (simp add: SendCommand_def)

lemma send_echo:
  assumes "lineTermination (is_cfg s) = TERM_ANY" "echo (is_cfg s)" "rx (is_ser s) = answer_script pre (l # a # ls)"
    "eol_rest pre" "text_line l" "text_line a" "length l < cap" "length a < cap"
  shows "SendCommand write_all alias cap l (Some m) s =
    Some ((if take (length m) a = m then 1 else 0, a), sent_lines [l] (with_rx s (answer_script [LF] ls)))"
  using read_any [of "sent_lines [l] s" pre l "a # ls" cap]
    read_any [of "sent_lines [l] (with_rx s (answer_script [LF] (a # ls)))" "[LF]" a ls cap] write_any [of s l] assms
  by (simp add: SendCommand_def)

lemma read_bytes_none: "length bs < n \<Longrightarrow> serial_read_bytes n (map Some bs @ None # rs) = (bs, rs)"
proof (induction bs arbitrary: n)
  case Nil
  then show ?case by (cases n) auto
next
  case (Cons b bs)
  then show ?case by (cases n) auto
qed

text \<open>An LPC810 that attaches: its greeting and its answer lines, with its identifier 33024.\<close>

definition lpc810_lines :: "bytes list" where
  "lpc810_lines = map bytes_of [''Synchronized'', ''OK'', ''12000'', ''OK'', ''A 0'', ''0'', ''0'', ''33024'', ''0'',
     ''0'', ''1'', ''2'', ''3'', ''4'', ''0'', ''4'', ''13'', ''0'']"

definition lpc810_script :: "u8 option list" where
  "lpc810_script = map Some (bytes_of ''Synchronized'' @ [CR, LF]) @ None # answer_script [] lpc810_lines"

lemma lpc810_text: "list_all text_line lpc810_lines"
  by (simp add: lpc810_lines_def text_line_def bytes_of_def byte_of_def CR_def LF_def)

lemma sync_ok:
  assumes "lineTermination (is_cfg s) = TERM_ANY" "rx (is_ser s) = lpc810_script"
  shows "\<exists>s1. Sync write_all 12000000 100 True s = Some (0, s1) \<and> rx (is_ser s1) = answer_script [LF] (drop 4 lpc810_lines) \<and>
    is_cfg s1 = (is_cfg s)\<lparr>echo := True\<rparr>"
proof -
  define s1 where "s1 = snd (WriteChar write_all (byte_of CHR ''?'') (EnterISPMode True s))"
  have s1: "is_cfg s1 = (is_cfg s)\<lparr>echo := True\<rparr>" "rx (is_ser s1) = lpc810_script"
    using assms by (simp_all add: s1_def EnterISPMode_def WriteChar_def WriteBuffer_def gpio_set_def Let_def)
  let ?greeting = "bytes_of ''Synchronized'' @ [CR, LF]"
  define s2 where "s2 = with_rx s1 (answer_script [] lpc810_lines)"
  have rd: "LPCISP_SERIAL_ReadBytes 256 s1 = (?greeting, s2)"
    using read_bytes_none [of ?greeting 256] by (simp add: LPCISP_SERIAL_ReadBytes_def s1(2) lpc810_script_def s2_def)
  have t: "text_line (bytes_of ''Synchronized'')" "text_line (bytes_of ''OK'')" "text_line (bytes_of ''12000'')"
    by (simp_all add: text_line_def bytes_of_def byte_of_def CR_def LF_def)
  have fmt: "fmt_int (12000000 div 1000) = bytes_of ''12000''"
    by (simp add: fmt_int_def dec_str.simps bytes_of_def digit_byte) (simp add: byte_of_def)
  have 1: "SendCommand write_all False 256 syncStr (Some (bytes_of ''OK'')) s2 =
      Some ((1, bytes_of ''OK''), sent_lines [syncStr] (with_rx s2 (answer_script [LF] (drop 2 lpc810_lines))))"
    unfolding syncStr_def
    using send_echo [of s2 "[]" "bytes_of ''Synchronized''" "bytes_of ''OK''" "drop 2 lpc810_lines" 256 False "bytes_of ''OK''"]
    by (simp add: s2_def s1 assms t lpc810_lines_def)
  let ?s3 = "sent_lines [syncStr] (with_rx s2 (answer_script [LF] (drop 2 lpc810_lines)))"
  have 2: "SendCommand write_all True 256 (fmt_int (12000000 div 1000)) (Some (bytes_of ''OK'')) ?s3 =
      Some ((1, bytes_of ''OK''), sent_lines [bytes_of ''12000''] (with_rx ?s3 (answer_script [LF] (drop 4 lpc810_lines))))"
    unfolding fmt
    using send_echo [of ?s3 "[LF]" "bytes_of ''12000''" "bytes_of ''OK''" "drop 4 lpc810_lines" 256 True "bytes_of ''OK''"]
    by (simp add: s2_def s1 assms t lpc810_lines_def)
  have "sync_loop write_all 12000000 (Suc 99) (EnterISPMode True s) =
      Some (0, sent_lines [bytes_of ''12000''] (with_rx ?s3 (answer_script [LF] (drop 4 lpc810_lines))))"
    unfolding sync_loop.simps using 1 2 rd by (simp add: s1_def [symmetric] syncStr_def)
  then have "Sync write_all 12000000 100 True s =
      Some (0, sent_lines [bytes_of ''12000''] (with_rx ?s3 (answer_script [LF] (drop 4 lpc810_lines))))"
    by (simp add: Sync_def)
  then show ?thesis by (simp add: s2_def s1)
qed


text \<open>An attached part without echo whose coming lines are known, up to the second character of an end of line.\<close>

definition will_answer :: "isp \<Rightarrow> bytes list \<Rightarrow> bool" where
  "will_answer s ls \<longleftrightarrow> attached s \<and> (\<exists>pre \<in> {[], [LF]}. rx (is_ser s) = answer_script pre ls)"

lemma will_send:
  "will_answer s (a # ls) \<Longrightarrow> text_line l \<Longrightarrow> text_line a \<Longrightarrow> length a < cap \<Longrightarrow>
   \<exists>s1. SendCommand write_all al cap l (Some m) s = Some ((if take (length m) a = m then 1 else 0, a), s1) \<and>
     will_answer s1 ls"
  unfolding will_answer_def
  by (elim conjE bexE, subst send_command) (auto simp: text_line_def split: if_splits)

lemma will_read:
  "will_answer s (a # ls) \<Longrightarrow> text_line a \<Longrightarrow> length a < cap \<Longrightarrow>
   \<exists>s1. ReadString cap s = Some (Some a, s1) \<and> will_answer s1 ls"
  unfolding will_answer_def
  by (elim conjE bexE, subst read_answer) (auto split: if_splits)

lemma digits_text:
  "text_line (bytes_of ''0'')" "text_line (bytes_of ''1'')" "text_line (bytes_of ''2'')" "text_line (bytes_of ''3'')"
  "text_line (bytes_of ''4'')" "text_line (bytes_of ''13'')" "text_line (bytes_of ''33024'')"
  "text_line (bytes_of ''J'')" "text_line (bytes_of ''N'')" "text_line (bytes_of ''K'')" "text_line (bytes_of ''A 0'')"
  by (simp_all add: text_line_def bytes_of_def byte_of_def CR_def LF_def)

lemma lpc810_id:
  "(word_of_int (strtoll10 (bytes_of ''33024'')) :: u32) = 0x8100"
proof -
  have "cstr (bytes_of ''33024'') = bytes_of ''33024''" by (simp add: cstr_def bytes_of_def byte_of_def)
  then show ?thesis by (simp add: strtoll10_def strto_def isspace_def chars_of_bytes_of)
qed

lemma lpc810_identified:
  assumes "will_answer s (drop 6 lpc810_lines)"
  shows "\<exists>p s1. GetPartInfo write_all s = Some ((0, p), s1) \<and> same_part (hd partDef_LPC8xx_11xx) p \<and>
    will_answer s1 [bytes_of ''0'']"
proof -
  obtain s1 where 1: "SendCommand write_all False 256 (bytes_of ''J'') (Some (bytes_of ''0'')) s = Some ((1, bytes_of ''0''), s1)"
    "will_answer s1 (drop 7 lpc810_lines)"
    using will_send [of s "bytes_of ''0''" "drop 7 lpc810_lines" "bytes_of ''J''" 256 False "bytes_of ''0''"] assms digits_text
    by (auto simp: lpc810_lines_def)
  obtain s2 where 2: "ReadString 256 s1 = Some (Some (bytes_of ''33024''), s2)" "will_answer s2 (drop 8 lpc810_lines)"
    using will_read [of s1 "bytes_of ''33024''" "drop 8 lpc810_lines" 256] 1(2) digits_text by (auto simp: lpc810_lines_def)
  obtain s3 where 3: "ReadString 256 s2 = Some (Some (bytes_of ''0''), s3)" "will_answer s3 (drop 9 lpc810_lines)"
    using will_read [of s2 "bytes_of ''0''" "drop 9 lpc810_lines" 256] 2(2) digits_text by (auto simp: lpc810_lines_def)
  obtain id1 where id: "LPCISP_ReadPartID write_all s = Some ((0x8100, id1), s3)"
    using 1 2 3 by (auto simp: LPCISP_ReadPartID_def lpc810_id)
  obtain s4 where 4: "SendCommand write_all False 256 (bytes_of ''N'') (Some (bytes_of ''0'')) s3 = Some ((1, bytes_of ''0''), s4)"
    "will_answer s4 (drop 10 lpc810_lines)"
    using will_send [of s3 "bytes_of ''0''" "drop 10 lpc810_lines" "bytes_of ''N''" 256 False "bytes_of ''0''"] 3(2) digits_text
    by (auto simp: lpc810_lines_def)
  have rd: "\<exists>s'. ReadString 256 s = Some (Some a, s') \<and> will_answer s' ls"
    if "will_answer s (a # ls)" "a \<in> {bytes_of ''1'', bytes_of ''2'', bytes_of ''3'', bytes_of ''4'', bytes_of ''13''}" for s a ls
    using will_read [OF that(1), of 256] that(2) digits_text by auto
  have "drop 10 lpc810_lines = bytes_of ''1'' # bytes_of ''2'' # bytes_of ''3'' # bytes_of ''4'' # drop 14 lpc810_lines"
    by (simp add: lpc810_lines_def)
  with 4(2) rd obtain a1 a2 a3 s5 where 5: "ReadString 256 s4 = Some (Some (bytes_of ''1''), a1)"
      "ReadString 256 a1 = Some (Some (bytes_of ''2''), a2)" "ReadString 256 a2 = Some (Some (bytes_of ''3''), a3)"
      "ReadString 256 a3 = Some (Some (bytes_of ''4''), s5)" and w5: "will_answer s5 (drop 14 lpc810_lines)"
    by (metis insertI1 insertI2)
  have uid: "\<exists>u1. LPCISP_ReadPartUID write_all u s3 = Some ((0, u1), s5)" for u
    using 4(1) 5 by (simp add: LPCISP_ReadPartUID_def numeral_eq_Suc)
  obtain s6 where 6: "SendCommand write_all False 256 (bytes_of ''K'') (Some (bytes_of ''0'')) s5 = Some ((1, bytes_of ''0''), s6)"
    "will_answer s6 (bytes_of ''4'' # bytes_of ''13'' # [bytes_of ''0''])"
    using will_send [of s5 "bytes_of ''0''" "drop 15 lpc810_lines" "bytes_of ''K''" 256 False "bytes_of ''0''"] w5 digits_text
    by (auto simp: lpc810_lines_def)
  obtain s7 s8 where 7: "ReadString 256 s6 = Some (Some (bytes_of ''4''), s7)" "ReadString 256 s7 = Some (Some (bytes_of ''13''), s8)"
    "will_answer s8 [bytes_of ''0'']"
    using rd 6(2) by blast
  have boot: "\<exists>v1. LPCISP_ReadBootCodeVersion write_all v s5 = Some ((0, v1), s8)" for v
    using 6(1) 7 by (simp add: LPCISP_ReadBootCodeVersion_def)
  have found: "find_part 0x8100 id1 partDef = Some ((hd partDef_LPC8xx_11xx)\<lparr>idIdx := 0\<rparr>)"
    by (simp add: partDef_def partDef_LPC8xx_11xx_def id_matches_def part_def no_id_def)
  have flags: "p_flags (hd partDef_LPC8xx_11xx) AND HAS_UID \<noteq> 0"
    by (simp add: partDef_LPC8xx_11xx_def part_def TERM_CRLF_def HAS_UID_def)
  obtain u1 v1 where "LPCISP_ReadPartUID write_all (p_uid (hd partDef_LPC8xx_11xx)) s3 = Some ((0, u1), s5)"
    "LPCISP_ReadBootCodeVersion write_all (bootMajor (hd partDef_LPC8xx_11xx), bootMinor (hd partDef_LPC8xx_11xx)) s5 =
      Some ((0, v1), s8)"
    using uid boot by blast
  with id found flags 7(3) show ?thesis
    by (cases v1) (simp add: GetPartInfo_def same_part_def)
qed


lemma lpc810_attached:
  assumes "rx (is_ser s) = lpc810_script"
  shows "\<exists>p s1. LPCISP_Sync write_all 57600 0 100 False True p0 s = Some ((ISP_ERR_NONE, p), s1) \<and>
    same_part (hd partDef_LPC8xx_11xx) p"
proof -
  let ?s0 = "s\<lparr>is_cfg := (is_cfg s)\<lparr>lineTermination := TERM_ANY\<rparr>\<rparr>"
  obtain s1 where s1: "Sync write_all 12000000 100 True ?s0 = Some (0, s1)"
    "rx (is_ser s1) = answer_script [LF] (drop 4 lpc810_lines)" "is_cfg s1 = (is_cfg s)\<lparr>lineTermination := TERM_ANY, echo := True\<rparr>"
    using sync_ok [of ?s0] assms by auto
  define s2 where "s2 = (let s' = sent_lines [bytes_of ''A 0''] (with_rx s1 (answer_script [LF] (drop 6 lpc810_lines)))
    in s'\<lparr>is_cfg := (is_cfg s')\<lparr>echo := False\<rparr>\<rparr>)"
  have echo: "Echo write_all False s1 = Some (0, s2)"
    using send_echo [of s1 "[LF]" "bytes_of ''A 0''" "bytes_of ''0''" "drop 6 lpc810_lines" 256 False "bytes_of ''0''"]
    by (simp add: Echo_def s1 digits_text s2_def lpc810_lines_def Let_def)
  have "will_answer s2 (drop 6 lpc810_lines)"
    by (auto simp: will_answer_def attached_def s2_def s1 Let_def)
  then obtain p s3 where p: "GetPartInfo write_all s2 = Some ((0, p), s3)" "same_part (hd partDef_LPC8xx_11xx) p"
    "will_answer s3 [bytes_of ''0'']"
    using lpc810_identified by blast
  define s4 where "s4 = s3\<lparr>is_cfg := (is_cfg s3)\<lparr>lineTermination := TERM_CRLF\<rparr>\<rparr>"
  have "attached s3" "rx (is_ser s3) \<in> {map Some [0x30, CR, LF], map Some [LF, 0x30, CR, LF]}"
    using p(3) by (auto simp: will_answer_def answer_script_def bytes_of_def byte_of_def)
  then have "\<exists>s5. ReadString 256 (snd (WriteString write_all (AddTermination (bytes_of ''U 23130'') (is_cfg s4)) s4)) =
      Some (Some (bytes_of ''0''), s5) \<and> \<not> echo (is_cfg s5)"
    by (auto simp: s4_def with_rx_def attached_def ReadString_def WriteString_def WriteBuffer_def TERM_ANY_def TERM_CR_def TERM_LF_def
        TERM_CRLF_def CR_def LF_def cstr_def bytes_of_def byte_of_def)
  then have unlock: "\<exists>s5. Unlock write_all s4 = Some (0, s5)"
    by (auto simp: Unlock_def SendCommand_def WriteString_def WriteBuffer_def)
  have t: "p_flags p AND TERM_MASK = TERM_CRLF" "numSectors p = 4"
    using p(2) by (simp_all add: same_part_def partDef_LPC8xx_11xx_def part_def TERM_CRLF_def TERM_MASK_def HAS_UID_def)
  from unlock show ?thesis
    by (simp add: LPCISP_Sync_def LPCISP_SERIAL_ChangeBaudRate_def s1(1) echo p(1) t)
      (auto simp: s4_def p(2))
qed


definition example_isp_env :: isp_env where
  "example_isp_env = \<lparr>ie_write = write_all, ie_slack = [0, 0], ie_block_ok = True, ie_image_ok = True\<rparr>"

definition example_ctx :: uart_isp_ctx where
  "example_ctx = \<lparr>cx_part = partDefUnknown, flash_start = 0, flash_size = 0\<rparr>"

definition example_isp_sys :: "fw_sys \<Rightarrow> u8 option list \<Rightarrow> isp_sys" where
  "example_isp_sys fw rs = \<lparr>u_isp = example_isp rs, u_fw = fw, u_uart = False\<rparr>"

lemma example_opened:
  "\<exists>ctx s1. uart_isp_open example_isp_env 57600 example_ctx (example_isp_sys fw lpc810_script) = Some ((ESP_OK, ctx), s1) \<and>
     same_part (hd partDef_LPC8xx_11xx) (cx_part ctx)"
proof -
  obtain p s1 where p: "LPCISP_Sync write_all 57600 0 100 False True partDefUnknown (example_isp lpc810_script) =
      Some ((ISP_ERR_NONE, p), s1)" "same_part (hd partDef_LPC8xx_11xx) p"
    using lpc810_attached [of "example_isp lpc810_script" partDefUnknown] by auto
  obtain b a z rows where m: "sectorMap1k = (b, a, z) # rows" by (simp add: sectorMap1k_def)
  have "sectorMap p = Some ((b, a, z) # rows)" "numSectors p = 4" "size_loop 0 4 ((b, a, z) # rows) \<noteq> None"
    using p(2) lpc810 by (simp_all add: same_part_def GetFlashSize_def flip: m)
  with p show ?thesis
    by (auto simp: uart_isp_open_def uart_isp_uart_init_def on_isp_def example_isp_env_def example_ctx_def
        example_isp_sys_def uart_isp_calc_flash_size_def)
qed

lemma isp_opened_part_witness:
  "\<exists>ctx s1. uart_isp_open example_isp_env 57600 example_ctx (example_isp_sys example_sys lpc810_script) = Some ((ESP_OK, ctx), s1) \<and>
     (\<exists>q \<in> set partDef. same_part q (cx_part ctx) \<and> 0 < numSectors q) \<and>
     uart_isp_write_chunk example_isp_env ctx (flash_start ctx) (replicate 4096 7) s1 \<noteq> Some (ESP_OK, s1)"
proof -
  obtain ctx s1 where o: "uart_isp_open example_isp_env 57600 example_ctx (example_isp_sys example_sys lpc810_script) = Some ((ESP_OK, ctx), s1)"
    "same_part (hd partDef_LPC8xx_11xx) (cx_part ctx)"
    using example_opened by blast
  obtain q where q: "q \<in> set partDef" "same_part q (cx_part ctx)" "0 < numSectors q"
    and m: "\<And>rows. sectorMap q = Some rows \<Longrightarrow> GetFlashSize q = Some (flash_size ctx) \<and>
      ((\<forall>r \<in> set (take (numSectors q) rows). fst r = 0) \<and> 0 < flashBlockSize q \<and>
        flashBlockSize q dvd unat (flash_size ctx) \<and> length (replicate 4096 7 :: bytes) = unat (flash_size ctx) \<and> ie_block_ok example_isp_env \<longrightarrow>
        uart_isp_write_chunk example_isp_env ctx (flash_start ctx) (replicate 4096 7) s1 \<noteq> Some (ESP_OK, s1))"
    using isp_opened_part [OF o(1), of "replicate 4096 7" s1 s1] by blast
  have f: "sectorMap q = Some sectorMap1k" "numSectors q = 4" "flashBlockSize q = 256"
    using q(2) o(2) lpc810 by (simp_all add: same_part_def)
  then have "flash_size ctx = 0x1000"
    using m [OF f(1)] lpc810(2,3,4) by (simp add: GetFlashSize_def)
  then show ?thesis using m [OF f(1)] f lpc810(7) q o(1) by (auto simp: example_isp_env_def)
qed

lemma ser_kept [simp]:
  "is_ser (u_isp (isp_send c b s)) = is_ser (u_isp s)" "is_ser (u_isp (isp_send_progress pc s)) = is_ser (u_isp s)"
  "is_ser (u_isp (isp_send_step k tot m s)) = is_ser (u_isp s)"
  by (simp_all add: isp_send_def isp_send_progress_def isp_send_step_def isp_step_def Let_def)

text \<open>A target that says nothing is not found.\<close>

lemma read_bytes_nil: "serial_read_bytes n [] = ([], [])"
  by (cases n) simp_all

lemma silent_read: "rx (is_ser s) = [] \<Longrightarrow> LPCISP_SERIAL_ReadBytes 256 s = ([], with_rx s [])"
  by (simp add: LPCISP_SERIAL_ReadBytes_def read_bytes_nil)

lemma silent_sync: "rx (is_ser s) = [] \<Longrightarrow> \<exists>s1. sync_loop write_all f n s = Some (- 1, s1)"
proof (induction n arbitrary: s)
  case (Suc n)
  let ?s = "snd (WriteChar write_all (byte_of CHR ''?'') s)"
  have "rx (is_ser ?s) = []" using Suc.prems by (simp add: WriteChar_def WriteBuffer_def)
  then show ?case using Suc.IH [of "with_rx ?s []"] silent_read [of ?s]
    by (simp add: syncStr_def bytes_of_def)
qed simp

lemma isp_update_outcome_witness:
  "\<exists>e s'. uart_isp_update_start example_isp_env (example_env\<lparr>e_enc_on := False, e_sd_ok := True\<rparr>) example_ctx
      (Some \<lparr>ij_meta = fw_meta_zero, ij_file_name = ''pump'', ij_file_type = ''A05''\<rparr>)
      (example_isp_sys (example_sys\<lparr>sy_fs := [''/sdcard/pump.A05'' \<mapsto> [1, 2, 3, 4]]\<rparr>) []) = Some (e, s') \<and>
    \<not> u_uart s' \<and>
    (if e = ESP_OK then s_step (sy_state (u_fw s')) = FW_STEP_DONE \<and> s_progress (sy_state (u_fw s')) = 100
     else s_step (sy_state (u_fw s')) = FW_STEP_ERROR)"
proof -
  let ?env = "example_env\<lparr>e_enc_on := False, e_sd_ok := True\<rparr>"
  let ?s = "example_isp_sys (example_sys\<lparr>sy_fs := [''/sdcard/pump.A05'' \<mapsto> [1, 2, 3, 4]]\<rparr>) []"
  let ?j = "\<lparr>ij_meta = fw_meta_zero, ij_file_name = ''pump'', ij_file_type = ''A05''\<rparr>"
  obtain r where r: "fw_storage_reader_open ?env ''pump'' ''A05'' [''/sdcard/pump.A05'' \<mapsto> [1, 2, 3, 4]] = Inr r" "\<not> r_encrypted r"
    by (simp add: fw_storage_reader_open_def fw_storage_build_path_def Let_def)
  have op: "\<exists>ctx s1. uart_isp_open example_isp_env b example_ctx s = Some ((ESP_ERR_NOT_FOUND, ctx), s1)"
    if silent: "rx (is_ser (u_isp s)) = []" and off: "\<not> u_uart s" for b s
  proof -
    let ?i = "EnterISPMode True ((u_isp s)\<lparr>is_cfg := (is_cfg (u_isp s))\<lparr>lineTermination := TERM_ANY\<rparr>\<rparr>)"
    obtain s1 where "sync_loop write_all 12000000 100 ?i = Some (- 1, s1)"
      using silent_sync [of ?i 12000000 100] silent by (auto simp: EnterISPMode_def gpio_set_def Let_def)
    then show ?thesis using off
      by (simp add: uart_isp_open_def uart_isp_uart_init_def on_isp_def example_isp_env_def LPCISP_Sync_def
          LPCISP_SERIAL_ChangeBaudRate_def Sync_def Let_def)
  qed
  then obtain C S where "\<And>s b. rx (is_ser (u_isp s)) = [] \<Longrightarrow> \<not> u_uart s \<Longrightarrow>
      uart_isp_open example_isp_env b example_ctx s = Some ((ESP_ERR_NOT_FOUND, C s b), S s b)"
    by metis
  with r have "\<exists>e s'. uart_isp_update_start example_isp_env ?env example_ctx (Some ?j) ?s = Some (e, s')"
    by (simp add: isp_fail_def uart_isp_update_start_def example_isp_sys_def example_isp_def c_copy_def)
  then obtain e s' where "uart_isp_update_start example_isp_env ?env example_ctx (Some ?j) ?s = Some (e, s')"
    by blast
  moreover have "\<not> u_uart ?s" by (simp add: example_isp_sys_def)
  ultimately show ?thesis using isp_update_outcome by blast
qed

end
