(* ===== verification/Ota_Update.thy ===== *)
theory Ota_Update
  imports Fw_Manager Ble_Cmd
begin

text \<open>
  The update of the tool itself (\<open>esp32_update.c\<close>) and the status lines it shows on the console
  (\<open>cli_ota_view.c\<close>). The OTA interface of ESP-IDF is a parameter: whether there is a partition, and the
  results of begin, write, end and the switch of the boot partition, by what was written. Drawing the
  console view is left out. A division by 0 is \<open>None\<close>.
\<close>

section \<open>Console view\<close>

record ota_view =
  ov_active :: bool
  ov_status :: string
  ov_last_cmd :: string
  ov_last_payload :: string

definition cli_ota_view_set_active :: "bool \<Rightarrow> ota_view \<Rightarrow> ota_view" where
  "cli_ota_view_set_active active v =
     (if active then \<lparr>ov_active = True, ov_status = ''Idle'', ov_last_cmd = ''-'', ov_last_payload = ''-''\<rparr>
      else v\<lparr>ov_active := False\<rparr>)"

definition cli_ota_view_set_status :: "string \<Rightarrow> ota_view \<Rightarrow> ota_view" where
  "cli_ota_view_set_status status v =
     (if \<not> ov_active v then v
      else v\<lparr>ov_status := c_copy 32 (if status = [] then ''-'' else status)\<rparr>)"

definition cli_ota_view_set_last_event :: "u16 \<Rightarrow> string \<Rightarrow> ota_view \<Rightarrow> ota_view" where
  "cli_ota_view_set_last_event cmd payload v =
     (if \<not> ov_active v then v
      else v\<lparr>ov_last_cmd := c_copy 16 (''0x'' @ hex_digits 4 (unat cmd)),
             ov_last_payload := (if payload = [] then ''-'' else c_copy 32 payload)\<rparr>)"

section \<open>State\<close>

record ota_env =
  oe_partition :: bool
  oe_begin :: "nat \<Rightarrow> esp_err"
  oe_write :: "bytes \<Rightarrow> bytes \<Rightarrow> esp_err"
  oe_end :: "bytes \<Rightarrow> esp_err"
  oe_set_boot :: esp_err

text \<open>
  The file that was set, the view, the messages, what was written to the partition since the last
  begin, whether its handle is open, whether it is the boot partition, and whether the tool restarts.
\<close>

record ota =
  ot_file :: "(string \<times> string) option"
  ot_skip_reboot :: bool
  ot_fw :: fw_sys
  ot_view :: ota_view
  ot_ble :: "(u16 \<times> bytes) list"
  ot_part :: bytes
  ot_handle :: bool
  ot_boot :: bool
  ot_restart :: bool

definition ota_step :: "fw_step \<Rightarrow> string \<Rightarrow> ota \<Rightarrow> ota" where
  "ota_step st msg s = s\<lparr>ot_fw := set_step st msg (ot_fw s)\<rparr>"

definition ota_send :: "u16 \<Rightarrow> bytes \<Rightarrow> ota \<Rightarrow> ota" where
  "ota_send cmd payload s = s\<lparr>ot_ble := ot_ble s @ [(cmd, payload)]\<rparr>"

definition esp32_update_set_file :: "string \<Rightarrow> string \<Rightarrow> ota \<Rightarrow> bool \<times> ota" where
  "esp32_update_set_file name type s =
     (if name = [] \<or> 64 \<le> length name \<or> length type \<noteq> 3 then (False, s)
      else (True, s\<lparr>ot_file := Some (c_copy 64 name, c_copy 8 type)\<rparr>))"

definition esp32_update_set_skip_reboot :: "bool \<Rightarrow> ota \<Rightarrow> ota" where
  "esp32_update_set_skip_reboot skip s = s\<lparr>ot_skip_reboot := skip\<rparr>"

definition ota_send_status :: "string \<Rightarrow> ota \<Rightarrow> ota" where
  "ota_send_status status s0 =
     (let s = s0\<lparr>ot_view := cli_ota_view_set_status status (ot_view s0)\<rparr>
      in if status = [] then s
         else ota_send ACK_PROGRAM_PROGRESS_MSG_ESP32
                (bytes_of (c_copy 96 (''{\"status\":\"'' @ status @ ''\"}''))) s)"

definition ota_send_progress :: "int \<Rightarrow> ota \<Rightarrow> ota" where
  "ota_send_progress percent0 s =
     (let percent = max 0 (min 100 percent0);
          s1 = s\<lparr>ot_fw := set_progress (of_int percent) (ot_fw s)\<rparr>;
          s2 = ota_send ACK_PROGRAM_PROGRESS_MSG_ESP32
                 (bytes_of (c_copy 64 (''{\"progress\":'' @ dec_str (nat percent) @ ''}''))) s1
      in ota_send ACK_PROGRAM_START_PHONE_ESP32 [of_int percent] s2)"

definition ota_send_step :: "nat \<Rightarrow> nat \<Rightarrow> string \<Rightarrow> ota \<Rightarrow> ota" where
  "ota_send_step step tot message s0 =
     (let s = s0\<lparr>ot_view := cli_ota_view_set_status message (ot_view s0)\<rparr>
      in if message = [] then s
         else let s1 = (if step \<le> 1 then ota_step FW_STEP_PREPARE message s
                        else if step = 2 then ota_step FW_STEP_WRITE message s
                        else if step = 3 \<or> step = 4 then ota_step FW_STEP_VERIFY message s
                        else if tot \<le> step then ota_step FW_STEP_DONE message s
                        else s)
              in ota_send ACK_PROGRAM_PROGRESS_MSG_ESP32
                   (bytes_of (c_copy 128 (''{\"step\":'' @ dec_str step @ '',\"total\":'' @ dec_str tot @
                      '',\"msg\":\"'' @ message @ ''\"}''))) s1)"

section \<open>The update\<close>

text \<open>The percentage is computed in 32 bits and taken for an \<open>int\<close>; it is sent in steps of ten.\<close>

definition ota_percent :: "nat \<Rightarrow> nat \<Rightarrow> int" where
  "ota_percent tot total_size = sint ((of_nat tot * 100 :: u32) div of_nat total_size)"

partial_function (option) ota_loop ::
    "ota_env \<Rightarrow> fw_env \<Rightarrow> nat \<Rightarrow> nat \<Rightarrow> int \<Rightarrow> fw_storage_reader \<Rightarrow> ota \<Rightarrow> (bool \<times> ota) option" where
  "ota_loop oe env total_size tot last_percent r s =
     (let (buf, r1) = fw_storage_reader_read env r 4096
      in if buf = [] then Some (True, s)
         else let ret = oe_write oe (ot_part s) buf
              in if ret \<noteq> ESP_OK
                 then Some (False, ota_send_step 2 5 ''OTA write fail''
                        (ota_step FW_STEP_ERROR ''OTA write fail'' (s\<lparr>ot_handle := False\<rparr>)))
                 else if total_size = 0 then None
                 else let s1 = s\<lparr>ot_part := ot_part s @ buf\<rparr>; tot1 = tot + length buf;
                          percent = ota_percent tot1 total_size
                      in if percent \<noteq> last_percent \<and> percent mod 10 = 0
                         then ota_loop oe env total_size tot1 percent r1 (ota_send_progress percent s1)
                         else ota_loop oe env total_size tot1 last_percent r1 s1)"

text \<open>An error before the partition is touched, and one behind that.\<close>

definition ota_reject :: "string \<Rightarrow> string \<Rightarrow> ota \<Rightarrow> ota option" where
  "ota_reject msg status s = Some (ota_send_status status (ota_step FW_STEP_ERROR msg s))"

definition ota_abort :: "nat \<Rightarrow> string \<Rightarrow> ota \<Rightarrow> ota option" where
  "ota_abort step msg s = Some (ota_send_step step 5 msg (ota_step FW_STEP_ERROR msg s))"

definition ota_finish :: "ota_env \<Rightarrow> ota \<Rightarrow> ota option" where
  "ota_finish oe s0 =
     (let s = ota_send_step 3 5 ''OTA end'' (ota_step FW_STEP_VERIFY ''OTA end'' s0);
          ret = oe_end oe (ot_part s); s = s\<lparr>ot_handle := False\<rparr>
      in if ret \<noteq> ESP_OK then ota_abort 3 ''OTA end fail'' s
         else let s = ota_send_step 4 5 ''Set boot'' (ota_step FW_STEP_VERIFY ''Set boot'' s)
              in if oe_set_boot oe \<noteq> ESP_OK then ota_abort 4 ''Set boot fail'' s
                 else let s = s\<lparr>ot_boot := True\<rparr>;
                          s = ota_send_step 5 5 ''OTA success''
                                (ota_step FW_STEP_DONE ''OTA success'' (ota_send_progress 100 s))
                      in Some (if ot_skip_reboot s then s else s\<lparr>ot_restart := True\<rparr>))"

definition ota_write_image :: "ota_env \<Rightarrow> fw_env \<Rightarrow> fw_storage_reader \<Rightarrow> nat \<Rightarrow> ota \<Rightarrow> ota option" where
  "ota_write_image oe env r total_size s0 =
     (let s = set_progress 0 (set_step FW_STEP_PREPARE ''OTA begin'' (ot_fw s0));
          s = ota_send_step 1 5 ''OTA begin'' (s0\<lparr>ot_fw := s\<rparr>);
          ret = oe_begin oe total_size
      in if ret \<noteq> ESP_OK then ota_abort 1 ''OTA begin fail'' s
         else let s = s\<lparr>ot_part := [], ot_handle := True\<rparr>;
                  s = ota_send_step 2 5 ''OTA write'' (ota_step FW_STEP_WRITE ''OTA write'' s);
                  s = ota_send_progress 0 s
              in case ota_loop oe env total_size 0 (- 1) r s of
                   None \<Rightarrow> None
                 | Some (False, s) \<Rightarrow> Some s
                 | Some (True, s) \<Rightarrow> ota_finish oe s)"

definition esp32_update_start :: "ota_env \<Rightarrow> fw_env \<Rightarrow> ota \<Rightarrow> ota option" where
  "esp32_update_start oe env s =
     (case ot_file s of
        None \<Rightarrow> ota_reject ''OTA file not set'' ''No file'' s
      | Some (name, type) \<Rightarrow>
          if \<not> e_sd_ok env then ota_reject ''SDMMC not ready'' ''SDMMC not ready'' s
          else case fw_storage_reader_open env name type (sy_fs (ot_fw s)) of
            Inl _ \<Rightarrow> ota_reject ''OTA file open fail'' ''Open fail'' s
          | Inr r \<Rightarrow>
              (case (if \<not> r_encrypted r \<or> fm_original_size (r_meta r) = 0
                     then map_option length (sy_fs (ot_fw s) (c_copy 384 (''/sdcard/'' @ name @ ''.'' @ type)))
                     else Some (fm_original_size (r_meta r))) of
                 None \<Rightarrow> ota_reject ''OTA file not found'' ''File not found'' s
               | Some total_size \<Rightarrow>
                   if \<not> oe_partition oe then ota_reject ''No OTA partition'' ''No OTA partition'' s
                   else ota_write_image oe env r total_size s))"

declare ota_loop.simps [simp del]

section \<open>Outcomes\<close>

lemma ota_kept [simp]:
  "ot_part (ota_send c b s) = ot_part s" "ot_part (ota_step st m s) = ot_part s" "ot_part (ota_send_status t s) = ot_part s"
  "ot_part (ota_send_progress pc s) = ot_part s" "ot_part (ota_send_step k tot m s) = ot_part s"
  "ot_boot (ota_send c b s) = ot_boot s" "ot_boot (ota_step st m s) = ot_boot s" "ot_boot (ota_send_status t s) = ot_boot s"
  "ot_boot (ota_send_progress pc s) = ot_boot s" "ot_boot (ota_send_step k tot m s) = ot_boot s"
  "ot_handle (ota_send c b s) = ot_handle s" "ot_handle (ota_step st m s) = ot_handle s" "ot_handle (ota_send_status t s) = ot_handle s"
  "ot_handle (ota_send_progress pc s) = ot_handle s" "ot_handle (ota_send_step k tot m s) = ot_handle s"
  "ot_fw (ota_send c b s) = ot_fw s" "ot_fw (ota_send_status t s) = ot_fw s"
  "ot_fw (ota_step st m s) = set_step st m (ot_fw s)"
  by (simp_all add: ota_send_def ota_step_def ota_send_status_def ota_send_progress_def ota_send_step_def Let_def)

definition ota_at :: "ota \<Rightarrow> fw_step" where
  "ota_at s = s_step (sy_state (ot_fw s))"

lemma ota_at_simps [simp]:
  "ota_at (ota_step st m s) = st" "ota_at (ota_send_status t s) = ota_at s" "ota_at (ota_send_progress pc s) = ota_at s"
  "m \<noteq> [] \<Longrightarrow> ota_at (ota_send_step k 5 m s) =
     (if k \<le> 1 then FW_STEP_PREPARE else if k = 2 then FW_STEP_WRITE else if k = 3 \<or> k = 4 then FW_STEP_VERIFY
      else FW_STEP_DONE)"
  "ota_at (s\<lparr>ot_part := p\<rparr>) = ota_at s" "ota_at (s\<lparr>ot_handle := h\<rparr>) = ota_at s" "ota_at (s\<lparr>ot_boot := b\<rparr>) = ota_at s"
  "ota_at (s\<lparr>ot_restart := b\<rparr>) = ota_at s"
  by (auto simp: ota_at_def ota_step_def ota_send_def ota_send_status_def ota_send_progress_def ota_send_step_def
      set_step_def set_progress_def fw_state_set_step_def fw_state_set_progress_def Let_def)

lemma ota_loop_whole:
  assumes "reader_ok env r" "ota_loop oe env n k lp r s = Some (ok, s')"
  shows "ot_boot s' = ot_boot s \<and> (ok \<longrightarrow> ot_part s' = ot_part s @ reader_rest env r \<and> ota_at s' = ota_at s) \<and>
    (\<not> ok \<longrightarrow> \<not> ot_handle s' \<and> ota_at s' = FW_STEP_WRITE)"
  using assms
proof (induction "reader_left r" arbitrary: r s k lp rule: less_induct)
  case less
  obtain buf r1 where rd: "fw_storage_reader_read env r 4096 = (buf, r1)" by (rule prod.exhaust)
  have sp: "reader_rest env r = buf @ reader_rest env r1" "reader_ok env r1" "buf = [] \<Longrightarrow> reader_rest env r = []"
    using storage.rd_split [OF less.prems(1), of 4096] storage.rd_ok [OF less.prems(1), of 4096]
      storage.rd_progress [OF less.prems(1), of 4096] rd by auto
  show ?case
  proof (cases "buf = [] \<or> oe_write oe (ot_part s) buf \<noteq> ESP_OK")
    case True
    with less.prems(2) rd sp(3) show ?thesis
      by (subst (asm) ota_loop.simps) (auto simp: Let_def split: if_splits)
  next
    case False
    then have "reader_left r1 < reader_left r" using reader_read_left [OF rd] by simp
    note ih = less.hyps [OF this sp(2)]
    show ?thesis using False less.prems(2) rd sp(1)
      by (subst (asm) ota_loop.simps) (auto simp: Let_def dest!: ih split: if_splits)
  qed
qed

lemma ota_loop_returns: "(n = 0 \<Longrightarrow> reader_left r = 0) \<Longrightarrow> ota_loop oe env n k lp r s \<noteq> None"
proof (induction "reader_left r" arbitrary: r s k lp rule: less_induct)
  case less
  obtain buf r1 where rd: "fw_storage_reader_read env r 4096 = (buf, r1)" by (rule prod.exhaust)
  show ?case
  proof (cases "buf = []")
    case True
    with rd show ?thesis by (subst ota_loop.simps) simp
  next
    case False
    note l = reader_read_left [OF rd False]
    with less.prems have "n \<noteq> 0" by auto
    with less.hyps [OF l] rd False show ?thesis
      by (subst ota_loop.simps) (auto simp: Let_def)
  qed
qed


text \<open>The loop, whatever the cipher does.\<close>

lemma ota_loop_frame:
  "ota_loop oe env n k lp r s = Some (ok, s') \<Longrightarrow> ot_boot s' = ot_boot s \<and>
    (if ok then ot_handle s' = ot_handle s \<and> ota_at s' = ota_at s else \<not> ot_handle s' \<and> ota_at s' = FW_STEP_WRITE)"
proof (induction "reader_left r" arbitrary: r s k lp rule: less_induct)
  case less
  obtain buf r1 where rd: "fw_storage_reader_read env r 4096 = (buf, r1)" by (rule prod.exhaust)
  show ?case
  proof (cases "buf = [] \<or> oe_write oe (ot_part s) buf \<noteq> ESP_OK")
    case True
    with less.prems rd show ?thesis
      by (subst (asm) ota_loop.simps) (auto simp: Let_def split: if_splits)
  next
    case False
    then have "reader_left r1 < reader_left r" using reader_read_left [OF rd] by simp
    note ih = less.hyps [OF this]
    show ?thesis using False less.prems rd
      by (subst (asm) ota_loop.simps) (fastforce simp: Let_def dest!: ih split: if_splits)
  qed
qed

definition ota_ended :: "ota \<Rightarrow> ota \<Rightarrow> bool" where
  "ota_ended s s' \<longleftrightarrow> \<not> ot_handle s' \<and>
     (ot_boot s' = ot_boot s \<and> ota_at s' \<in> {FW_STEP_PREPARE, FW_STEP_WRITE, FW_STEP_VERIFY} \<or>
      ot_boot s' \<and> ota_at s' = FW_STEP_DONE)"

lemma ota_finish_ended: "\<exists>s'. ota_finish oe s = Some s' \<and> ota_ended s s'"
  by (simp add: ota_finish_def ota_abort_def ota_ended_def Let_def)

lemma ota_write_image_ended:
  assumes "\<not> ot_handle s" "n = 0 \<Longrightarrow> reader_left r = 0"
  shows "\<exists>s'. ota_write_image oe env r n s = Some s' \<and> ota_ended s s'"
proof (cases "oe_begin oe n = ESP_OK")
  case False
  then show ?thesis using assms(1) by (simp add: ota_write_image_def ota_abort_def ota_ended_def Let_def)
next
  case True
  define s1 where "s1 = ota_send_step 1 5 ''OTA begin'' (s\<lparr>ot_fw := set_progress 0 (set_step FW_STEP_PREPARE ''OTA begin'' (ot_fw s))\<rparr>)"
  define s2 where "s2 = ota_send_progress 0 (ota_send_step 2 5 ''OTA write'' (ota_step FW_STEP_WRITE ''OTA write''
    (s1\<lparr>ot_part := [], ot_handle := True\<rparr>)))"
  obtain ok s3 where l: "ota_loop oe env n 0 (- 1) r s2 = Some (ok, s3)"
    using ota_loop_returns [of n r oe env 0 "- 1" s2] assms(2) by auto
  have "ot_boot s2 = ot_boot s" by (simp add: s2_def s1_def)
  with ota_loop_frame [OF l] obtain s' where
    "(if ok then ota_finish oe s3 else Some s3) = Some s'" "ota_ended s s'"
    using ota_finish_ended [of oe s3] by (cases ok) (auto simp: ota_ended_def)
  with True l show ?thesis
    by (cases ok) (auto simp: ota_write_image_def Let_def s2_def s1_def)
qed

text \<open>The update gets as far as the partition: a file is set and opens, and there is a partition.\<close>

definition ota_admitted :: "ota_env \<Rightarrow> fw_env \<Rightarrow> ota \<Rightarrow> bool" where
  "ota_admitted oe env s \<longleftrightarrow> oe_partition oe \<and>
     (case ot_file s of None \<Rightarrow> False
      | Some (name, type) \<Rightarrow> (case fw_storage_reader_open env name type (sy_fs (ot_fw s)) of Inl _ \<Rightarrow> False | Inr _ \<Rightarrow> True))"

lemma open_facts:
  assumes "fw_storage_reader_open env name type fs = Inr r"
  shows "e_sd_ok env" "\<exists>d. fs (c_copy 384 (''/sdcard/'' @ name @ ''.'' @ type)) = Some d \<and> r_file r = d"
    "r_encrypted r \<Longrightarrow> r_remaining r = fm_original_size (r_meta r)"
proof -
  obtain p where p: "fw_storage_build_path 384 name type = Some p" "e_sd_ok env"
    using assms by (auto simp: fw_storage_reader_open_def Let_def split: if_split_asm option.split_asm)
  then have c: "c_copy 384 (''/sdcard/'' @ name @ ''.'' @ type) = p"
    unfolding fw_storage_build_path_def Let_def by (metis c_copy_id option.distinct(1) option.inject)
  show "e_sd_ok env" by (rule p(2))
  show "\<exists>d. fs (c_copy 384 (''/sdcard/'' @ name @ ''.'' @ type)) = Some d \<and> r_file r = d"
    unfolding c using assms p by (auto simp: fw_storage_reader_open_def Let_def split: if_split_asm option.split_asm)
  show "r_encrypted r \<Longrightarrow> r_remaining r = fm_original_size (r_meta r)"
    using assms p by (auto simp: fw_storage_reader_open_def Let_def split: if_split_asm option.split_asm)
qed

lemma ota_rejected:
  "\<not> ot_handle s \<Longrightarrow> \<not> ot_boot s \<Longrightarrow>
   \<exists>s'. ota_reject m t s = Some s' \<and> \<not> ot_handle s' \<and> \<not> ot_boot s' \<and> ota_at s' = FW_STEP_ERROR"
  by (simp add: ota_reject_def)

lemma ota_update_ended:
  assumes "\<not> ot_handle s" "\<not> ot_boot s"
  shows "\<exists>s'. esp32_update_start oe env s = Some s' \<and> \<not> ot_handle s' \<and>
    (if ota_admitted oe env s
     then ota_at s' \<in> (if ot_boot s' then {FW_STEP_DONE} else {FW_STEP_PREPARE, FW_STEP_WRITE, FW_STEP_VERIFY})
     else \<not> ot_boot s' \<and> ota_at s' = FW_STEP_ERROR)"
proof (cases "ota_admitted oe env s")
  case False
  note rej = ota_rejected [OF assms]
  show ?thesis
  proof (cases "ot_file s")
    case None
    then show ?thesis using False rej by (simp add: esp32_update_start_def)
  next
    case (Some f)
    obtain name type where f: "f = (name, type)" by (cases f)
    show ?thesis
    proof (cases "fw_storage_reader_open env name type (sy_fs (ot_fw s))")
      case (Inl e)
      then show ?thesis using False Some f rej by (simp add: esp32_update_start_def)
    next
      case (Inr r)
      with False Some f have "\<not> oe_partition oe" by (simp add: ota_admitted_def)
      then show ?thesis using False Some f rej Inr open_facts(1) [OF Inr]
        by (simp add: esp32_update_start_def split: option.split)
    qed
  qed
next
  case True
  then obtain name type where nt: "ot_file s = Some (name, type)"
    by (cases "ot_file s") (auto simp: ota_admitted_def)
  with True obtain r where "fw_storage_reader_open env name type (sy_fs (ot_fw s)) = Inr r"
    by (cases "fw_storage_reader_open env name type (sy_fs (ot_fw s))") (auto simp: ota_admitted_def)
  with True nt have f: "ot_file s = Some (name, type)" "oe_partition oe"
    "fw_storage_reader_open env name type (sy_fs (ot_fw s)) = Inr r"
    by (auto simp: ota_admitted_def)
  note o = open_facts [OF f(3)]
  obtain d where d: "sy_fs (ot_fw s) (c_copy 384 (''/sdcard/'' @ name @ ''.'' @ type)) = Some d" "r_file r = d"
    using o(2) by blast
  define n where "n = (if \<not> r_encrypted r \<or> fm_original_size (r_meta r) = 0 then length d else fm_original_size (r_meta r))"
  have "n = 0 \<Longrightarrow> reader_left r = 0"
    using o(3) d(2) by (auto simp: n_def reader_left_def split: if_splits)
  from ota_write_image_ended [OF assms(1) this] obtain s' where s': "ota_write_image oe env r n s = Some s'" "ota_ended s s'"
    by blast
  have "esp32_update_start oe env s = ota_write_image oe env r n s"
    using f o(1) d(1) by (simp add: esp32_update_start_def n_def)
  with s' True assms(2) show ?thesis by (auto simp: ota_ended_def)
qed



text \<open>C34: Only a whole image is booted. If an update switches the boot partition, then a file was set and
  could be opened, the partition holds exactly what its reader delivers (the decrypted content
  for an encrypted file), and the check of the image at the end accepted just that.\<close>

theorem ota_boots_whole_image:
  assumes "\<forall>key. aes_dec_total env key" "\<not> ot_boot s" "esp32_update_start oe env s = Some s'" "ot_boot s'"
  shows "\<exists>name type r. ot_file s = Some (name, type) \<and> fw_storage_reader_open env name type (sy_fs (ot_fw s)) = Inr r \<and>
    ot_part s' = reader_rest env r \<and> oe_end oe (reader_rest env r) = ESP_OK \<and> oe_set_boot oe = ESP_OK"
proof -
  have rej: "ota_reject m t s \<noteq> Some s'" for m t
    using assms(2,4) by (auto simp: ota_reject_def)
  obtain name type where f: "ot_file s = Some (name, type)"
    using assms(3) rej by (cases "ot_file s") (auto simp: esp32_update_start_def)
  obtain r n where r: "fw_storage_reader_open env name type (sy_fs (ot_fw s)) = Inr r"
    "ota_write_image oe env r n s = Some s'"
    using assms(3) rej f
    by (auto simp: esp32_update_start_def split: if_split_asm option.split_asm sum.split_asm)
  define s2 where "s2 = ota_send_progress 0 (ota_send_step 2 5 ''OTA write'' (ota_step FW_STEP_WRITE ''OTA write''
    (ota_send_step 1 5 ''OTA begin'' (s\<lparr>ot_fw := set_progress 0 (set_step FW_STEP_PREPARE ''OTA begin'' (ot_fw s))\<rparr>)
      \<lparr>ot_part := [], ot_handle := True\<rparr>)))"
  have s2: "ot_part s2 = []" "ot_boot s2 = ot_boot s" by (simp_all add: s2_def)
  obtain ok s3 where l: "ota_loop oe env n 0 (- 1) r s2 = Some (ok, s3)"
    "(if ok then ota_finish oe s3 else Some s3) = Some s'"
    using r(2) assms(2,4) by (auto simp: ota_write_image_def ota_abort_def s2_def Let_def split: if_split_asm option.split_asm prod.split_asm bool.split_asm)
  have "reader_ok env r" using assms(1) by (simp add: reader_ok_def)
  note w = ota_loop_whole [OF this l(1)]
  have ok using l(2) w assms(2,4) s2(2) by (cases ok) auto
  then have "ota_finish oe s3 = Some s'" "ot_part s3 = reader_rest env r" "\<not> ot_boot s3"
    using l(2) w s2 assms(2) by auto
  then have "ot_part s' = reader_rest env r \<and> oe_end oe (reader_rest env r) = ESP_OK \<and> oe_set_boot oe = ESP_OK"
    using assms(4) by (auto simp: ota_finish_def ota_abort_def Let_def split: if_split_asm)
  with f r(1) show ?thesis by blast
qed

section \<open>Witnesses\<close>

definition example_ota_env :: ota_env where
  "example_ota_env = \<lparr>oe_partition = True, oe_begin = (\<lambda>_. ESP_OK), oe_write = (\<lambda>_ _. ESP_OK),
     oe_end = (\<lambda>d. if d = [0xE9, 1, 2] then ESP_OK else ESP_FAIL), oe_set_boot = ESP_OK\<rparr>"

definition example_ota :: "bytes \<Rightarrow> ota" where
  "example_ota img = \<lparr>ot_file = Some (''tool'', ''A00''), ot_skip_reboot = False,
     ot_fw = example_sys\<lparr>sy_fs := [''/sdcard/tool.A00'' \<mapsto> img]\<rparr>,
     ot_view = \<lparr>ov_active = False, ov_status = [], ov_last_cmd = [], ov_last_payload = []\<rparr>,
     ot_ble = [], ot_part = [], ot_handle = False, ot_boot = False, ot_restart = False\<rparr>"

definition plain_env :: fw_env where
  "plain_env = example_env\<lparr>e_enc_on := False, e_sd_ok := True\<rparr>"

lemma example_fields:
  "e_sd_ok plain_env" "oe_partition example_ota_env" "ot_file (example_ota img) = Some (''tool'', ''A00'')"
  "sy_fs (ot_fw (example_ota img)) = [''/sdcard/tool.A00'' \<mapsto> img]"
  by (simp_all add: plain_env_def example_ota_env_def example_ota_def)

lemma example_ota_open:
  "\<exists>r. fw_storage_reader_open plain_env ''tool'' ''A00'' [''/sdcard/tool.A00'' \<mapsto> img] = Inr r \<and>
     r_active r \<and> \<not> r_encrypted r \<and> r_file r = img"
  by (simp add: fw_storage_reader_open_def fw_storage_build_path_def plain_env_def Let_def)


lemma ota_boots_whole_image_witness:
  "\<exists>s'. esp32_update_start example_ota_env plain_env (example_ota [0xE9, 1, 2]) = Some s' \<and> ot_boot s' \<and>
     (\<exists>name type r. ot_file (example_ota [0xE9, 1, 2]) = Some (name, type) \<and> ot_part s' = reader_rest plain_env r)"
proof -
  let ?s = "example_ota [0xE9, 1, 2]"
  obtain r where r: "fw_storage_reader_open plain_env ''tool'' ''A00'' [''/sdcard/tool.A00'' \<mapsto> [0xE9, 1, 2]] = Inr r"
    "r_active r" "\<not> r_encrypted r" "r_file r = [0xE9, 1, 2]"
    using example_ota_open by blast
  have aes: "\<forall>key. aes_dec_total plain_env key"
    by (simp add: aes_dec_total_def plain_env_def example_env_def)
  have e: "ota_loop example_ota_env plain_env 3 k lp (r\<lparr>r_file := []\<rparr>) s = Some (True, s)" for k lp s
    using r by (subst ota_loop.simps) (simp add: fw_storage_reader_read_def)
  have l: "\<exists>s1. ota_loop example_ota_env plain_env 3 0 (- 1) r s = Some (True, s1)" for s
    using r e by (subst ota_loop.simps) (simp add: fw_storage_reader_read_def example_ota_env_def Let_def)
  define s2 where "s2 = ota_send_progress 0 (ota_send_step 2 5 ''OTA write'' (ota_step FW_STEP_WRITE ''OTA write''
    (ota_send_step 1 5 ''OTA begin'' (?s\<lparr>ot_fw := set_progress 0 (set_step FW_STEP_PREPARE ''OTA begin'' (ot_fw ?s))\<rparr>)
      \<lparr>ot_part := [], ot_handle := True\<rparr>)))"
  obtain s3 where s3: "ota_loop example_ota_env plain_env 3 0 (- 1) r s2 = Some (True, s3)" using l by blast
  have "reader_ok plain_env r" using r by (simp add: reader_ok_def)
  from ota_loop_whole [OF this s3] have p3: "ot_part s3 = [0xE9, 1, 2]"
    using r by (simp add: reader_rest_def s2_def)
  have "\<exists>s'. ota_finish example_ota_env s3 = Some s' \<and> ot_boot s'"
    by (simp add: ota_finish_def p3 example_ota_env_def Let_def)
  then obtain s' where f: "ota_finish example_ota_env s3 = Some s'" "ot_boot s'" by blast
  have "esp32_update_start example_ota_env plain_env ?s = ota_write_image example_ota_env plain_env r 3 ?s"
    using r example_fields by (simp add: esp32_update_start_def c_copy_def eval_nat_numeral)
  moreover have "ota_write_image example_ota_env plain_env r 3 ?s = Some s'"
    using s3 f(1) by (simp add: ota_write_image_def s2_def Let_def) (simp add: example_ota_env_def)
  ultimately have run: "esp32_update_start example_ota_env plain_env ?s = Some s'" by simp
  have "\<not> ot_boot ?s" by (simp add: example_ota_def)
  from ota_boots_whole_image [OF aes this run f(2)] run f(2) show ?thesis by blast
qed

end
