(* ===== verification/Update_Worker.thy ===== *)
theory Update_Worker
  imports Stm32_Boot Uart_Isp Probe_Link Ota_Update
begin

text \<open>
  The worker with its updaters: the functions of \<open>fw_update_worker.c\<close> that open the stored file of a
  job and run the updater of its target, and the rounds of the worker task over the state of all
  devices. The queue, the preparation and the choice of the updater are those of \<open>Fw_Manager\<close>.
\<close>

section \<open>State\<close>

record device =
  dv_fw :: fw_sys
  dv_ota :: ota
  dv_can :: can
  dv_isp :: isp
  dv_uart :: bool
  dv_probe :: probe
  dv_stm :: serial

text \<open>What lies outside: storage, allocation, the drivers, and memory behind buffers.\<close>

record exec_env =
  xe_fw :: fw_env
  xe_ihex_io :: "u32 \<Rightarrow> bytes \<Rightarrow> nat option"
  xe_ihex_junk :: bytes
  xe_malloc :: "nat \<Rightarrow> bool"
  xe_ota :: ota_env
  xe_can :: can_env
  xe_can_mem :: bytes
  xe_isp :: isp_env
  xe_isp_ctx :: uart_isp_ctx
  xe_probe :: write_result
  xe_stm :: write_result

definition dv_step :: "fw_step \<Rightarrow> string \<Rightarrow> device \<Rightarrow> device" where
  "dv_step st msg d = d\<lparr>dv_fw := set_step st msg (dv_fw d)\<rparr>"

section \<open>Execution\<close>

text \<open>The option \<open>reboot\<close> of the meta data.\<close>

definition ota_job_options :: "exec_env \<Rightarrow> fw_job \<Rightarrow> ota \<Rightarrow> ota" where
  "ota_job_options xe job s =
     (if fm_meta_json (jb_meta job) = [] then s
      else case e_json_parse (xe_fw xe) (bytes_of (fm_meta_json (jb_meta job))) of
             None \<Rightarrow> s
           | Some root \<Rightarrow>
               (case root ''reboot'' of Some (JBool b) \<Rightarrow> esp32_update_set_skip_reboot (\<not> b) s | _ \<Rightarrow> s))"

definition fw_update_exec_ota :: "exec_env \<Rightarrow> fw_job \<Rightarrow> device \<Rightarrow> (esp_err \<times> device) option" where
  "fw_update_exec_ota xe job d =
     (let o1 = ota_job_options xe job ((dv_ota d)\<lparr>ot_fw := dv_fw d\<rparr>);
          (ok, o2) = esp32_update_set_file (jb_file_name job) (jb_file_type job) o1
      in if \<not> ok then Some (ESP_FAIL, dv_step FW_STEP_ERROR ''OTA file invalid'' (d\<lparr>dv_ota := o2, dv_fw := ot_fw o2\<rparr>))
         else map_option (\<lambda>o3. (ESP_OK, d\<lparr>dv_ota := o3, dv_fw := ot_fw o3\<rparr>))
                (esp32_update_start (xe_ota xe) (xe_fw xe) o2))"

definition fw_update_exec_unknown :: "device \<Rightarrow> (esp_err \<times> device) option" where
  "fw_update_exec_unknown d = Some (ESP_ERR_NOT_SUPPORTED, dv_step FW_STEP_ERROR ''unknown exec'' d)"

text \<open>Opening the file of a job, for the updaters that work on a reader.\<close>

definition with_job_file ::
    "exec_env \<Rightarrow> fw_job \<Rightarrow> device \<Rightarrow> (fw_storage_reader \<Rightarrow> (esp_err \<times> device) option) \<Rightarrow> (esp_err \<times> device) option" where
  "with_job_file xe job d f =
     (if \<not> e_sd_ok (xe_fw xe) then Some (ESP_FAIL, dv_step FW_STEP_ERROR ''SDMMC not ready'' d)
      else case fw_storage_reader_open (xe_fw xe) (jb_file_name job) (jb_file_type job) (sy_fs (dv_fw d)) of
             Inl _ \<Rightarrow> Some (ESP_FAIL, dv_step FW_STEP_ERROR ''file open fail'' d)
           | Inr r \<Rightarrow> f r)"

definition fw_update_exec_can :: "exec_env \<Rightarrow> fw_job \<Rightarrow> device \<Rightarrow> (esp_err \<times> device) option" where
  "fw_update_exec_can xe job d =
     with_job_file xe job d
       (\<lambda>r. map_option (\<lambda>(ret, c, fw). (ret, d\<lparr>dv_can := c, dv_fw := fw\<rparr>))
          (can_fw_update_from_reader (xe_can xe) (xe_can_mem xe) (xe_malloc xe) (xe_fw xe) (jb_meta job) r
             (dv_can d, dv_fw d)))"

definition fw_update_exec_uart :: "exec_env \<Rightarrow> fw_job \<Rightarrow> device \<Rightarrow> (esp_err \<times> device) option" where
  "fw_update_exec_uart xe job d =
     (case uart_isp_update_set_file (jb_meta job) (jb_file_name job) (jb_file_type job) of
        None \<Rightarrow> Some (ESP_FAIL, dv_step FW_STEP_ERROR ''UART ISP file invalid'' d)
      | Some j \<Rightarrow>
          map_option (\<lambda>(ret, u). (ret, d\<lparr>dv_isp := u_isp u, dv_fw := u_fw u, dv_uart := u_uart u\<rparr>))
            (uart_isp_update_start (xe_isp xe) (xe_fw xe) (xe_isp_ctx xe) (Some j)
               \<lparr>u_isp = dv_isp d, u_fw = dv_fw d, u_uart = dv_uart d\<rparr>))"

definition fw_update_exec_stm32_uart :: "exec_env \<Rightarrow> fw_job \<Rightarrow> device \<Rightarrow> (esp_err \<times> device) option" where
  "fw_update_exec_stm32_uart xe job d =
     map_option (\<lambda>(ret, s). (ret, d\<lparr>dv_stm := s\<rparr>))
       (stm32_update_start (xe_stm xe) (xe_fw xe)
          (stm32_update_set_file (jb_meta job) (jb_file_name job) (jb_file_type job)) (sy_fs (dv_fw d)) (dv_stm d))"

definition fw_update_exec_swd :: "exec_env \<Rightarrow> fw_job \<Rightarrow> device \<Rightarrow> (esp_err \<times> device) option" where
  "fw_update_exec_swd xe job d =
     with_job_file xe job d
       (\<lambda>r. map_option (\<lambda>(ret, p, fw). (ret, d\<lparr>dv_probe := p, dv_fw := fw\<rparr>))
          (probe_link_update_from_reader (xe_probe xe) (xe_fw xe) (jb_meta job) r (dv_probe d) (dv_fw d)))"

definition fw_update_exec_jtag :: "exec_env \<Rightarrow> fw_job \<Rightarrow> device \<Rightarrow> (esp_err \<times> device) option" where
  "fw_update_exec_jtag xe job d = fw_update_exec_swd xe job d"

fun fw_update_exec :: "exec_env \<Rightarrow> fw_exec_call \<Rightarrow> fw_job \<Rightarrow> device \<Rightarrow> (esp_err \<times> device) option" where
  "fw_update_exec xe Call_Ota job d = fw_update_exec_ota xe job d"
| "fw_update_exec xe Call_Can job d = fw_update_exec_can xe job d"
| "fw_update_exec xe Call_Uart_Isp job d = fw_update_exec_uart xe job d"
| "fw_update_exec xe Call_Stm32 job d = fw_update_exec_stm32_uart xe job d"
| "fw_update_exec xe Call_Swd job d = fw_update_exec_swd xe job d"
| "fw_update_exec xe Call_Jtag job d = fw_update_exec_jtag xe job d"
| "fw_update_exec xe Call_Packaged job d =
     map_option (\<lambda>((ret, _), fw). (ret, d\<lparr>dv_fw := fw\<rparr>))
       (fw_update_exec_packaged (xe_malloc xe) (xe_fw xe) job (dv_fw d))"
| "fw_update_exec xe Call_Unknown job d = fw_update_exec_unknown d"

text \<open>One round of the task: a job is taken, prepared and executed; results are not looked at.\<close>

definition fw_update_worker_task :: "exec_env \<Rightarrow> device \<Rightarrow> device option" where
  "fw_update_worker_task xe d =
     (case fw_update_worker_step (xe_fw xe) (xe_ihex_io xe) (xe_ihex_junk xe) (dv_fw d) of
        None \<Rightarrow> None
      | Some (fw, calls) \<Rightarrow>
          (case calls of
             [] \<Rightarrow> Some (d\<lparr>dv_fw := fw\<rparr>)
           | (call, job) # _ \<Rightarrow> map_option snd (fw_update_exec xe call job (d\<lparr>dv_fw := fw\<rparr>))))"

fun device_step :: "exec_env \<Rightarrow> device \<Rightarrow> worker_event \<Rightarrow> (device \<times> unit list) option" where
  "device_step xe d (Enqueue m name type) =
     Some (d\<lparr>dv_fw := snd (fw_update_enqueue_job m name type (dv_fw d))\<rparr>, [])"
| "device_step xe d Work = map_option (\<lambda>d1. (d1, [])) (fw_update_worker_task xe d)"

section \<open>What the updaters keep\<close>

lemma set_progress_queue [simp]: "sy_queue (set_progress p s) = sy_queue s"
  by (simp add: set_progress_def)

lemma can_erase_queue: "can_erase_loop env t is cs = (r, c, s) \<Longrightarrow> sy_queue s = sy_queue (snd cs)"
  by (induction env t "is" cs rule: can_erase_loop.induct) (auto simp: Let_def split: prod.splits if_splits)

lemma can_write_queue: "can_write_loop env t sz mem offs f (c0, s0) = Some (r, c, s) \<Longrightarrow> sy_queue s = sy_queue s0"
proof (induction "sz - offs" arbitrary: mem offs f c0 s0 rule: less_induct)
  case less
  have ih: "can_write_loop env t sz m (offs + length (take n f)) g (c1, s1) = Some (r, c, s) \<Longrightarrow>
      offs < sz \<Longrightarrow> f \<noteq> [] \<Longrightarrow> 0 < n \<Longrightarrow> sy_queue s = sy_queue s1" for n m g c1 s1
  proof -
    assume a: "can_write_loop env t sz m (offs + length (take n f)) g (c1, s1) = Some (r, c, s)"
      "offs < sz" "f \<noteq> []" "0 < n"
    then have "sz - (offs + length (take n f)) < sz - offs" by (intro diff_less_mono2) auto
    then show ?thesis using less.hyps a(1) by auto
  qed
  have "0 < SIZE_FLASH_ONE_PAGE" by (simp add: SIZE_FLASH_ONE_PAGE_def)
  with less.prems show ?case
    by (subst (asm) can_write_loop.simps)
      (auto simp: Let_def simp del: length_take split: prod.split_asm option.split_asm if_split_asm dest!: ih)
qed

lemma can_send_queue:
  "can_send_file env mem f sz t b (c0, s0) = Some (r, c, s) \<Longrightarrow> sy_queue s = sy_queue s0"
  by (auto simp: can_send_file_def Let_def split: prod.split_asm if_split_asm option.split_asm
      dest!: can_erase_queue can_write_queue)

lemma can_update_queue:
  "can_fw_update_from_reader ce mem ok env m rd (c0, s0) = Some (r, c, s) \<Longrightarrow> sy_queue s = sy_queue s0"
  by (auto simp: can_fw_update_from_reader_def Let_def split: prod.split_asm if_split_asm option.split_asm
      dest!: can_send_queue)

lemma on_isp_fw: "on_isp f s = Some (r, s') \<Longrightarrow> u_fw s' = u_fw s"
  by (auto simp: on_isp_def)

lemma isp_queue_kept [simp]:
  "sy_queue (u_fw (isp_send_step k tot m s)) = sy_queue (u_fw s)" "sy_queue (u_fw (uart_isp_close s)) = sy_queue (u_fw s)"
  by (simp_all add: isp_send_step_def uart_isp_close_def Let_def)

lemma open_queue: "uart_isp_open ie b ctx s = Some (r, s') \<Longrightarrow> u_fw s' = u_fw s"
  by (auto simp: uart_isp_open_def uart_isp_uart_init_def bind_eq_Some_conv dest!: on_isp_fw
      split: if_split_asm option.split_asm list.split_asm)

lemma erase_queue: "erase_loop ie p i n rows sec bank s = Some (e, s') \<Longrightarrow> u_fw s' = u_fw s"
  by (induction ie p i n rows sec bank s rule: erase_loop.induct)
    (auto simp: Let_def dest!: on_isp_fw split: option.split_asm if_split_asm)

lemma erase_all_queue: "uart_isp_erase_all ie ctx s = Some (e, s') \<Longrightarrow> u_fw s' = u_fw s"
  by (auto simp: uart_isp_erase_all_def dest: erase_queue split: option.split_asm if_split_asm)

lemma chunk_queue: "uart_isp_write_chunk ie ctx a d s = Some (e, s') \<Longrightarrow> u_fw s' = u_fw s"
  by (auto simp: uart_isp_write_chunk_def bind_eq_Some_conv dest!: on_isp_fw split: if_split_asm)

lemma image_queue: "isp_write_image ie env ctx rd n s = Some (e, s') \<Longrightarrow> sy_queue (u_fw s') = sy_queue (u_fw s)"
  by (auto simp: isp_write_image_def Let_def dest!: chunk_queue split: option.split_asm if_split_asm)

lemma isp_update_queue:
  "uart_isp_update_start ie env ctx job s = Some (e, s') \<Longrightarrow> sy_queue (u_fw s') = sy_queue (u_fw s)"
  by (auto simp: uart_isp_update_start_def Let_def dest!: open_queue erase_all_queue image_queue
      split: option.split_asm if_split_asm sum.split_asm)


lemma ota_queue_kept [simp]:
  "sy_queue (ot_fw (ota_send_step k tot m s)) = sy_queue (ot_fw s)"
  "sy_queue (ot_fw (ota_send_progress pc s)) = sy_queue (ot_fw s)"
  by (simp_all add: ota_send_step_def ota_send_progress_def ota_send_def ota_step_def Let_def)

lemma ota_loop_queue: "ota_loop oe env n k lp r s = Some (ok, s') \<Longrightarrow> sy_queue (ot_fw s') = sy_queue (ot_fw s)"
proof (induction "reader_left r" arbitrary: r s k lp rule: less_induct)
  case less
  obtain buf r1 where rd: "fw_storage_reader_read env r 4096 = (buf, r1)" by (rule prod.exhaust)
  have ih: "ota_loop oe env n k lp r1 s = Some (ok, s') \<Longrightarrow> buf \<noteq> [] \<Longrightarrow> sy_queue (ot_fw s') = sy_queue (ot_fw s)" for k lp s
    using less.hyps reader_read_left [OF rd] by blast
  show ?case using less.prems rd
    by (subst (asm) ota_loop.simps) (auto simp: Let_def dest!: ih split: if_split_asm)
qed

lemma ota_update_queue: "esp32_update_start oe env s = Some s' \<Longrightarrow> sy_queue (ot_fw s') = sy_queue (ot_fw s)"
  by (auto simp: esp32_update_start_def ota_reject_def ota_abort_def ota_write_image_def ota_finish_def Let_def
      dest!: ota_loop_queue split: option.split_asm if_split_asm sum.split_asm prod.split_asm bool.split_asm)

lemma read_progress_queue [simp]: "sy_queue (read_progress k n s) = sy_queue s"
  by (simp add: read_progress_def)

lemma dry_queue: "probe_dry_loop env r n k s = Some s' \<Longrightarrow> sy_queue s' = sy_queue s"
proof (induction "reader_left r" arbitrary: r s k rule: less_induct)
  case less
  obtain buf r1 where rd: "fw_storage_reader_read env r 1024 = (buf, r1)" by (rule prod.exhaust)
  show ?case using less.prems rd less.hyps reader_read_left [OF rd]
    by (subst (asm) probe_dry_loop.simps) (fastforce split: if_split_asm)
qed

lemma probe_write_queue:
  "probe_write_loop w env r a n k p s = Some (e, p', s') \<Longrightarrow> sy_queue s' = sy_queue s"
proof (induction "reader_left r" arbitrary: r a p s k rule: less_induct)
  case less
  obtain buf r1 where rd: "fw_storage_reader_read env r 256 = (buf, r1)" by (rule prod.exhaust)
  have ih: "probe_write_loop w env r1 a n k p s = Some (e, p', s') \<Longrightarrow> buf \<noteq> [] \<Longrightarrow> sy_queue s' = sy_queue s" for a k p s
    using less.hyps reader_read_left [OF rd] by blast
  show ?case using less.prems rd
    by (subst (asm) probe_write_loop.simps) (auto dest!: ih split: if_split_asm prod.split_asm sum.split_asm)
qed

lemma transport_closed [simp]: "\<not> pl_open (probe_link_transport_close s)"
  by (simp add: probe_link_transport_close_def)

lemma probe_open_ok [simp]: "fst (probe_link_transport_open s) = ESP_OK"
  by (simp add: probe_link_transport_open_def)

lemma probe_program_kept:
  "probe_program w env cfg r p s = Some (e, p', s') \<Longrightarrow> sy_queue s' = sy_queue s \<and> \<not> pl_open p'"
  unfolding probe_program_def probe_fail_def Let_def
  by (auto dest!: probe_write_queue simp: split_beta split: option.split_asm if_split_asm sum.split_asm prod.split_asm)

lemma probe_update_kept:
  "probe_link_update_from_reader w env m r p s = Some (e, p', s') \<Longrightarrow> \<not> pl_open p \<Longrightarrow>
   sy_queue s' = sy_queue s \<and> \<not> pl_open p'"
  unfolding probe_link_update_from_reader_def Let_def
  by (auto dest!: probe_program_kept dry_queue split: if_split_asm)


lemma ota_update_closed: "esp32_update_start oe env s = Some s' \<Longrightarrow> \<not> ot_handle s \<Longrightarrow> \<not> ot_handle s'"
  by (auto simp: esp32_update_start_def ota_reject_def ota_abort_def ota_write_image_def ota_finish_def Let_def
      dest!: ota_loop_frame split: option.split_asm if_split_asm sum.split_asm prod.split_asm bool.split_asm)

lemma packaged_queue: "fw_update_exec_packaged ok env job s = Some (x, s') \<Longrightarrow> sy_queue s' = sy_queue s"
  by (auto simp: fw_update_exec_packaged_def Let_def split: option.split_asm if_split_asm sum.split_asm)

section \<open>The devices are released after every job\<close>

definition device_ok :: "device \<Rightarrow> bool" where
  "device_ok d \<longleftrightarrow> queue_wf (dv_fw d) \<and> \<not> dv_uart d \<and> \<not> pl_open (dv_probe d) \<and> \<not> ot_handle (dv_ota d)"

lemma queue_wf_queue: "sy_queue s' = sy_queue s \<Longrightarrow> queue_wf s \<Longrightarrow> queue_wf s'"
  by (simp add: queue_wf_def)

lemma dv_step_ok [simp]: "device_ok (dv_step st m d) = device_ok d"
  by (simp add: dv_step_def device_ok_def queue_wf_def)

lemma set_file_kept:
  "esp32_update_set_file nm ty o1 = (ok, o2) \<Longrightarrow> ot_fw o2 = ot_fw o1 \<and> ot_handle o2 = ot_handle o1"
  by (auto simp: esp32_update_set_file_def split: if_split_asm)

lemma options_kept:
  "ot_fw (ota_job_options xe job s) = ot_fw s \<and> ot_handle (ota_job_options xe job s) = ot_handle s"
  by (simp add: ota_job_options_def esp32_update_set_skip_reboot_def split: option.split jval.split)

lemma exec_ota_ok:
  assumes "fw_update_exec_ota xe job d = Some (e, d')" "device_ok d"
  shows "device_ok d'"
proof -
  let ?o = "ota_job_options xe job ((dv_ota d)\<lparr>ot_fw := dv_fw d\<rparr>)"
  obtain ok o2 where o2: "esp32_update_set_file (jb_file_name job) (jb_file_type job) ?o = (ok, o2)"
    by (rule prod.exhaust)
  have k: "ot_fw o2 = dv_fw d" "ot_handle o2 = ot_handle (dv_ota d)"
    using set_file_kept [OF o2] options_kept [of xe job "(dv_ota d)\<lparr>ot_fw := dv_fw d\<rparr>"] by simp_all
  show ?thesis using assms o2 k
    by (auto simp: fw_update_exec_ota_def device_ok_def queue_wf_def dv_step_def dest: ota_update_queue ota_update_closed
        split: if_split_asm)
qed

lemma with_job_file_ok:
  assumes "with_job_file xe job d f = Some (e, d')" "device_ok d"
    and "\<And>r e d'. f r = Some (e, d') \<Longrightarrow> device_ok d'"
  shows "device_ok d'"
  using assms by (auto simp: with_job_file_def split: if_split_asm sum.split_asm)

lemma exec_can_ok:
  assumes "fw_update_exec_can xe job d = Some (e, d')" "device_ok d"
  shows "device_ok d'"
  using assms(1)[unfolded fw_update_exec_can_def] assms(2)
  by (rule with_job_file_ok) (use assms(2) in \<open>auto simp: device_ok_def queue_wf_def dest!: can_update_queue\<close>)

lemma exec_swd_ok:
  assumes "fw_update_exec_swd xe job d = Some (e, d')" "device_ok d"
  shows "device_ok d'"
  using assms(1)[unfolded fw_update_exec_swd_def] assms(2)
  by (rule with_job_file_ok) (use assms(2) in \<open>auto simp: device_ok_def queue_wf_def dest!: probe_update_kept\<close>)

lemma exec_uart_ok:
  assumes "fw_update_exec_uart xe job d = Some (e, d')" "device_ok d"
  shows "device_ok d'"
  using assms
  by (auto simp: fw_update_exec_uart_def isp_ended_def device_ok_def queue_wf_def dv_step_def
      dest: isp_update_queue isp_update_ended [rotated] split: option.split_asm)

lemma device_ok_fw:
  "sy_queue fw = sy_queue (dv_fw d) \<Longrightarrow> device_ok (d\<lparr>dv_fw := fw\<rparr>) = device_ok d" "device_ok (d\<lparr>dv_stm := s\<rparr>) = device_ok d"
  by (simp_all add: device_ok_def queue_wf_def)

lemma exec_ok: "fw_update_exec xe call job d = Some (e, d') \<Longrightarrow> device_ok d \<Longrightarrow> device_ok d'"
  using exec_ota_ok exec_can_ok exec_uart_ok exec_swd_ok
  by (cases call)
    (auto simp: fw_update_exec_stm32_uart_def fw_update_exec_jtag_def fw_update_exec_unknown_def
      device_ok_fw packaged_queue)

lemma worker_step_queue_wf:
  "fw_update_worker_step env io junk s = Some (s', calls) \<Longrightarrow> queue_wf s \<Longrightarrow> queue_wf s'"
  by (auto simp: queue_wf_def fw_update_worker_step_def Let_def
        split: option.splits if_splits prod.splits list.splits)

interpretation devices: partial_machine "device_step xe" device_ok for xe
proof
  fix d e d' os
  assume ok: "device_ok d" and step: "device_step xe d e = Some (d', os)"
  show "device_ok d'"
  proof (cases e)
    case (Enqueue m name type)
    then show ?thesis using ok step
      by (auto simp: device_ok_def queue_wf_def fw_update_enqueue_job_def Let_def)
  next
    case Work
    with step obtain fw calls where w: "fw_update_worker_step (xe_fw xe) (xe_ihex_io xe) (xe_ihex_junk xe) (dv_fw d) = Some (fw, calls)"
      "(case calls of [] \<Rightarrow> Some (d\<lparr>dv_fw := fw\<rparr>)
        | (call, job) # _ \<Rightarrow> map_option snd (fw_update_exec xe call job (d\<lparr>dv_fw := fw\<rparr>))) = Some d'"
      by (auto simp: fw_update_worker_task_def split: option.split_asm)
    have "device_ok (d\<lparr>dv_fw := fw\<rparr>)"
      using worker_step_queue_wf [OF w(1)] ok by (simp add: device_ok_def)
    with w(2) show ?thesis by (auto dest: exec_ok split: list.split_asm)
  qed
qed

text \<open>C35: Whatever is enqueued and however the worker is scheduled, after every round the update devices are
  released: no OTA handle is open, the UART of the NXP boot loader and the line to the debug probe are
  closed, and the queue exists and holds at most two jobs, whatever the files, the targets and the
  drivers of all six updaters did.\<close>

theorem devices_released:
  assumes "queue_wf (dv_fw d)" "\<not> dv_uart d" "\<not> pl_open (dv_probe d)" "\<not> ot_handle (dv_ota d)"
    and "run_opt (device_step xe) d es = Some (d', os)"
  shows "queue_wf (dv_fw d') \<and> \<not> dv_uart d' \<and> \<not> pl_open (dv_probe d') \<and> \<not> ot_handle (dv_ota d')"
  using devices.prun_inv [of d xe es d' os] assms by (auto simp: device_ok_def)


section \<open>Witness\<close>

definition example_xe :: exec_env where
  "example_xe = \<lparr>xe_fw = plain_env, xe_ihex_io = (\<lambda>_ _. None), xe_ihex_junk = [], xe_malloc = (\<lambda>_. True),
     xe_ota = example_ota_env, xe_can = \<lparr>ce_install = \<lambda>_. ESP_OK, ce_start = \<lambda>_. ESP_OK, ce_tx = \<lambda>_. ESP_OK\<rparr>, xe_can_mem = [],
     xe_isp = example_isp_env, xe_isp_ctx = example_ctx, xe_probe = write_all, xe_stm = write_all\<rparr>"

definition example_device :: device where
  "example_device = \<lparr>dv_fw = example_sys\<lparr>sy_fs := [''/sdcard/pump.A05'' \<mapsto> [1, 2, 3]]\<rparr>, dv_ota = example_ota [],
     dv_can = \<lparr>s_can_open = False, c_bus = None, c_rx = [], c_tx = []\<rparr>, dv_isp = example_isp [], dv_uart = False,
     dv_probe = \<lparr>pl_open = False, pl_ser = \<lparr>rx = [], tx = []\<rparr>\<rparr>, dv_stm = \<lparr>rx = [], tx = []\<rparr>\<rparr>"

lemma devices_released_witness:
  "\<exists>d' os. run_opt (device_step example_xe) example_device
       [Enqueue (fw_meta_zero\<lparr>fm_exec := FW_EXEC_SWD\<rparr>) ''pump'' ''A05'', Work] = Some (d', os) \<and>
     queue_wf (dv_fw d') \<and> \<not> dv_uart d' \<and> \<not> pl_open (dv_probe d') \<and> \<not> ot_handle (dv_ota d')"
proof -
  let ?m = "fw_meta_zero\<lparr>fm_exec := FW_EXEC_SWD\<rparr>"
  let ?es = "[Enqueue ?m ''pump'' ''A05'', Work]"
  obtain r where r: "fw_storage_reader_open plain_env ''pump'' ''A05'' [''/sdcard/pump.A05'' \<mapsto> [1, 2, 3]] = Inr r"
    by (simp add: fw_storage_reader_open_def fw_storage_build_path_def plain_env_def Let_def)
  have "\<forall>p fw. \<exists>y. probe_link_update_from_reader write_all plain_env ?m r p fw = Some y"
    using probe_update_total by blast
  then obtain f where "\<And>p fw. probe_link_update_from_reader write_all plain_env ?m r p fw = Some (f p fw)"
    by metis
  with r obtain d' os where run: "run_opt (device_step example_xe) example_device ?es = Some (d', os)"
    by (simp add: example_device_def example_xe_def fw_update_worker_task_def fw_update_worker_step_def fw_prepare_exec_file_def
        fw_update_enqueue_job_def example_sys_def fw_meta_zero_def FW_UPDATE_QUEUE_LEN_def c_copy_def fw_update_exec_swd_def
        with_job_file_def example_fields(1) split_beta)
  have "queue_wf (dv_fw example_device)" "\<not> dv_uart example_device" "\<not> pl_open (dv_probe example_device)"
    "\<not> ot_handle (dv_ota example_device)"
    by (simp_all add: example_device_def queue_wf_def example_sys_def FW_UPDATE_QUEUE_LEN_def example_ota_def)
  from devices_released [OF this run] run show ?thesis by blast
qed

end
