(* ===== verification/Net_Upload.thy ===== *)
theory Net_Upload
  imports Ble_Cmd
begin

text \<open>
  Receiving over the network, and the upload by TCP (\<open>tcp_server.c\<close>): a client sends the bytes of the
  file announced before by BLE or HTTP, and the connection ends when the announced size is
  reached. A connection is the list of pieces the network delivers; the end of the list, or an
  empty piece, is a failed or closed connection.
\<close>

section \<open>Receiving\<close>

text \<open>One \<open>recv\<close> with room for \<open>n\<close> bytes; \<open>[]\<close> stands for a result of 0 or less.\<close>

fun net_recv :: "nat \<Rightarrow> bytes list \<Rightarrow> bytes \<times> bytes list" where
  "net_recv n [] = ([], [])"
| "net_recv n (p # ps) = (take n p, if length p \<le> n then ps else drop n p # ps)"

text \<open>All that arrives before the connection fails.\<close>

definition delivered :: "bytes list \<Rightarrow> bytes" where
  "delivered net = concat (takeWhile (\<lambda>p. p \<noteq> []) net)"

lemma net_recv_split:
  assumes "net_recv n net = (bs, net1)" "0 < n"
  shows "length bs \<le> n" "bs \<noteq> [] \<Longrightarrow> delivered net = bs @ delivered net1" "bs = [] \<Longrightarrow> delivered net = []"
  using assms by (cases net; auto simp: delivered_def split: if_splits)+

text \<open>
  The loop the upload handlers share: as long as bytes are missing, receive at most a buffer of
  them and hand them on, and stop when either fails. \<open>wr bs k s\<close> gets the number of bytes missing
  behind \<open>bs\<close>; the loop returns how it ended and how many bytes are missing.
\<close>

datatype recv_end = Recv_Done | Recv_Fail | Write_Fail

function recv_loop :: "(bytes \<Rightarrow> nat \<Rightarrow> 's \<Rightarrow> esp_err \<times> 's) \<Rightarrow> nat \<Rightarrow> nat \<Rightarrow> bytes list \<Rightarrow> 's \<Rightarrow>
    recv_end \<times> nat \<times> 's" where
  "recv_loop wr b n net s =
     (if n = 0 then (Recv_Done, n, s)
      else let (bs, net1) = net_recv (min b n) net
           in if bs = [] then (Recv_Fail, n, s)
              else let (r, s1) = wr bs (n - length bs) s
                   in if r \<noteq> ESP_OK then (Write_Fail, n, s1)
                      else recv_loop wr b (n - length bs) net1 s1)"
  by auto
termination
  by (relation "measure (\<lambda>(wr, b, n, net, s). n)") auto

declare recv_loop.simps [simp del]

text \<open>A receiver of such bytes, which accepts every piece and whose state tells what it was given.\<close>

locale recv_sink =
  fixes wr :: "bytes \<Rightarrow> nat \<Rightarrow> 's \<Rightarrow> esp_err \<times> 's"
    and holds :: "bytes \<Rightarrow> 's \<Rightarrow> bool"
  assumes wr_holds: "holds d s \<Longrightarrow> bs \<noteq> [] \<Longrightarrow> \<exists>s'. wr bs k s = (ESP_OK, s') \<and> holds (d @ bs) s'"
begin

lemma recv_holds:
  "holds d s \<Longrightarrow> 0 < b \<Longrightarrow>
     \<exists>s'. recv_loop wr b n net s =
         (if n \<le> length (delivered net) then Recv_Done else Recv_Fail, n - length (delivered net), s') \<and>
       holds (d @ take n (delivered net)) s'"
proof (induction n arbitrary: d s net rule: less_induct)
  case (less n)
  show ?case
  proof (cases "n = 0")
    case True
    then show ?thesis using less.prems by (subst recv_loop.simps) simp
  next
    case False
    obtain bs net1 where r: "net_recv (min b n) net = (bs, net1)" by (cases "net_recv (min b n) net")
    note split = net_recv_split [OF r]
    show ?thesis
    proof (cases "bs = []")
      case True
      then show ?thesis using False less.prems split r by (subst recv_loop.simps) simp
    next
      case bs: False
      obtain s1 where s1: "wr bs (n - length bs) s = (ESP_OK, s1)" "holds (d @ bs) s1"
        using wr_holds [OF less.prems(1) bs] by blast
      have d: "delivered net = bs @ delivered net1" "length bs \<le> n"
        using split bs False less.prems(2) by auto
      have "n - length bs < n" using bs False by (cases bs) auto
      from less.IH [OF this s1(2) less.prems(2), of net1] d False bs s1(1) r show ?thesis
        by (subst recv_loop.simps) (auto simp: Let_def)
    qed
  qed
qed

end

section \<open>A session of the upload manager as a receiver\<close>

definition session_holds :: "fw_env \<Rightarrow> bytes \<Rightarrow> fw_meta \<Rightarrow> bytes \<Rightarrow> fw_upload_session \<times> fw_sys \<Rightarrow> bool" where
  "session_holds env key m d s \<longleftrightarrow> storage_works env key m \<and> us_meta (fst s) = m \<and>
     writing env key m d (us_writer (fst s)) (sy_fs (snd s))"

lemma set_step_fields [simp]:
  "sy_fs (set_step st msg s) = sy_fs s" "s_step (sy_state (set_step st msg s)) = st"
  "sy_fs (set_progress p s) = sy_fs s" "s_step (sy_state (set_progress p s)) = s_step (sy_state s)"
  by (simp_all add: set_step_def set_progress_def fw_state_set_step_def fw_state_set_progress_def)

lemma session_begin_holds:
  assumes "storage_works env key (m\<lparr>fm_original_size := n\<rparr>)" "0 < n"
  shows "\<exists>us s'. fw_upload_session_begin env m n us0 s = (ESP_OK, us, s') \<and>
    session_holds env key (m\<lparr>fm_original_size := n\<rparr>) [] (us, s')"
proof -
  obtain w fs1 where "fw_storage_writer_open env fw_storage_writer_zero (m\<lparr>fm_original_size := n\<rparr>) (sy_fs s) =
      (ESP_OK, w, fs1)" "writing env key (m\<lparr>fm_original_size := n\<rparr>) [] w fs1"
    using writing_open [OF assms(1)] by blast
  then show ?thesis
    using assms by (simp add: fw_upload_session_begin_def session_holds_def Let_def)
qed

lemma session_write_holds:
  assumes "session_holds env key m d (us, s)" "bs \<noteq> []"
  shows "\<exists>us' s'. fw_upload_session_write env bs us s = (ESP_OK, us', s') \<and>
    session_holds env key m (d @ bs) (us', s')"
proof -
  have ok: "storage_works env key m" "us_meta us = m" "writing env key m d (us_writer us) (sy_fs s)"
    using assms(1) by (simp_all add: session_holds_def)
  obtain w' fs' where "fw_storage_writer_write env bs (us_writer us) (sy_fs s) = (ESP_OK, w', fs')"
    "writing env key m (d @ bs) w' fs'"
    using writing_write [OF ok(1,3) assms(2)] by blast
  then show ?thesis using assms(2) ok
    by (simp add: fw_upload_session_write_def session_holds_def Let_def)
qed

lemma session_finish_holds:
  assumes "session_holds env key m d (us, s)"
  shows "\<exists>us' s'. fw_upload_session_finish env us s = (ESP_OK, us', s') \<and>
    s_step (sy_state s') = FW_STEP_DONE \<and>
    fw_storage_meta_read env (fm_file_name m) (fm_file_type m) (sy_fs s') =
      Inr (m\<lparr>fm_exec_format := FW_FMT_BIN, fm_save_only := False\<rparr>) \<and>
    sy_fs s' (image_path m) \<noteq> None \<and>
    (fm_original_size m = length d \<longrightarrow>
      (\<forall>n > 0. read_image env n (fm_file_name m) (fm_file_type m) (sy_fs s') = Some d))"
proof -
  have ok: "storage_works env key m" "writing env key m d (us_writer us) (sy_fs s)"
    using assms(1) by (simp_all add: session_holds_def)
  from writing_close [OF ok] show ?thesis
    by (fastforce simp: fw_upload_session_finish_def)
qed

lemma save_buffer_holds:
  assumes "storage_works env key (m\<lparr>fm_original_size := length data\<rparr>)" "data \<noteq> []"
  shows "\<exists>s'. fw_upload_save_buffer env m data s = (ESP_OK, s') \<and>
    s_step (sy_state s') = FW_STEP_DONE \<and> sy_queue s' = sy_queue s \<and>
    (\<forall>n > 0. read_image env n (fm_file_name m) (fm_file_type m) (sy_fs s') = Some data)"
proof -
  let ?m = "m\<lparr>fm_original_size := length data\<rparr>"
  obtain w fs1 where 1: "fw_storage_writer_open env fw_storage_writer_zero ?m (sy_fs s) = (ESP_OK, w, fs1)"
    "writing env key ?m [] w fs1"
    using writing_open [OF assms(1)] by blast
  obtain w1 fs2 where 2: "fw_storage_writer_write env data w fs1 = (ESP_OK, w1, fs2)"
    "writing env key ?m data w1 fs2"
    using writing_write [OF assms(1) 1(2) assms(2)] by auto
  obtain w2 fs3 where 3: "fw_storage_writer_close env w1 fs2 = (ESP_OK, w2, fs3)"
    "\<forall>n > 0. read_image env n (fm_file_name m) (fm_file_type m) fs3 = Some data"
    using writing_close [OF assms(1) 2(2)] by auto
  show ?thesis
    using assms(2) 1(1) 2(1) 3
    by (simp add: fw_upload_save_buffer_def Let_def)
qed

section \<open>The TCP server\<close>

definition TCP_RX_BUF_SIZE :: nat where [model_simps]: "TCP_RX_BUF_SIZE = 1024"

definition tcp_get_pending :: "nat \<Rightarrow> nat \<Rightarrow> 'u tool \<Rightarrow> string \<times> string \<times> nat" where
  "tcp_get_pending name_size type_size t =
     (c_copy name_size (s_pending_name t), c_copy type_size (s_pending_type t), s_expected_size t)"

definition tcp_delete_partial :: "string \<Rightarrow> string \<Rightarrow> fs \<Rightarrow> fs" where
  "tcp_delete_partial name type fs =
     (let fs1 = (case fw_storage_build_path 384 name type of
                   Some p \<Rightarrow> snd (remove_file p fs) | None \<Rightarrow> fs)
      in case fw_storage_build_meta_path 384 name type of
           Some p \<Rightarrow> snd (remove_file p fs1) | None \<Rightarrow> fs1)"

text \<open>The product is 32 bits wide, and progress a byte.\<close>

definition tcp_percent :: "nat \<Rightarrow> nat \<Rightarrow> u32" where
  "tcp_percent got expected = (of_nat got * 100) div of_nat expected"

definition tcp_write :: "fw_env \<Rightarrow> nat \<Rightarrow> bytes \<Rightarrow> nat \<Rightarrow> fw_upload_session \<times> fw_sys \<Rightarrow>
    esp_err \<times> fw_upload_session \<times> fw_sys" where
  "tcp_write env expected bs k us_s =
     (let (r, us, s) = fw_upload_session_write env bs (fst us_s) (snd us_s)
      in (r, us, if r \<noteq> ESP_OK then s
                 else set_progress (ucast (tcp_percent (expected - k) expected)) s))"

definition fw_upload_session_zero :: fw_upload_session where
  "fw_upload_session_zero = \<lparr>us_writer = fw_storage_writer_zero, us_meta = fw_meta_zero, us_received = 0\<rparr>"

text \<open>
  One connection. The session is set up by \<open>fw_upload_session_begin\<close>, whatever the memory held
  before; the result of \<open>fw_upload_session_finish\<close> is not looked at.
\<close>

definition tcp_handle_client :: "fw_env \<Rightarrow> bytes list \<Rightarrow> 'u tool \<Rightarrow> 'u tool" where
  "tcp_handle_client env net t =
     (let (name, type, expected) = tcp_get_pending 64 8 t
      in if name = [] \<or> type = [] then t
         else if expected = 0 then t
         else let meta = fw_upload_prepare_meta (e_enc_on env) name type FW_FMT_UNKNOWN;
                  (r, us, s) = fw_upload_session_begin env meta expected fw_upload_session_zero (t_fw t)
              in if r \<noteq> ESP_OK then t\<lparr>t_fw := s\<rparr>
                 else let s1 = set_step FW_STEP_TRANSFER ''tcp upload'' s;
                          (e, missing, us1, s2) = recv_loop (tcp_write env expected) TCP_RX_BUF_SIZE
                                                    expected net (us, s1);
                          (r1, us2, s3) = fw_upload_session_finish env us1 s2
                      in t\<lparr>t_fw :=
                           if missing \<noteq> 0
                           then let s4 = set_step FW_STEP_ERROR ''tcp upload incomplete'' s3
                                in s4\<lparr>sy_fs := tcp_delete_partial name type (sy_fs s4)\<rparr>
                           else set_step FW_STEP_DONE ''tcp upload done'' s3\<rparr>)"

text \<open>The task serves one connection after the other.\<close>

definition tcp_server_task :: "fw_env \<Rightarrow> bytes list list \<Rightarrow> 'u tool \<Rightarrow> 'u tool" where
  "tcp_server_task env conns t = fold (tcp_handle_client env) conns t"

interpretation tcp: recv_sink "tcp_write env expected" "session_holds env key m" for env expected key m
proof
  fix d bs :: bytes and k and s :: "fw_upload_session \<times> fw_sys"
  assume "session_holds env key m d s" "bs \<noteq> []"
  then obtain us' s' where "fw_upload_session_write env bs (fst s) (snd s) = (ESP_OK, us', s')"
    "session_holds env key m (d @ bs) (us', s')"
    using session_write_holds [of env key m d "fst s" "snd s" bs] by auto
  then show "\<exists>s'. tcp_write env expected bs k s = (ESP_OK, s') \<and> session_holds env key m (d @ bs) s'"
    by (simp add: tcp_write_def session_holds_def)
qed

lemma delete_partial_gone:
  assumes "length name < 64" "length type < 8"
  shows "tcp_delete_partial name type fs (''/sdcard/'' @ name @ ''.'' @ type) = None"
    "tcp_delete_partial name type fs (''/sdcard/'' @ name @ ''.'' @ type @ ''.meta'') = None"
  using assms
  by (simp_all add: tcp_delete_partial_def fw_storage_build_path_def fw_storage_build_meta_path_def
      remove_file_def Let_def)

lemma prepare_meta_names:
  assumes "length name < 64" "length type = 3"
  shows "fm_file_name (fw_upload_prepare_meta enc_on name type f) = name"
    "fm_file_type (fw_upload_prepare_meta enc_on name type f) = type"
proof -
  let ?m = "fw_meta_zero\<lparr>fm_file_name := c_copy 64 name, fm_file_type := c_copy 8 type\<rparr>"
  have "strneq 3 type (fm_file_type e) \<Longrightarrow> e \<in> set (k_fw_meta_defaults enc_on) \<Longrightarrow> fm_file_type e = type" for e
    using assms(2)
    by (auto simp: k_fw_meta_defaults_def k_fw_meta_defaults_S_def k_fw_meta_defaults_A0_def
        k_fw_meta_defaults_A8_def meta_default_def strneq_def)
  then have "fm_file_type (fw_meta_init_defaults enc_on ?m) = type"
    "fm_file_name (fw_meta_init_defaults enc_on ?m) = name"
    using assms by (auto simp: fw_meta_init_defaults_def c_copy_id find_Some_iff split: option.splits)
  then show "fm_file_name (fw_upload_prepare_meta enc_on name type f) = name"
    "fm_file_type (fw_upload_prepare_meta enc_on name type f) = type"
    by (simp_all add: fw_upload_prepare_meta_def Let_def)
qed

text \<open>C36: A TCP upload is stored whole or not at all. With a file announced (a type of three characters
  and a size), a store that works (with a meta text of at most 511 characters), and whatever pieces the network delivers: when at least the
  announced number of bytes arrives, the file reads back as exactly those bytes and the state is
  done; when the connection ends before, the image and its meta file are gone and the state is
  error.\<close>

theorem tcp_upload_outcome:
  fixes t :: "'u tool" and net :: "bytes list" and env :: fw_env
  defines "name \<equiv> c_copy 64 (s_pending_name t)" and "type \<equiv> c_copy 8 (s_pending_type t)"
  assumes "name \<noteq> []" "length type = 3" "0 < s_expected_size t"
    and "storage_works env key
      ((fw_upload_prepare_meta (e_enc_on env) name type FW_FMT_UNKNOWN)\<lparr>fm_original_size := s_expected_size t\<rparr>)"
  defines "s' \<equiv> t_fw (tcp_handle_client env net t)"
  shows "if s_expected_size t \<le> length (delivered net)
    then s_step (sy_state s') = FW_STEP_DONE \<and>
      (\<forall>n > 0. read_image env n name type (sy_fs s') = Some (take (s_expected_size t) (delivered net)))
    else s_step (sy_state s') = FW_STEP_ERROR \<and>
      sy_fs s' (''/sdcard/'' @ name @ ''.'' @ type) = None \<and>
      sy_fs s' (''/sdcard/'' @ name @ ''.'' @ type @ ''.meta'') = None"
proof -
  let ?n = "s_expected_size t"
  let ?mi = "fw_upload_prepare_meta (e_enc_on env) name type FW_FMT_UNKNOWN"
  let ?m = "?mi\<lparr>fm_original_size := ?n\<rparr>"
  have ty: "type \<noteq> []" using assms(4) by auto
  have len: "length name < 64" "length type < 8" using assms(4) by (simp_all add: name_def)
  note names = prepare_meta_names [OF len(1) assms(4), of "e_enc_on env" FW_FMT_UNKNOWN]
  obtain us s where b: "fw_upload_session_begin env ?mi ?n fw_upload_session_zero (t_fw t) = (ESP_OK, us, s)"
    "session_holds env key ?m [] (us, s)"
    using session_begin_holds [OF assms(6,5)] by blast
  have "session_holds env key ?m [] (us, set_step FW_STEP_TRANSFER ''tcp upload'' s)"
    using b(2) by (simp add: session_holds_def)
  from tcp.recv_holds [OF this, of TCP_RX_BUF_SIZE ?n ?n net] obtain us1 s1 where
    l: "recv_loop (tcp_write env ?n) TCP_RX_BUF_SIZE ?n net (us, set_step FW_STEP_TRANSFER ''tcp upload'' s) =
      (if ?n \<le> length (delivered net) then Recv_Done else Recv_Fail, ?n - length (delivered net), us1, s1)"
    "session_holds env key ?m (take ?n (delivered net)) (us1, s1)"
    by (auto simp: TCP_RX_BUF_SIZE_def)
  obtain r us2 s2 where f: "fw_upload_session_finish env us1 s1 = (r, us2, s2)"
    by (cases "fw_upload_session_finish env us1 s1")
  have run: "s' = (if ?n - length (delivered net) \<noteq> 0
      then let s4 = set_step FW_STEP_ERROR ''tcp upload incomplete'' s2
           in s4\<lparr>sy_fs := tcp_delete_partial name type (sy_fs s4)\<rparr>
      else set_step FW_STEP_DONE ''tcp upload done'' s2)"
    unfolding s'_def tcp_handle_client_def tcp_get_pending_def
    using assms(3,5) ty b(1) l(1) f by (simp flip: name_def type_def)
  show ?thesis
  proof (cases "?n \<le> length (delivered net)")
    case True
    then show ?thesis
      using session_finish_holds [OF l(2)] f run names by auto
  next
    case False
    then show ?thesis using run delete_partial_gone [OF len] by (simp add: Let_def set_step_def
      fw_state_set_step_def)
  qed
qed

text \<open>An environment whose JSON library knows the meta block at hand.\<close>

definition env_for :: "fw_meta \<Rightarrow> fw_env" where
  "env_for m = example_env\<lparr>e_json_parse := (\<lambda>_. Some (map_of (fw_meta_json_obj m)))\<rparr>"

lemma env_for_works:
  assumes "fw_meta_wf m" "fm_encrypted m"
  shows "storage_works (env_for m) (the (fw_crypto_init_key example_env)) m"
  using assms
  by (simp add: storage_works_def env_for_def example_env_def fwrite_works_def json_works_def meta_fits_def aes_works_def
      aes_dec_total_def fw_crypto_init_key_def comp_def)

lemma tcp_upload_outcome_witness:
  "\<exists>m. read_image (env_for m) 5 ''APP'' ''A11'' (sy_fs (t_fw (tcp_handle_client (env_for m) [[1, 2], [3, 4, 5]]
     (example_tool\<lparr>s_pending_name := ''APP'', s_pending_type := ''A11'', s_expected_size := 4\<rparr>)))) =
     Some [1, 2, 3, 4]"
proof -
  let ?t = "example_tool\<lparr>s_pending_name := ''APP'', s_pending_type := ''A11'', s_expected_size := 4\<rparr>"
  let ?m = "(fw_upload_prepare_meta True ''APP'' ''A11'' FW_FMT_UNKNOWN)\<lparr>fm_original_size := 4\<rparr>"
  have m: "fw_meta_wf ?m" "fm_encrypted ?m" "e_enc_on (env_for ?m)"
    by (simp_all add: fw_meta_wf_def c_string_def fw_upload_prepare_meta_def fw_meta_init_defaults_def
        k_fw_meta_defaults_def k_fw_meta_defaults_S_def k_fw_meta_defaults_A0_def
        k_fw_meta_defaults_A8_def meta_default_def strneq_def c_copy_def fw_meta_zero_def env_for_def
        example_env_def)
  show ?thesis
    using tcp_upload_outcome [of ?t "env_for ?m" "the (fw_crypto_init_key example_env)" "[[1, 2], [3, 4, 5]]"]
      env_for_works [OF m(1,2)] m(3)
    by (intro exI [of _ ?m]) (simp add: c_copy_def delivered_def)
qed

end
