(* ===== verification/Json_Cut.thy ===== *)
theory Json_Cut
  imports Prelude
begin

text \<open>
  Searching a quoted key in a text made of quoted strings, as the handlers do that cut fields out of
  a JSON text without parsing it: the first quoted key is found, and nothing in between is.
\<close>

text \<open>A text as its segments between quotes, and the search for a quoted key among them.\<close>

fun qjoin :: "string list \<Rightarrow> string" where
  "qjoin [] = []"
| "qjoin [x] = x"
| "qjoin (x # y # zs) = x @ CHR 0x22 # qjoin (y # zs)"

fun find_key :: "string \<Rightarrow> string list \<Rightarrow> (nat \<times> string list) option" where
  "find_key key (x # y # z # zs) =
     (if y = key then Some (length x, y # z # zs)
      else map_option (\<lambda>(i, r). (i + length x + 1, r)) (find_key key (y # z # zs)))"
| "find_key key segs = None"

definition quote :: "string \<Rightarrow> string" where
  "quote key = CHR 0x22 # key @ [CHR 0x22]"

lemma qjoin_Cons: "zs \<noteq> [] \<Longrightarrow> qjoin (x # zs) = x @ CHR 0x22 # qjoin zs"
  by (cases zs) simp_all

lemma strstr_no_head:
  "h \<notin> set pre \<Longrightarrow> strstr (h # ht) (pre @ s) = map_option ((+) (length pre)) (strstr (h # ht) s)"
proof (induction pre)
  case Nil
  then show ?case by (simp add: option.map_ident)
next
  case (Cons x pre)
  then show ?case by (auto simp: option.map_comp comp_def)
qed

lemma strstr_absent: "h \<notin> set s \<Longrightarrow> strstr (h # ht) s = None"
  using strstr_no_head [of h s ht "[]"] by simp

lemma takeWhile_to_quote: "CHR 0x22 \<notin> set x \<Longrightarrow> takeWhile (\<lambda>c. c \<noteq> CHR 0x22) (x @ CHR 0x22 # r) = x"
  by (subst takeWhile_append2) auto

lemma quote_prefix:
  assumes "CHR 0x22 \<notin> set y" "CHR 0x22 \<notin> set key"
  shows "take (length (quote key)) (CHR 0x22 # y @ CHR 0x22 # r) = quote key \<longleftrightarrow> y = key"
proof
  assume t: "take (length (quote key)) (CHR 0x22 # y @ CHR 0x22 # r) = quote key"
  have "CHR 0x22 # y @ CHR 0x22 # r = quote key @ drop (length (quote key)) (CHR 0x22 # y @ CHR 0x22 # r)"
    using append_take_drop_id [of "length (quote key)" "CHR 0x22 # y @ CHR 0x22 # r"] unfolding t by (rule sym)
  then have "y @ CHR 0x22 # r = key @ CHR 0x22 # drop (length (quote key)) (CHR 0x22 # y @ CHR 0x22 # r)"
    by (simp add: quote_def)
  then show "y = key" using takeWhile_to_quote assms by metis
qed (simp add: quote_def)

lemma strstr_quoted_head:
  assumes "CHR 0x22 \<notin> set y" "CHR 0x22 \<notin> set key"
  shows "strstr (quote key) (CHR 0x22 # y @ CHR 0x22 # r) =
    (if y = key then Some 0 else map_option ((+) (length y + 1)) (strstr (quote key) (CHR 0x22 # r)))"
proof (cases "y = key")
  case True
  then show ?thesis using quote_prefix [OF assms, of r] by simp
next
  case False
  then have "strstr (quote key) (CHR 0x22 # y @ CHR 0x22 # r) =
      map_option Suc (strstr (quote key) (y @ CHR 0x22 # r))"
    using quote_prefix [OF assms, of r] by simp
  also have "strstr (quote key) (y @ CHR 0x22 # r) =
      map_option ((+) (length y)) (strstr (quote key) (CHR 0x22 # r))"
    unfolding quote_def using assms(1) by (rule strstr_no_head)
  finally show ?thesis using False by (simp add: option.map_comp comp_def)
qed

lemma strstr_last_quote:
  assumes "CHR 0x22 \<notin> set y"
  shows "strstr (quote key) (CHR 0x22 # y) = None"
proof -
  have "take (length key + 1) y \<noteq> key @ [CHR 0x22]"
  proof
    assume "take (length key + 1) y = key @ [CHR 0x22]"
    then have "CHR 0x22 \<in> set (take (length key + 1) y)" by simp
    then show False using assms in_set_takeD by fast
  qed
  then show ?thesis using assms by (simp add: quote_def strstr_absent)
qed

lemma strstr_two:
  assumes "CHR 0x22 \<notin> set x" "CHR 0x22 \<notin> set y"
  shows "strstr (quote key) (x @ CHR 0x22 # y) = None"
  using strstr_no_head [OF assms(1), of "key @ [CHR 0x22]" "CHR 0x22 # y"] strstr_last_quote [OF assms(2), of key]
  by (simp add: quote_def)

lemma strstr_segments:
  assumes "\<forall>x \<in> set segs. CHR 0x22 \<notin> set x" "CHR 0x22 \<notin> set key"
  shows "strstr (quote key) (qjoin segs) = map_option fst (find_key key segs) \<and>
    (\<forall>i r. find_key key segs = Some (i, r) \<longrightarrow> drop i (qjoin segs) = CHR 0x22 # qjoin r)"
  using assms
proof (induction key segs rule: find_key.induct)
  case (1 k x y z zs)
  let ?rest = "qjoin (z # zs)"
  have q: "CHR 0x22 \<notin> set x" "CHR 0x22 \<notin> set y" "CHR 0x22 \<notin> set k" using "1.prems" by simp_all
  have j: "qjoin (x # y # z # zs) = x @ CHR 0x22 # y @ CHR 0x22 # ?rest"
    "qjoin (y # z # zs) = y @ CHR 0x22 # ?rest"
    by simp_all
  have s: "strstr (quote k) (qjoin (x # y # z # zs)) =
      map_option ((+) (length x)) (strstr (quote k) (CHR 0x22 # y @ CHR 0x22 # ?rest))"
    unfolding j quote_def using q(1) by (rule strstr_no_head)
  note head = strstr_quoted_head [OF q(2,3), of ?rest]
  show ?case
  proof (cases "y = k")
    case True
    then show ?thesis using s [unfolded head] j by simp
  next
    case False
    have y: "strstr (quote k) (qjoin (y # z # zs)) =
        map_option ((+) (length y)) (strstr (quote k) (CHR 0x22 # ?rest))"
      unfolding j quote_def using q(2) by (rule strstr_no_head)
    have "strstr (quote k) (qjoin (x # y # z # zs)) =
        map_option (\<lambda>i. i + length x + 1) (strstr (quote k) (qjoin (y # z # zs)))"
      unfolding s head y using False by (simp add: option.map_comp comp_def add.commute add.left_commute)
    moreover note "1.IH" [OF False]
    moreover have "drop (i + length x + 1) (qjoin (x # y # z # zs)) = drop i (qjoin (y # z # zs))" for i
      unfolding qjoin.simps by simp
    ultimately show ?thesis
      using False "1.prems" by (auto simp: option.map_comp comp_def case_prod_beta simp del: qjoin.simps)
  qed
qed (simp_all add: strstr_absent [folded quote_def] strstr_two, simp_all add: strstr_absent quote_def)

end
