(* ===== verification/Http_Upload.thy ===== *)
theory Http_Upload
  imports Net_Upload Can_Tms Json_Cut
begin

text \<open>
  The HTTP requests that store and run firmware: a raw body described by headers
  (\<open>rest_sdmmc_fw_upload_raw.c\<close>), the JSON request of the phone with the image in Base64
  (\<open>rest_sdmmc_fw_upload_run_mobile.c\<close>), running a stored or enclosed image
  (\<open>rest_sdmmc_fw_run.c\<close>), the meta data of a file to come (\<open>rest_sdmmc_fw_meta.c\<close>) and the progress
  (\<open>rest_fw_state.c\<close>). A handler turns a request and the state of the tool into its result, the
  answer and the next state; \<open>None\<close> is undefined behaviour. JSON numbers are taken as non-negative.
\<close>

section \<open>Requests\<close>

text \<open>
  \<open>rq_query key\<close> is the value of a key in the query string. The answer to a request is a text with
  status 200, or an error status and a text.
\<close>

record http_req =
  rq_content_len :: nat
  rq_header :: "string \<Rightarrow> string option"
  rq_query :: "string \<Rightarrow> string option"
  rq_net :: "bytes list"

datatype http_resp = Sent string | Error nat string

text \<open>\<open>he_malloc n\<close> says whether \<open>n\<close> bytes can be allocated; \<open>he_base64 n s\<close> is the decoding of \<open>s\<close> into
  a buffer of \<open>n\<close> bytes.\<close>

record 'u http_env =
  he_ble :: "'u ble_env"
  he_malloc :: "nat \<Rightarrow> bool"
  he_base64 :: "nat \<Rightarrow> string \<Rightarrow> bytes option"

abbreviation he_fw :: "'u http_env \<Rightarrow> fw_env" where
  "he_fw env \<equiv> be_fw (he_ble env)"

definition fail_500 :: "string \<Rightarrow> 'u tool \<Rightarrow> esp_err \<times> http_resp \<times> 'u tool" where
  "fail_500 msg t = (ESP_FAIL, Error 500 msg, t)"

definition fail_400 :: "string \<Rightarrow> 'u tool \<Rightarrow> esp_err \<times> http_resp \<times> 'u tool" where
  "fail_400 msg t = (ESP_FAIL, Error 400 msg, t)"

definition set_fw :: "'u tool \<Rightarrow> fw_sys \<Rightarrow> 'u tool" where
  "set_fw t s = t\<lparr>t_fw := s\<rparr>"

text \<open>A body collected in a buffer of the announced length.\<close>

definition append_write :: "bytes \<Rightarrow> nat \<Rightarrow> bytes \<Rightarrow> esp_err \<times> bytes" where
  "append_write bs k acc = (ESP_OK, acc @ bs)"

interpretation body: recv_sink append_write "\<lambda>d acc. acc = d"
  by unfold_locales (simp add: append_write_def)

text \<open>
  The content type is read into a buffer that is not initialised: without such a header the search
  for \<open>application/json\<close> reads what the stack holds.
\<close>

definition json_content :: "http_req \<Rightarrow> bool option" where
  "json_content req =
     map_option (\<lambda>ct. strstr ''application/json'' (c_copy 64 ct) \<noteq> None) (rq_header req ''Content-Type'')"

definition read_json_body :: "'u http_env \<Rightarrow> http_req \<Rightarrow> (esp_err + (string \<Rightarrow> jval option)) option" where
  "read_json_body env req =
     (case json_content req of
        None \<Rightarrow> None
      | Some False \<Rightarrow> Some (Inl ESP_ERR_INVALID_ARG)
      | Some True \<Rightarrow>
          let n = rq_content_len req
          in if \<not> he_malloc env (n + 1) then Some (Inl ESP_ERR_NO_MEM)
             else case recv_loop append_write n n (rq_net req) [] of
                    (e, _, body) \<Rightarrow>
                      if e \<noteq> Recv_Done then Some (Inl ESP_FAIL)
                      else Some (case e_json_parse (he_fw env) (cstr body) of
                                   None \<Rightarrow> Inl ESP_ERR_INVALID_ARG | Some root \<Rightarrow> Inr root))"

definition json_text :: "(string \<Rightarrow> jval option) \<Rightarrow> string \<Rightarrow> string option" where
  "json_text root key = (case root key of Some (JStr s) \<Rightarrow> Some s | _ \<Rightarrow> None)"

definition json_num :: "(string \<Rightarrow> jval option) \<Rightarrow> string \<Rightarrow> nat option" where
  "json_num root key = (case root key of Some (JNum n) \<Rightarrow> Some n | _ \<Rightarrow> None)"

section \<open>Meta data of a file\<close>

definition meta_from_json :: "bool \<Rightarrow> (string \<Rightarrow> jval option) \<Rightarrow> string \<Rightarrow> string \<Rightarrow> fw_meta" where
  "meta_from_json enc_on root name type =
     (let fmt = (case json_text root ''file_format'' of Some s \<Rightarrow> fw_format_from_str s | None \<Rightarrow> FW_FMT_UNKNOWN);
          m = fw_upload_prepare_meta enc_on name type fmt;
          m = (case json_text root ''exec'' of
                 Some s \<Rightarrow> m\<lparr>fm_exec := fw_exec_from_str s, fm_exec_override := fw_exec_from_str s \<noteq> FW_EXEC_UNKNOWN\<rparr>
               | None \<Rightarrow> m);
          m = (case json_text root ''target_board'' of Some s \<Rightarrow> m\<lparr>fm_target_board := c_copy 32 s\<rparr> | None \<Rightarrow> m);
          m = (case json_text root ''target_id'' of Some s \<Rightarrow> m\<lparr>fm_target_id := c_copy 16 s\<rparr> | None \<Rightarrow> m);
          m = (case json_num root ''can_bitrate'' of Some n \<Rightarrow> m\<lparr>fm_can_bitrate := of_nat n\<rparr> | None \<Rightarrow> m);
          m = (case json_num root ''uart_baud'' of Some n \<Rightarrow> m\<lparr>fm_uart_baud := of_nat n\<rparr> | None \<Rightarrow> m);
          m = (case json_num root ''swd_clock_khz'' of Some n \<Rightarrow> m\<lparr>fm_swd_clock_khz := of_nat n\<rparr> | None \<Rightarrow> m);
          m = (case json_num root ''jtag_clock_khz'' of Some n \<Rightarrow> m\<lparr>fm_jtag_clock_khz := of_nat n\<rparr> | None \<Rightarrow> m);
          m = (case json_text root ''meta_json'' of Some s \<Rightarrow> m\<lparr>fm_meta_json := c_copy 256 s\<rparr> | None \<Rightarrow> m)
      in case json_num root ''file_size'' of
           Some n \<Rightarrow> if 0 < n then m\<lparr>fm_original_size := n\<rparr> else m | None \<Rightarrow> m)"

definition sdmmc_fw_meta_post_handler :: "'u http_env \<Rightarrow> http_req \<Rightarrow> 'u tool \<Rightarrow>
    (esp_err \<times> http_resp \<times> 'u tool) option" where
  "sdmmc_fw_meta_post_handler env req t =
     (if \<not> e_sd_ok (he_fw env) then Some (fail_500 ''sdmmc init fail'' t)
      else case read_json_body env req of
             None \<Rightarrow> None
           | Some (Inl _) \<Rightarrow> Some (fail_400 ''invalid json'' t)
           | Some (Inr root) \<Rightarrow>
               (case (json_text root ''file_name'', json_text root ''file_type'') of
                  (Some name, Some type) \<Rightarrow>
                    let m = meta_from_json (e_enc_on (he_fw env)) root name type;
                        (r, fs) = fw_storage_meta_write (he_fw env) m (sy_fs (t_fw t));
                        t1 = t\<lparr>t_fw := (t_fw t)\<lparr>sy_fs := fs\<rparr>\<rparr>
                    in Some (if r \<noteq> ESP_OK then fail_500 ''meta write fail'' t1
                             else let t2 = tcp_server_set_pending_file (fm_file_name m) (fm_file_type m) t1;
                                      t3 = (if 0 < fm_original_size m
                                            then tcp_server_set_expected_size (fm_original_size m) t2 else t2)
                                  in (ESP_OK, Sent ''meta stored'', t3))
                | _ \<Rightarrow> Some (fail_400 ''invalid params'' t)))"

section \<open>The raw upload\<close>

definition isdigit :: "char \<Rightarrow> bool" where
  "isdigit c \<longleftrightarrow> (let n = of_char c :: nat in 48 \<le> n \<and> n \<le> 57)"

definition is_valid_file_type :: "string \<Rightarrow> bool" where
  "is_valid_file_type type \<longleftrightarrow> length type = 3 \<and>
     (type ! 0 = CHR ''S'' \<or> type ! 0 = CHR ''A'') \<and> isdigit (type ! 1) \<and> isdigit (type ! 2) \<and>
     (type ! 0 = CHR ''S'' \<longrightarrow> type ! 1 = CHR ''0'' \<and> (type ! 2 = CHR ''0'' \<or> type ! 2 = CHR ''1''))"

text \<open>
  A header, and what the buffer of \<open>n\<close> bytes holds then: a value that does not fit is cut off, but
  counts as missing.
\<close>

definition header_get_str :: "http_req \<Rightarrow> string \<Rightarrow> nat \<Rightarrow> bool \<times> string" where
  "header_get_str req key n =
     (case rq_header req key of
        None \<Rightarrow> (False, [])
      | Some v \<Rightarrow> (v \<noteq> [] \<and> length v < n, c_copy n v))"

definition parse_u32_or_zero :: "string \<Rightarrow> u32" where
  "parse_u32_or_zero s = (if s = [] then 0 else strtoul0 s)"

text \<open>The meta block of the upload: the stored one or a new one, changed by the headers.\<close>

definition raw_meta :: "fw_env \<Rightarrow> http_req \<Rightarrow> string \<Rightarrow> string \<Rightarrow> fs \<Rightarrow> fw_meta" where
  "raw_meta env req name type fs =
     (let hdr = (\<lambda>key n. snd (header_get_str req key n));
          fmt = fw_format_from_str (hdr ''X-File-Format'' 16);
          m = fw_upload_prepare_meta (e_enc_on env) name type fmt;
          m = (case fw_storage_meta_read env name type fs of
                 Inl _ \<Rightarrow> m
               | Inr old \<Rightarrow>
                   let m = old\<lparr>fm_file_name := c_copy 64 name, fm_file_type := c_copy 8 type\<rparr>
                   in if fmt \<noteq> FW_FMT_UNKNOWN then m\<lparr>fm_format := fmt\<rparr> else m);
          ex = hdr ''X-Exec'' 24;
          m = (if ex \<noteq> [] then m\<lparr>fm_exec := fw_exec_from_str ex,
                                   fm_exec_override := fw_exec_from_str ex \<noteq> FW_EXEC_UNKNOWN\<rparr> else m);
          board = hdr ''X-Target-Board'' 32;
          m = (if board \<noteq> [] then m\<lparr>fm_target_board := c_copy 32 board\<rparr> else m);
          tid = hdr ''X-Target-Id'' 16;
          m = (if tid \<noteq> [] then m\<lparr>fm_target_id := c_copy 16 tid\<rparr> else m)
      in m\<lparr>fm_can_bitrate := parse_u32_or_zero (hdr ''X-Can-Bitrate'' 16),
           fm_uart_baud := parse_u32_or_zero (hdr ''X-Uart-Baud'' 16),
           fm_swd_clock_khz := parse_u32_or_zero (hdr ''X-Swd-Clock'' 16),
           fm_jtag_clock_khz := parse_u32_or_zero (hdr ''X-Jtag-Clock'' 16)\<rparr>)"

definition raw_write :: "fw_env \<Rightarrow> bytes \<Rightarrow> nat \<Rightarrow> fw_upload_session \<times> fw_sys \<Rightarrow>
    esp_err \<times> fw_upload_session \<times> fw_sys" where
  "raw_write env bs k us_s = fw_upload_session_write env bs (fst us_s) (snd us_s)"

definition sdmmc_fw_upload_raw_post_handler :: "'u http_env \<Rightarrow> http_req \<Rightarrow> 'u tool \<Rightarrow>
    esp_err \<times> http_resp \<times> 'u tool" where
  "sdmmc_fw_upload_raw_post_handler env req t =
     (let fw = he_fw env;
          (name_ok, name) = header_get_str req ''X-File-Name'' 64;
          (type_ok, type) = header_get_str req ''X-File-Type'' 8
      in if \<not> e_sd_ok fw then fail_500 ''sdmmc init fail'' t
         else if \<not> name_ok \<or> \<not> type_ok then fail_400 ''missing headers'' t
         else if length name \<noteq> 36 \<or> \<not> is_valid_file_type type then fail_400 ''invalid name/type'' t
         else let m = raw_meta fw req name type (sy_fs (t_fw t));
                  n = rq_content_len req;
                  (r, us, s) = fw_upload_session_begin fw m n fw_upload_session_zero (t_fw t)
              in if r \<noteq> ESP_OK then fail_500 ''store init fail'' (set_fw t s)
                 else if \<not> he_malloc env 1024
                 then fail_500 ''alloc fail'' (set_fw t (snd (snd (fw_upload_session_finish fw us s))))
                 else let (e, _, us1, s1) = recv_loop (raw_write fw) 1024 n (rq_net req) (us, s);
                          (r1, us2, s2) = fw_upload_session_finish fw us1 s1
                      in if e = Recv_Fail then fail_500 ''recv fail'' (set_fw t s2)
                         else if e = Write_Fail then fail_500 ''store write fail'' (set_fw t s2)
                         else if r1 \<noteq> ESP_OK then fail_500 ''store finish fail'' (set_fw t s2)
                         else (ESP_OK, Sent ''File uploaded (raw/encrypted) successfully'', set_fw t s2))"

interpretation raw: recv_sink "raw_write env" "session_holds env key m" for env key m
proof
  fix d bs :: bytes and k and s :: "fw_upload_session \<times> fw_sys"
  assume "session_holds env key m d s" "bs \<noteq> []"
  then show "\<exists>s'. raw_write env bs k s = (ESP_OK, s') \<and> session_holds env key m (d @ bs) s'"
    using session_write_holds [of env key m d "fst s" "snd s" bs] by (auto simp: raw_write_def)
qed

section \<open>The upload of the phone\<close>

definition send_ble_upload_complete :: "'u tool \<Rightarrow> 'u tool" where
  "send_ble_upload_complete t = ble_protocol_send_cmd ACK_PROGRAM_START_PHONE_ESP32 [byte_of CHR ''v''] t"

text \<open>While the body arrives, every tenth percent is reported once; the product is 32 bits wide.\<close>

definition body_percent :: "nat \<Rightarrow> nat \<Rightarrow> u32" where
  "body_percent got len = (let p = (of_nat got * 100) div of_nat len in if 100 < p then 100 else p)"

definition body_write :: "nat \<Rightarrow> bytes \<Rightarrow> nat \<Rightarrow> bytes \<times> int \<times> 'u tool \<Rightarrow> esp_err \<times> bytes \<times> int \<times> 'u tool" where
  "body_write len bs k s =
     (let (acc, last_per, t) = s; cur = body_percent (len - k) len
      in (ESP_OK, acc @ bs,
          if int (unat cur) \<noteq> last_per \<and> unat cur mod 10 = 0
          then (int (unat cur), ble_protocol_send_cmd ACK_PROGRAM_START_PHONE_ESP32 [ucast cur] t)
          else (last_per, t)))"

definition read_body_to_buffer :: "'u http_env \<Rightarrow> http_req \<Rightarrow> 'u tool \<Rightarrow> ((esp_err + bytes) \<times> 'u tool) option" where
  "read_body_to_buffer env req t =
     (case json_content req of
        None \<Rightarrow> None
      | Some False \<Rightarrow> Some (Inl ESP_ERR_INVALID_ARG, t)
      | Some True \<Rightarrow>
          let n = rq_content_len req
          in if \<not> he_malloc env (n + 1) then Some (Inl ESP_ERR_NO_MEM, t)
             else case recv_loop (body_write n) n n (rq_net req) ([], - 1, t) of
                    (e, _, acc, last_per, t1) \<Rightarrow>
                      if e \<noteq> Recv_Done then Some (Inl ESP_FAIL, t1)
                      else Some (Inr acc,
                             if last_per \<noteq> 100
                             then ble_protocol_send_cmd ACK_PROGRAM_START_PHONE_ESP32 [100] t1 else t1))"

text \<open>
  The fields are cut out of the text without a JSON parser: \<open>quoted_at\<close> is what follows the opening
  quote of the value behind the first occurrence of a key that lies far enough from the end.
\<close>

definition quoted_at :: "string \<Rightarrow> nat \<Rightarrow> nat \<Rightarrow> string \<Rightarrow> string option" where
  "quoted_at key margin len s =
     (case strstr key s of
        None \<Rightarrow> None
      | Some i \<Rightarrow>
          if len - margin < i then None
          else (case dropWhile (\<lambda>c. c \<noteq> CHR '':'') (drop i s) of
                  [] \<Rightarrow> None
                | _ # p \<Rightarrow>
                    (case dropWhile (\<lambda>c. c = CHR '' '' \<or> c = CHR 0x09) p of
                       [] \<Rightarrow> None
                     | c # q \<Rightarrow> if c = CHR 0x22 \<and> CHR 0x22 \<in> set q then Some q else None)))"

definition until_quote :: "string \<Rightarrow> string" where
  "until_quote q = takeWhile (\<lambda>c. c \<noteq> CHR 0x22) q"

text \<open>What follows the colon behind an optional key.\<close>

definition behind_colon :: "string \<Rightarrow> nat \<Rightarrow> nat \<Rightarrow> string \<Rightarrow> string option" where
  "behind_colon key margin len s =
     (case strstr key s of
        None \<Rightarrow> None
      | Some i \<Rightarrow>
          if len - margin \<le> i then None
          else (case dropWhile (\<lambda>c. c \<noteq> CHR '':'') (drop i s) of [] \<Rightarrow> None | _ # p \<Rightarrow> Some p))"

text \<open>\<open>strtoul(p, NULL, 10)\<close> with 32-bit \<open>long\<close>.\<close>

definition strtoul10 :: "string \<Rightarrow> u32" where
  "strtoul10 s =
     (let t = dropWhile isspace s;
          neg = (take 1 t = ''-'');
          u = (if take 1 t = ''-'' \<or> take 1 t = ''+'' then drop 1 t else t);
          n = foldl (\<lambda>a d. a * 10 + d) 0 (takeWhile (\<lambda>d. d < 10) (map digit_val u))
      in if 2 ^ 32 \<le> n then - 1 else if neg then - of_nat n else of_nat n)"

record large_fw =
  lf_file_name :: string
  lf_file_type :: string
  lf_file_data :: string
  lf_save_only :: bool
  lf_file_size :: nat

text \<open>\<open>None\<close> is \<open>ok = false\<close>. The flags are set by any digit 1 that follows, not only by their own value.\<close>

definition parse_large_fw_upload_json :: "bytes \<Rightarrow> large_fw option" where
  "parse_large_fw_upload_json buf =
     (let len = length buf; s = chars_of (cstr buf) in
      if len < 32 then None
      else case quoted_at ''\"file_name\"'' 32 len s of
             None \<Rightarrow> None
           | Some p1 \<Rightarrow>
               if 64 \<le> length (until_quote p1) then None
               else case quoted_at ''\"file_type\"'' 16 len s of
                      None \<Rightarrow> None
                    | Some p2 \<Rightarrow>
                        if 16 \<le> length (until_quote p2) then None
                        else case quoted_at ''\"file_data\"'' 2 len s of
                               None \<Rightarrow> None
                             | Some p3 \<Rightarrow>
                                 if until_quote p3 = [] \<or> until_quote p1 = [] \<or> until_quote p2 = [] then None
                                 else Some \<lparr>lf_file_name = until_quote p1, lf_file_type = until_quote p2,
                                   lf_file_data = until_quote p3,
                                   lf_save_only =
                                     (case behind_colon ''\"file_save_only\"'' 4 len s of
                                        Some p \<Rightarrow> CHR ''1'' \<in> set p | None \<Rightarrow> False) \<or>
                                     (case behind_colon ''\"save_only\"'' 4 len s of
                                        Some p \<Rightarrow> CHR ''1'' \<in> set p | None \<Rightarrow> False),
                                   lf_file_size =
                                     (case behind_colon ''\"file_size\"'' 16 len s of
                                        Some p \<Rightarrow> unat (strtoul10 p) | None \<Rightarrow> 0)\<rparr>)"

text \<open>
  The handler. \<open>G_COUNT\<close> numbers the copies of the requests it keeps; the third component of its
  result is the next number. The image is decoded in the buffer of the request, which is not used
  for anything else afterwards.
\<close>

definition keep_request :: "'u http_env \<Rightarrow> nat \<Rightarrow> large_fw \<Rightarrow> bytes \<Rightarrow> fs \<Rightarrow> fs" where
  "keep_request env count f raw fs =
     (let p = c_copy 256 (''/sdcard/'' @ dec_str count @ ''_'' @ c_copy 64 (lf_file_name f) @ ''.'' @
                c_copy 16 (lf_file_type f) @ ''.json'')
      in if e_can_create (he_fw env) p then snd (fput (he_fw env) p raw (fs(p \<mapsto> []))) else fs)"

text \<open>The names, filled up from the BLE context where they are empty.\<close>

definition mobile_names :: "large_fw \<Rightarrow> legacy_ctx \<Rightarrow> string \<times> string" where
  "mobile_names f ctx =
     (let name = c_copy 64 (lf_file_name f); type = c_copy 16 (lf_file_type f);
          (found, ble_name, ble_type, ble_expected) = fw_ble_legacy_get_snapshot 64 16 ctx
      in if found
         then (if name = [] \<and> ble_name \<noteq> [] then c_copy 64 ble_name else name,
               if type = [] \<and> ble_type \<noteq> [] then c_copy 16 ble_type else type)
         else (name, type))"

definition mobile_meta :: "bool \<Rightarrow> string \<Rightarrow> string \<Rightarrow> bool \<Rightarrow> nat \<Rightarrow> fw_meta" where
  "mobile_meta enc_on name type save_only len =
     (fw_meta_init_defaults enc_on (fw_meta_zero\<lparr>fm_file_name := c_copy 64 name,
        fm_file_type := c_copy 8 (take 3 type)\<rparr>))\<lparr>fm_save_only := save_only, fm_original_size := len\<rparr>"

definition sdmmc_fw_upload_run_post_handler :: "'u http_env \<Rightarrow> http_req \<Rightarrow> nat \<Rightarrow> 'u tool \<Rightarrow>
    ((esp_err \<times> http_resp \<times> 'u tool) \<times> nat) option" where
  "sdmmc_fw_upload_run_post_handler env req count t =
     (if \<not> e_sd_ok (he_fw env) then Some (fail_500 ''sdmmc init fail'' t, count)
      else case read_body_to_buffer env req t of
        None \<Rightarrow> None
      | Some (Inl e, t1) \<Rightarrow>
          Some (fail_500 (if e = ESP_ERR_NO_MEM then ''no memory''
                          else if e = ESP_FAIL then ''recv fail'' else ''invalid json'') t1, count)
      | Some (Inr raw, t1) \<Rightarrow>
          (case parse_large_fw_upload_json raw of
             None \<Rightarrow> Some (fail_500 ''invalid params'' t1, count)
           | Some f \<Rightarrow>
               let t2 = t1\<lparr>t_fw := (t_fw t1)\<lparr>sy_fs := keep_request env (count + 1) f raw (sy_fs (t_fw t1))\<rparr>\<rparr>;
                   (name, type) = mobile_names f (t_legacy t2)
               in Some ((case he_base64 env (length (lf_file_data f) * 3 div 4 + 4) (lf_file_data f) of
                    None \<Rightarrow> fail_500 ''base64 decode fail'' t2
                  | Some decoded \<Rightarrow>
                      let (r, s) = fw_upload_save_buffer (he_fw env)
                            (mobile_meta (e_enc_on (he_fw env)) name type (lf_save_only f) (length decoded))
                            decoded (t_fw t2)
                      in if r \<noteq> ESP_OK then fail_500 ''store fail'' (set_fw t2 s)
                         else let t3 = send_ble_upload_complete (set_fw t2 s)
                              in if lf_save_only f
                                 then (ESP_OK, Sent ''File uploaded (encrypted) successfully'', t3)
                                 else let (r1, s1) = fw_upload_run_from_sdmmc (he_fw env) (be_sd_dir (he_ble env))
                                            (be_queue_ok (he_ble env)) (be_task_ok (he_ble env)) name type (t_fw t3)
                                      in (ESP_OK,
                                          Sent (if r1 = ESP_OK then ''File uploaded and update started''
                                                else ''File uploaded (encrypted) successfully''),
                                          set_fw t3 s1)), count + 1)))"

section \<open>Running a file\<close>

definition trim_ws :: "string \<Rightarrow> string" where
  "trim_ws s = rev (dropWhile isspace (rev (dropWhile isspace s)))"

text \<open>What is run: the name and type of the request, filled up or replaced from the BLE context, and
  the expected size.\<close>

definition run_names :: "string \<Rightarrow> string \<Rightarrow> bool \<Rightarrow> nat \<Rightarrow> legacy_ctx \<Rightarrow> string \<times> string \<times> nat" where
  "run_names name type has_data expected ctx =
     (let (found, ble_name, ble_type, ble_expected) = fw_ble_legacy_get_snapshot 64 16 ctx in
      if \<not> found then (trim_ws name, trim_ws type, expected)
      else let type1 = (if type = [] \<and> ble_type \<noteq> [] then c_copy 16 ble_type else type);
               name1 = (if name = [] \<and> ble_name \<noteq> [] then c_copy 64 ble_name else name);
               expected1 = (if expected = 0 \<and> 0 < ble_expected then ble_expected else expected);
               (name2, type2) =
                 (if \<not> has_data \<and> ble_name \<noteq> [] \<and> name = []
                  then (c_copy 64 ble_name, if ble_type \<noteq> [] then c_copy 16 ble_type else type1)
                  else (name1, type1))
           in (trim_ws name2, trim_ws type2, expected1))"

definition NOT_FOUND_MSG :: string where
  "NOT_FOUND_MSG = ''Error file not found on sd memory''"

text \<open>Running what is stored, and the answer.\<close>

definition fw_run_stored :: "'u http_env \<Rightarrow> bool \<Rightarrow> string \<Rightarrow> string \<Rightarrow> 'u tool \<Rightarrow> esp_err \<times> http_resp \<times> 'u tool" where
  "fw_run_stored env has_data name type t =
     (let (r, s) = fw_upload_run_from_sdmmc (he_fw env) (be_sd_dir (he_ble env)) (be_queue_ok (he_ble env))
                     (be_task_ok (he_ble env)) name type (t_fw t);
          t1 = set_fw t s
      in if r = ESP_OK then (ESP_OK, Sent ''Firmware Update Start Success'', t1)
         else let msg = (if s_message (sy_state s) = [] then ''update failed'' else s_message (sy_state s))
              in fail_500 (if \<not> has_data \<and>
                     (strstr ''open fail'' msg \<noteq> None \<or> strstr ''file not found'' msg \<noteq> None \<or>
                      strstr ''file invalid'' msg \<noteq> None \<or> strstr ''not set'' msg \<noteq> None)
                   then NOT_FOUND_MSG else msg) t1)"

definition fw_run_with_data :: "'u http_env \<Rightarrow> fw_format \<Rightarrow> bool \<Rightarrow> string \<Rightarrow> string \<Rightarrow> string \<Rightarrow> 'u tool \<Rightarrow>
    esp_err \<times> http_resp \<times> 'u tool" where
  "fw_run_with_data env fmt save_only name type data t =
     (let out_len = length data * 3 div 4 + 4 in
      if \<not> he_malloc env out_len then fail_500 ''no memory'' t
      else case he_base64 env out_len data of
             None \<Rightarrow> fail_500 ''base64 decode fail'' t
           | Some decoded \<Rightarrow>
               let m = (fw_upload_prepare_meta (e_enc_on (he_fw env)) name type fmt)\<lparr>fm_save_only := save_only\<rparr>;
                   (r, s) = fw_upload_save_buffer (he_fw env) m decoded (t_fw t)
               in if r \<noteq> ESP_OK then fail_500 ''store fail'' (set_fw t s)
                  else if save_only then (ESP_OK, Sent ''File stored'', set_fw t s)
                  else fw_run_stored env True name type (set_fw t s))"

definition sdmmc_fw_run_post_handler :: "'u http_env \<Rightarrow> http_req \<Rightarrow> 'u tool \<Rightarrow>
    (esp_err \<times> http_resp \<times> 'u tool) option" where
  "sdmmc_fw_run_post_handler env req t =
     (if \<not> e_sd_ok (he_fw env) then Some (fail_500 ''sdmmc init fail'' t)
      else case read_json_body env req of
        None \<Rightarrow> None
      | Some (Inl _) \<Rightarrow> Some (fail_500 ''invalid json'' t)
      | Some (Inr root) \<Rightarrow>
          (case (json_text root ''file_name'', json_text root ''file_type'') of
             (Some jname, Some jtype) \<Rightarrow>
               let data = (case json_text root ''file_data'' of Some d \<Rightarrow> d | None \<Rightarrow> []);
                   save_only = (case json_num root ''file_save_only'' of Some n \<Rightarrow> n \<noteq> 0 | None \<Rightarrow> False);
                   expected0 = (case json_num root ''file_size'' of Some n \<Rightarrow> n | None \<Rightarrow> 0);
                   fmt = (case json_text root ''file_format'' of
                            Some s \<Rightarrow> fw_format_from_str s | None \<Rightarrow> FW_FMT_UNKNOWN);
                   (name, type, expected) =
                     run_names (c_copy 64 jname) (c_copy 16 jtype) (data \<noteq> []) expected0 (t_legacy t);
                   t1 = tcp_server_set_pending_file name type t;
                   t2 = (if 0 < expected then tcp_server_set_expected_size expected t1 else t1)
               in Some (if data = []
                    then (case fw_storage_build_path 384 name type of
                            Some p \<Rightarrow> if sy_fs (t_fw t2) p = None then fail_500 NOT_FOUND_MSG t2
                                      else fw_run_stored env False name type t2
                          | None \<Rightarrow> fw_run_stored env False name type t2)
                    else fw_run_with_data env fmt save_only name type data t2)
           | _ \<Rightarrow> Some (fail_500 ''invalid params'' t)))"

section \<open>Progress\<close>

fun fw_step_to_str :: "fw_step \<Rightarrow> string" where
  "fw_step_to_str FW_STEP_PREPARE = ''PREPARE''"
| "fw_step_to_str FW_STEP_WAIT_USER = ''WAIT_USER''"
| "fw_step_to_str FW_STEP_TRANSFER = ''TRANSFER''"
| "fw_step_to_str FW_STEP_DECODE = ''DECODE''"
| "fw_step_to_str FW_STEP_WRITE = ''WRITE''"
| "fw_step_to_str FW_STEP_VERIFY = ''VERIFY''"
| "fw_step_to_str FW_STEP_DONE = ''DONE''"
| "fw_step_to_str FW_STEP_ERROR = ''ERROR''"

fun fw_step_num :: "fw_step \<Rightarrow> nat" where
  "fw_step_num FW_STEP_PREPARE = 0"
| "fw_step_num FW_STEP_WAIT_USER = 1"
| "fw_step_num FW_STEP_TRANSFER = 2"
| "fw_step_num FW_STEP_DECODE = 3"
| "fw_step_num FW_STEP_WRITE = 4"
| "fw_step_num FW_STEP_VERIFY = 5"
| "fw_step_num FW_STEP_DONE = 6"
| "fw_step_num FW_STEP_ERROR = 7"

definition fw_state_get_handler :: "'u tool \<Rightarrow> esp_err \<times> http_resp \<times> 'u tool" where
  "fw_state_get_handler t =
     (let st = sy_state (t_fw t)
      in (ESP_OK, Sent (c_copy 192 (''{\"step\":'' @ dec_str (fw_step_num (s_step st)) @ '',\"step_name\":\"'' @
            fw_step_to_str (s_step st) @ ''\",\"progress\":'' @ dec_str (unat (s_progress st)) @
            '',\"message\":\"'' @ s_message st @ ''\"}'')), t))"

section \<open>Storing a raw body\<close>

lemma raw_meta_names:
  assumes "length name < 64" "length type = 3"
  shows "fm_file_name (raw_meta env req name type fs) = name"
    "fm_file_type (raw_meta env req name type fs) = type"
  using prepare_meta_names [OF assms] assms
  by (auto simp: raw_meta_def Let_def c_copy_id split: sum.splits)


definition http_env_for :: "fw_meta \<Rightarrow> bytes list http_env" where
  "http_env_for m = \<lparr>he_ble = example_ble_env\<lparr>be_fw := env_for m\<rparr>, he_malloc = (\<lambda>_. True),
     he_base64 = (\<lambda>n s. if s = ''AQID'' then Some [1, 2, 3] else None)\<rparr>"

lemma prepared_meta_works:
  "fw_meta_wf ((fw_upload_prepare_meta True (replicate 36 CHR ''F'') ''A11'' FW_FMT_UNKNOWN)
      \<lparr>fm_uart_baud := b, fm_original_size := 3\<rparr>)"
  "fm_encrypted (fw_upload_prepare_meta True (replicate 36 CHR ''F'') ''A11'' FW_FMT_UNKNOWN)"
  by (simp_all add: fw_meta_wf_def c_string_def fw_upload_prepare_meta_def fw_meta_init_defaults_def
      k_fw_meta_defaults_def k_fw_meta_defaults_S_def k_fw_meta_defaults_A0_def
      k_fw_meta_defaults_A8_def meta_default_def strneq_def c_copy_def fw_meta_zero_def)


section \<open>Storing the request of the phone\<close>

lemma cstr_bytes_of: "CHR 0x00 \<notin> set s \<Longrightarrow> cstr (bytes_of s) = bytes_of s"
proof (induction s)
  case Nil
  then show ?case by (simp add: cstr_def bytes_of_def)
next
  case (Cons c s)
  have "byte_of c \<noteq> 0"
  proof
    assume "byte_of c = 0"
    then have "chars_of (bytes_of [c]) = chars_of (bytes_of [CHR 0x00])" by (simp add: bytes_of_def byte_of_def)
    then show False using Cons.prems by (simp only: chars_of_bytes_of) simp
  qed
  then show ?case using Cons by (simp add: cstr_def bytes_of_def)
qed

lemma find_key_head: "find_key key segs = Some (i, k # r) \<Longrightarrow> k = key"
  by (induction key segs arbitrary: i rule: find_key.induct) (auto split: if_splits)

lemma quoted_at_segment:
  assumes "\<forall>x \<in> set segs. CHR 0x22 \<notin> set x" "CHR 0x22 \<notin> set key" "CHR '':'' \<notin> set key"
    and "find_key key segs = Some (i, k # '':'' # v # w # rest)" "i \<le> len - margin"
  shows "quoted_at (quote key) margin len (qjoin segs) = Some (v @ CHR 0x22 # qjoin (w # rest))"
proof -
  have k: "k = key" using find_key_head [OF assms(4)] .
  have "strstr (quote key) (qjoin segs) = Some i"
    "drop i (qjoin segs) = CHR 0x22 # key @ CHR 0x22 # CHR '':'' # CHR 0x22 # v @ CHR 0x22 # qjoin (w # rest)"
    using strstr_segments [OF assms(1,2)] assms(4) k by simp_all
  moreover have "dropWhile (\<lambda>c. c \<noteq> CHR '':'') (key @ r) = dropWhile (\<lambda>c. c \<noteq> CHR '':'') r" for r
    using assms(3) by (intro dropWhile_append2) auto
  ultimately show ?thesis using assms(5) by (simp add: quoted_at_def)
qed

lemma behind_colon_segment:
  assumes "\<forall>x \<in> set segs. CHR 0x22 \<notin> set x" "CHR 0x22 \<notin> set key" "CHR '':'' \<notin> set key"
    and "find_key key segs = Some (i, [k, CHR '':'' # v])" "i < len - margin"
  shows "behind_colon (quote key) margin len (qjoin segs) = Some v"
proof -
  have k: "k = key" using find_key_head [OF assms(4)] .
  have "strstr (quote key) (qjoin segs) = Some i"
    "drop i (qjoin segs) = CHR 0x22 # key @ CHR 0x22 # CHR '':'' # v"
    using strstr_segments [OF assms(1,2)] assms(4) k by simp_all
  moreover have "dropWhile (\<lambda>c. c \<noteq> CHR '':'') (key @ r) = dropWhile (\<lambda>c. c \<noteq> CHR '':'') r" for r
    using assms(3) by (intro dropWhile_append2) auto
  ultimately show ?thesis using assms(5) by (simp add: behind_colon_def)
qed

lemma behind_colon_absent:
  assumes "\<forall>x \<in> set segs. CHR 0x22 \<notin> set x" "CHR 0x22 \<notin> set key" "find_key key segs = None"
  shows "behind_colon (quote key) margin len (qjoin segs) = None"
  using strstr_segments [OF assms(1,2)] assms(3) by (simp add: behind_colon_def)

text \<open>The request as the phone writes it: the flag comes last.\<close>

definition mobile_segs :: "string \<Rightarrow> string \<Rightarrow> string \<Rightarrow> string \<Rightarrow> bool \<Rightarrow> string list" where
  "mobile_segs name type data sz save =
     [''{'', ''file_name'', '':'', name, '','', ''file_type'', '':'', type, '','', ''file_data'', '':'', data,
      '','', ''file_size'', '':'' @ sz @ '','', ''file_save_only'', '':'' @ (if save then ''1'' else ''0'') @ ''}'']"

definition mobile_body :: "string \<Rightarrow> string \<Rightarrow> string \<Rightarrow> string \<Rightarrow> bool \<Rightarrow> bytes" where
  "mobile_body name type data sz save = bytes_of (qjoin (mobile_segs name type data sz save))"

definition plain_text :: "string \<Rightarrow> bool" where
  "plain_text s \<longleftrightarrow> CHR 0x22 \<notin> set s \<and> CHR 0x00 \<notin> set s"

lemma mobile_body_parsed:
  assumes "length name = 36" "length type = 3" "data \<noteq> []" "CHR ''_'' \<notin> set data"
    and "plain_text name" "plain_text type" "plain_text data" "plain_text sz"
  shows "\<exists>n. parse_large_fw_upload_json (mobile_body name type data sz save) =
    Some \<lparr>lf_file_name = name, lf_file_type = type, lf_file_data = data, lf_save_only = save, lf_file_size = n\<rparr>"
proof -
  let ?segs = "mobile_segs name type data sz save" and ?s = "qjoin (mobile_segs name type data sz save)"
  have q: "\<forall>x \<in> set ?segs. CHR 0x22 \<notin> set x" and z: "CHR 0x00 \<notin> set ?s"
    using assms(5-8) by (auto simp: mobile_segs_def plain_text_def)
  have ne: "name \<noteq> ''file_type''" "name \<noteq> ''file_data''" "name \<noteq> ''file_save_only''" "name \<noteq> ''save_only''"
    "type \<noteq> ''file_data''" "type \<noteq> ''file_save_only''" "type \<noteq> ''save_only''" "type \<noteq> ''file_size''"
    "data \<noteq> ''file_save_only''" "data \<noteq> ''save_only''" "name \<noteq> ''file_size''"  "data \<noteq> ''file_size''"
    using assms(1,2,4) by auto
  have len: "length ?s = length data + length sz + 117"
    using assms(1,2) by (simp add: mobile_segs_def)
  have t: "chars_of (cstr (bytes_of ?s)) = ?s" using cstr_bytes_of [OF z] by simp
  have k: "find_key ''file_name'' ?segs = Some (1, drop 1 ?segs)"
    "find_key ''file_type'' ?segs = Some (52, drop 5 ?segs)"
    "find_key ''file_data'' ?segs = Some (70, drop 9 ?segs)"
    "find_key ''file_save_only'' ?segs = Some (98 + length data + length sz, drop 15 ?segs)"
    "find_key ''save_only'' ?segs = None"
    using ne assms(1,2) by (simp_all add: mobile_segs_def)
  have keys: "''\"file_name\"'' = quote ''file_name''" "''\"file_type\"'' = quote ''file_type''"
    "''\"file_data\"'' = quote ''file_data''" "''\"file_save_only\"'' = quote ''file_save_only''"
    "''\"save_only\"'' = quote ''save_only''"
    by (simp_all add: quote_def)
  have r: "drop 1 ?segs = ''file_name'' # '':'' # name # '','' # drop 5 ?segs"
    "drop 5 ?segs = ''file_type'' # '':'' # type # '','' # drop 9 ?segs"
    "drop 9 ?segs = ''file_data'' # '':'' # data # '','' # drop 13 ?segs"
    "drop 15 ?segs = [''file_save_only'', CHR '':'' # (if save then ''1'' else ''0'') @ ''}'']"
    by (simp_all add: mobile_segs_def)
  have at: "\<exists>r. quoted_at ''\"file_name\"'' 32 (length ?s) ?s = Some (name @ CHR 0x22 # r)"
    "\<exists>r. quoted_at ''\"file_type\"'' 16 (length ?s) ?s = Some (type @ CHR 0x22 # r)"
    "\<exists>r. quoted_at ''\"file_data\"'' 2 (length ?s) ?s = Some (data @ CHR 0x22 # r)"
    "behind_colon ''\"file_save_only\"'' 4 (length ?s) ?s = Some ((if save then ''1'' else ''0'') @ ''}'')"
    "behind_colon ''\"save_only\"'' 4 (length ?s) ?s = None"
    unfolding keys
    using quoted_at_segment [OF q _ _ k(1) [unfolded r(1)], of "length ?s" 32]
      quoted_at_segment [OF q _ _ k(2) [unfolded r(2)], of "length ?s" 16]
      quoted_at_segment [OF q _ _ k(3) [unfolded r(3)], of "length ?s" 2]
      behind_colon_segment [OF q _ _ k(4) [unfolded r(4)], of "length ?s" 4]
      behind_colon_absent [OF q _ k(5)] len
    by auto
  then obtain r1 r2 r3 where at': "quoted_at ''\"file_name\"'' 32 (length ?s) ?s = Some (name @ CHR 0x22 # r1)"
    "quoted_at ''\"file_type\"'' 16 (length ?s) ?s = Some (type @ CHR 0x22 # r2)"
    "quoted_at ''\"file_data\"'' 2 (length ?s) ?s = Some (data @ CHR 0x22 # r3)"
    by blast
  have u: "until_quote (name @ CHR 0x22 # r1) = name" "until_quote (type @ CHR 0x22 # r2) = type"
    "until_quote (data @ CHR 0x22 # r3) = data"
    using assms(5-7) by (simp_all add: until_quote_def plain_text_def takeWhile_to_quote)
  have b: "length (bytes_of ?s) = length ?s" "\<not> length ?s < 32" using len by simp_all
  show ?thesis
    unfolding mobile_body_def parse_large_fw_upload_json_def Let_def t b(1) at' at(4,5)
    using b(2) u assms(1-3) by auto
qed

lemma send_cmd_fields [simp]:
  "t_fw (ble_protocol_send_cmd c p t) = t_fw t" "t_legacy (ble_protocol_send_cmd c p t) = t_legacy t"
  "trace (t_hht (ble_protocol_send_cmd c p t)) = trace (t_hht t) @ [Cmd c p]"
  by (simp_all add: ble_protocol_send_cmd_def emit_def)

lemma set_fw_fields [simp]:
  "t_fw (set_fw t s) = s" "t_legacy (set_fw t s) = t_legacy t" "t_hht (set_fw t s) = t_hht t"
  by (simp_all add: set_fw_def)

interpretation request: recv_sink "body_write n"
  "\<lambda>d s. fst s = d \<and> t_fw (snd (snd s)) = t_fw t0 \<and> t_legacy (snd (snd s)) = t_legacy t0" for n t0
  by unfold_locales (auto simp: body_write_def Let_def split: prod.splits)

lemma read_body_whole:
  assumes "rq_header req ''Content-Type'' = Some ''application/json''"
    and "take (rq_content_len req) (delivered (rq_net req)) = raw" "length raw = rq_content_len req" "raw \<noteq> []"
    and "he_malloc env (rq_content_len req + 1)"
  shows "\<exists>t'. read_body_to_buffer env req t = Some (Inr raw, t') \<and> t_fw t' = t_fw t \<and> t_legacy t' = t_legacy t"
proof -
  let ?n = "rq_content_len req"
  have n: "0 < ?n" "?n \<le> length (delivered (rq_net req))" using assms(2-4) by auto
  have h: "fst ([], - 1, t) = [] \<and> t_fw (snd (snd ([] :: bytes, - 1 :: int, t))) = t_fw t \<and>
      t_legacy (snd (snd ([] :: bytes, - 1 :: int, t))) = t_legacy t" by simp
  obtain acc per t' where l: "recv_loop (body_write ?n) ?n ?n (rq_net req) ([], - 1, t) =
      (Recv_Done, 0, acc, per, t')" "acc = raw" "t_fw t' = t_fw t" "t_legacy t' = t_legacy t"
    using request.recv_holds [OF h n(1), of ?n ?n "rq_net req"] n(2) assms(2) by auto
  have "json_content req = Some True"
    using assms(1) by (simp add: json_content_def c_copy_def)
  then show ?thesis using l assms(5) by (simp add: read_body_to_buffer_def)
qed

text \<open>C38: The phone's upload arrives. For a request as the phone writes it (a name of 36 characters, a
  type of three, Base64 data, the save-only flag last) whose body arrives whole and whose data
  decodes to a non-empty image, on a store that works (with a meta text of at most 511 characters): the request succeeds, the image read back by
  name and type is the decoded one, nothing is started, and the last message to the phone is the
  completion mark.\<close>

theorem mobile_upload_stored:
  fixes t :: "'u tool" and req :: http_req and env :: "'u http_env" and name type data sz :: string
  defines "body \<equiv> mobile_body name type data sz True"
  assumes "length name = 36" "length type = 3" "data \<noteq> []" "CHR ''_'' \<notin> set data"
    and "plain_text name" "plain_text type" "plain_text data" "plain_text sz"
    and "rq_header req ''Content-Type'' = Some ''application/json''"
    and "rq_content_len req = length body" "take (length body) (delivered (rq_net req)) = body"
    and "he_malloc env (length body + 1)"
    and "he_base64 env (length data * 3 div 4 + 4) data = Some img" "img \<noteq> []"
    and "storage_works (he_fw env) key (mobile_meta (e_enc_on (he_fw env)) name type True (length img))"
  shows "\<exists>t'. sdmmc_fw_upload_run_post_handler env req count t =
      Some ((ESP_OK, Sent ''File uploaded (encrypted) successfully'', t'), count + 1) \<and>
    (\<forall>k > 0. read_image (he_fw env) k name type (sy_fs (t_fw t')) = Some img) \<and>
    sy_queue (t_fw t') = sy_queue (t_fw t) \<and>
    last (trace (t_hht t')) = Cmd ACK_PROGRAM_START_PHONE_ESP32 [118]"
proof -
  obtain n where p: "parse_large_fw_upload_json body = Some \<lparr>lf_file_name = name, lf_file_type = type,
      lf_file_data = data, lf_save_only = True, lf_file_size = n\<rparr>"
    unfolding body_def using mobile_body_parsed [OF assms(2-9), of True] by (rule exE)
  have ne: "body \<noteq> []" using p by (auto simp: parse_large_fw_upload_json_def)
  obtain t1 where b: "read_body_to_buffer env req t = Some (Inr body, t1)" "t_fw t1 = t_fw t"
    "t_legacy t1 = t_legacy t"
    using read_body_whole [OF assms(10), unfolded assms(11), OF assms(12) refl ne assms(13)] by blast
  have sd: "e_sd_ok (he_fw env)" using assms(16) by (simp add: storage_works_def)
  let ?f = "\<lparr>lf_file_name = name, lf_file_type = type, lf_file_data = data, lf_save_only = True,
      lf_file_size = n\<rparr>"
  let ?fs = "keep_request env (count + 1) ?f body (sy_fs (t_fw t1))"
  have names: "mobile_names ?f ctx = (name, type)" for ctx
    using assms(2,3) by (auto simp: mobile_names_def c_copy_id fw_ble_legacy_get_snapshot_def)
  let ?m = "mobile_meta (e_enc_on (he_fw env)) name type True (length img)"
  have m: "?m\<lparr>fm_original_size := length img\<rparr> = ?m" by (simp add: mobile_meta_def)
  have mn: "fm_file_name ?m = name" "fm_file_type ?m = type"
    using prepare_meta_names [of name type "e_enc_on (he_fw env)" FW_FMT_UNKNOWN] assms(2,3)
    by (simp_all add: mobile_meta_def fw_upload_prepare_meta_def Let_def)
  obtain s' where s: "fw_upload_save_buffer (he_fw env) ?m img ((t_fw t1)\<lparr>sy_fs := ?fs\<rparr>) = (ESP_OK, s')"
    "sy_queue s' = sy_queue ((t_fw t1)\<lparr>sy_fs := ?fs\<rparr>)"
    "\<forall>k > 0. read_image (he_fw env) k name type (sy_fs s') = Some img"
    using save_buffer_holds [of "he_fw env" key img ?m, unfolded m mn, OF assms(16,15)] by blast
  show ?thesis
    unfolding sdmmc_fw_upload_run_post_handler_def
    using sd b p names assms(14) s(1,3) s(2) [simplified]
    by (simp add: send_ble_upload_complete_def model_simps)
qed

lemma mobile_upload_stored_witness:
  "\<exists>env t'. sdmmc_fw_upload_run_post_handler env
      \<lparr>rq_content_len = length (mobile_body (replicate 36 CHR ''F'') ''A11'' ''AQID'' ''3'' True),
       rq_header = [''Content-Type'' \<mapsto> ''application/json''], rq_query = Map.empty,
       rq_net = [mobile_body (replicate 36 CHR ''F'') ''A11'' ''AQID'' ''3'' True]\<rparr> 0 example_tool =
      Some ((ESP_OK, Sent ''File uploaded (encrypted) successfully'', t'), 1) \<and>
    read_image (he_fw env) 5 (replicate 36 CHR ''F'') ''A11'' (sy_fs (t_fw t')) = Some [1, 2, 3]"
proof -
  let ?n = "replicate 36 CHR ''F''"
  let ?b = "mobile_body ?n ''A11'' ''AQID'' ''3'' True"
  let ?q = "\<lparr>rq_content_len = length ?b, rq_header = [''Content-Type'' \<mapsto> ''application/json''],
      rq_query = Map.empty, rq_net = [?b]\<rparr>"
  let ?m = "mobile_meta True ?n ''A11'' True 3"
  let ?env = "http_env_for ?m"
  have m: "fw_meta_wf ?m" "fm_encrypted ?m"
    by (simp_all add: mobile_meta_def fw_meta_wf_def c_string_def fw_meta_init_defaults_def
        k_fw_meta_defaults_def k_fw_meta_defaults_S_def k_fw_meta_defaults_A0_def
        k_fw_meta_defaults_A8_def meta_default_def strneq_def c_copy_def fw_meta_zero_def)
  have e: "e_enc_on (he_fw ?env)" "he_malloc ?env k" "he_base64 ?env k ''AQID'' = Some [1, 2, 3]"
    "storage_works (he_fw ?env) (the (fw_crypto_init_key example_env)) ?m" for k
    using env_for_works [OF m]
    by (simp_all add: http_env_for_def env_for_def example_env_def)
  have t: "plain_text ?n" "plain_text ''A11''" "plain_text ''AQID''" "plain_text ''3''" "CHR ''_'' \<notin> set ''AQID''"
    by (simp_all add: plain_text_def)
  have d: "take (length ?b) (delivered [?b]) = ?b"
    by (simp add: delivered_def mobile_body_def bytes_of_def mobile_segs_def)
  have w: "storage_works (he_fw ?env) (the (fw_crypto_init_key example_env))
      (mobile_meta (e_enc_on (he_fw ?env)) ?n ''A11'' True (length [1 :: u8, 2, 3]))"
    using e(1,4) by (simp add: numeral_3_eq_3)
  have "\<exists>t'. sdmmc_fw_upload_run_post_handler ?env ?q 0 example_tool =
      Some ((ESP_OK, Sent ''File uploaded (encrypted) successfully'', t'), 0 + 1) \<and>
    (\<forall>k > 0. read_image (he_fw ?env) k ?n ''A11'' (sy_fs (t_fw t')) = Some [1, 2, 3]) \<and>
    sy_queue (t_fw t') = sy_queue (t_fw example_tool) \<and>
    last (trace (t_hht t')) = Cmd ACK_PROGRAM_START_PHONE_ESP32 [118]"
    by (rule mobile_upload_stored [OF _ _ _ t(5) t(1-4) _ _ _ _ _ _ w])
      (simp_all only: d e http_req.simps, simp_all)
  then show ?thesis by (intro exI [of _ ?env]) auto
qed

lemma run_names_given:
  assumes "name \<noteq> []" "type \<noteq> []" "trim_ws name = name" "trim_ws type = type"
  shows "\<exists>x. run_names name type d e ctx = (name, type, x)"
  using assms by (auto simp: run_names_def fw_ble_legacy_get_snapshot_def Let_def)

text \<open>A request to run a file that is not on the card starts nothing. When a body of valid JSON names
  a file without enclosing its data, and no such file exists, the answer is the error text the
  phone waits for, no job is queued, no file changes and nothing is sent to the phone; only the
  file announced for the TCP server is replaced.\<close>

theorem fw_run_missing_file:
  fixes t :: "'u tool" and req :: http_req and env :: "'u http_env"
  assumes "e_sd_ok (he_fw env)" "read_json_body env req = Some (Inr root)"
    and "json_text root ''file_name'' = Some name" "json_text root ''file_type'' = Some type"
    and "json_text root ''file_data'' = None"
    and "0 < length name" "length name < 64" "length type < 8" "type \<noteq> []" "trim_ws name = name" "trim_ws type = type"
    and "sy_fs (t_fw t) (''/sdcard/'' @ name @ ''.'' @ type) = None"
  shows "\<exists>t'. sdmmc_fw_run_post_handler env req t =
      Some (ESP_FAIL, Error 500 ''Error file not found on sd memory'', t') \<and>
    t_fw t' = t_fw t \<and> t_hht t' = t_hht t \<and> s_pending_name t' = name \<and> s_pending_type t' = type"
proof -
  let ?e = "case json_num root ''file_size'' of None \<Rightarrow> 0 | Some n \<Rightarrow> n"
  obtain x where n: "run_names name type False ?e (t_legacy t) = (name, type, x)"
    using run_names_given [OF _ assms(9-11)] assms(6) by blast
  have p: "fw_storage_build_path 384 name type = Some (''/sdcard/'' @ name @ ''.'' @ type)"
    using assms(7,8) by (simp add: fw_storage_build_path_def)
  show ?thesis
    using assms p n
    by (simp add: sdmmc_fw_run_post_handler_def c_copy_id Let_def tcp_server_set_pending_file_def
        tcp_server_set_expected_size_def fail_500_def NOT_FOUND_MSG_def)
qed

lemma fw_run_missing_file_witness:
  "\<exists>env t'. sdmmc_fw_run_post_handler env
      \<lparr>rq_content_len = 0, rq_header = [''Content-Type'' \<mapsto> ''application/json''], rq_query = Map.empty,
       rq_net = []\<rparr> example_tool =
      Some (ESP_FAIL, Error 500 ''Error file not found on sd memory'', t') \<and>
    t_fw t' = t_fw example_tool \<and> s_pending_name t' = ''APP''"
proof -
  let ?root = "map_of [(''file_name'', JStr ''APP''), (''file_type'', JStr ''A11'')]"
  let ?env = "(http_env_for fw_meta_zero)\<lparr>he_ble := example_ble_env\<lparr>be_fw :=
      example_env\<lparr>e_json_parse := (\<lambda>_. Some ?root)\<rparr>\<rparr>\<rparr>"
  let ?q = "\<lparr>rq_content_len = 0, rq_header = [''Content-Type'' \<mapsto> ''application/json''], rq_query = Map.empty,
       rq_net = []\<rparr>"
  have "read_json_body ?env ?q = Some (Inr ?root)"
    by (subst read_json_body_def, subst recv_loop.simps)
      (simp add: json_content_def c_copy_def http_env_for_def)
  moreover have "e_sd_ok (he_fw ?env)" by (simp add: example_env_def)
  ultimately show ?thesis
    using fw_run_missing_file [of ?env ?q ?root "''APP''" "''A11''" example_tool]
    by (intro exI [of _ ?env])
      (auto simp: json_text_def trim_ws_def isspace_def example_tool_def example_sys_def)
qed

end
