(* ===== verification/Http_Files.thy ===== *)
theory Http_Files
  imports Http_Upload
begin

text \<open>
  The HTTP requests on single files: the file browser (\<open>rest_fs_browser.c\<close>), deleting, listing and
  formatting for the phone (\<open>rest_common_delete.c\<close>, \<open>rest_sdmmc_fw_get_list.c\<close>,
  \<open>rest_fat_get_list.c\<close>, \<open>rest_common_format.c\<close>). A listing is the list of names and sizes that the
  JSON library prints; times of files and directories inside a directory are left out. The last
  section is the table of requests that the server answers (\<open>http_server.c\<close>); the handlers that only
  send a fixed page are names in it.
\<close>

section \<open>Names and volumes\<close>

definition is_valid_name :: "string \<Rightarrow> bool" where
  "is_valid_name name \<longleftrightarrow> name \<noteq> [] \<and> strstr ''..'' name = None \<and> CHR ''/'' \<notin> set name \<and> CHR 0x5C \<notin> set name"

text \<open>
  A value of the query string, and what the buffer of \<open>n\<close> bytes holds then: a value that does not fit
  is cut off, but counts as missing. A query string of more than 127 characters has no values.
\<close>

definition get_query_value :: "http_req \<Rightarrow> string \<Rightarrow> nat \<Rightarrow> bool \<times> string" where
  "get_query_value req key n =
     (case rq_query req key of None \<Rightarrow> (False, []) | Some v \<Rightarrow> (length v < n, c_copy n v))"

datatype volume = Sdmmc | Flash

fun mount_of :: "volume \<Rightarrow> string" where
  "mount_of Sdmmc = ''/sdcard''"
| "mount_of Flash = ''/c''"

fun label_of :: "volume \<Rightarrow> string" where
  "label_of Sdmmc = ''sdmmc''"
| "label_of Flash = ''flash''"

definition resolve_fs :: "'u http_env \<Rightarrow> http_req \<Rightarrow> esp_err + volume" where
  "resolve_fs env req =
     (let (ok, fs) = get_query_value req ''fs'' 16 in
      if \<not> ok then Inl ESP_ERR_INVALID_ARG
      else if fs = ''sdmmc'' then (if e_sd_ok (he_fw env) then Inr Sdmmc else Inl ESP_FAIL)
      else if fs = ''flash'' \<or> fs = ''spiflash'' then (if be_flash_ready (he_ble env) then Inr Flash else Inl ESP_FAIL)
      else Inl ESP_ERR_INVALID_ARG)"

definition set_fs :: "'u tool \<Rightarrow> fs \<Rightarrow> 'u tool" where
  "set_fs t fs = t\<lparr>t_fw := (t_fw t)\<lparr>sy_fs := fs\<rparr>\<rparr>"

abbreviation get_fs :: "'u tool \<Rightarrow> fs" where
  "get_fs t \<equiv> sy_fs (t_fw t)"

definition file_path :: "volume \<Rightarrow> string \<Rightarrow> string" where
  "file_path v name = c_copy 384 (mount_of v @ ''/'' @ name)"

section \<open>The file browser\<close>

text \<open>
  The length of a body is a \<open>size_t\<close> of 32 bits, which the handler keeps in an \<open>int\<close>: the loop counts
  down from it while it is positive, so that it does not run at all for a length of \<open>2 ^ 31\<close> or more.
\<close>

definition int_remaining :: "nat \<Rightarrow> int" where
  "int_remaining n = sint (of_nat n :: u32)"

lemma int_remaining_small: "n < 2 ^ 31 \<Longrightarrow> int_remaining n = int n"
  by (simp add: int_remaining_def signed_of_nat signed_take_bit_int_eq_self)

lemma int_remaining_large: "2 ^ 31 \<le> n \<Longrightarrow> n < 2 ^ 32 \<Longrightarrow> int_remaining n < 0"
proof -
  assume n: "2 ^ 31 \<le> n" "n < 2 ^ 32"
  have "(int n + 2147483648) mod 4294967296 = int n - 2147483648"
  proof -
    have "(int n + 2147483648) mod 4294967296 = (int n - 2147483648 + 4294967296) mod 4294967296"
      by (rule arg_cong [where f = "\<lambda>x. x mod 4294967296"]) simp
    also have "\<dots> = (int n - 2147483648) mod 4294967296" by (rule mod_add_self2)
    finally show ?thesis using n by (simp add: mod_pos_pos_trivial)
  qed
  then show ?thesis
    using n by (simp add: int_remaining_def signed_of_nat signed_take_bit_eq_take_bit_shift take_bit_eq_mod)
qed

text \<open>The body of an upload is appended to the new file; the result of \<open>fwrite\<close> is not looked at.\<close>

definition file_write :: "fw_env \<Rightarrow> string \<Rightarrow> bytes \<Rightarrow> nat \<Rightarrow> fs \<Rightarrow> esp_err \<times> fs" where
  "file_write env p bs k fs = (ESP_OK, snd (fput env p bs fs))"

definition fs_upload_post_handler :: "'u http_env \<Rightarrow> http_req \<Rightarrow> 'u tool \<Rightarrow> esp_err \<times> http_resp \<times> 'u tool" where
  "fs_upload_post_handler env req t =
     (case resolve_fs env req of
        Inl _ \<Rightarrow> fail_400 ''invalid fs'' t
      | Inr v \<Rightarrow>
          let (ok, name) = get_query_value req ''name'' 128 in
          if \<not> ok \<or> \<not> is_valid_name name then fail_400 ''invalid name'' t
          else let p = file_path v name in
               if \<not> e_can_create (he_fw env) p then fail_500 ''open file failed'' t
               else case recv_loop (file_write (he_fw env) p) 1024 (nat (int_remaining (rq_content_len req))) (rq_net req)
                           ((get_fs t)(p \<mapsto> [])) of
                      (e, _, fs) \<Rightarrow>
                        if e \<noteq> Recv_Done then fail_500 ''recv failed'' (set_fs t fs)
                        else (ESP_OK, Sent ''Upload OK'', set_fs t fs))"

text \<open>Here the body is read as JSON whatever its content type is.\<close>

definition read_any_json_body :: "'u http_env \<Rightarrow> http_req \<Rightarrow> esp_err + (string \<Rightarrow> jval option)" where
  "read_any_json_body env req =
     (let n = rq_content_len req in
      if \<not> he_malloc env (n + 1) then Inl ESP_ERR_NO_MEM
      else case recv_loop append_write n n (rq_net req) [] of
             (e, _, body) \<Rightarrow>
               if e \<noteq> Recv_Done then Inl ESP_FAIL
               else (case e_json_parse (he_fw env) (cstr body) of
                       None \<Rightarrow> Inl ESP_ERR_INVALID_ARG | Some root \<Rightarrow> Inr root))"

text \<open>The name in the body, or else the one in the query, even when that was cut off.\<close>

definition delete_name :: "'u http_env \<Rightarrow> http_req \<Rightarrow> string" where
  "delete_name env req =
     (let name = (case read_any_json_body env req of
                    Inl _ \<Rightarrow> []
                  | Inr root \<Rightarrow> (case json_text root ''name'' of Some s \<Rightarrow> c_copy 128 s | None \<Rightarrow> []))
      in if name = [] then snd (get_query_value req ''name'' 128) else name)"

definition fs_delete_post_handler :: "'u http_env \<Rightarrow> http_req \<Rightarrow> 'u tool \<Rightarrow> esp_err \<times> http_resp \<times> 'u tool" where
  "fs_delete_post_handler env req t =
     (case resolve_fs env req of
        Inl _ \<Rightarrow> fail_400 ''invalid fs'' t
      | Inr v \<Rightarrow>
          let name = delete_name env req in
          if \<not> is_valid_name name then fail_400 ''invalid name'' t
          else let (ok, fs) = remove_file (file_path v name) (get_fs t)
               in if \<not> ok then fail_500 ''delete failed'' (set_fs t fs)
                  else (ESP_OK, Sent ''Delete OK'', set_fs t fs))"

text \<open>A download is sent in chunks of at most 1024 bytes; \<open>sent i\<close> says whether chunk \<open>i\<close> goes through.\<close>

datatype file_resp = File_Error nat string | File_Data bool bytes

function download_loop :: "(nat \<Rightarrow> bool) \<Rightarrow> nat \<Rightarrow> bytes \<Rightarrow> bool \<times> bytes" where
  "download_loop sent i contents =
     (if contents = [] then (True, [])
      else if \<not> sent i then (False, [])
      else let (ok, bs) = download_loop sent (i + 1) (drop 1024 contents)
           in (ok, take 1024 contents @ bs))"
  by auto
termination
  by (relation "measure (\<lambda>(sent, i, contents). length contents)") auto

declare download_loop.simps [simp del]

definition fs_download_get_handler :: "'u http_env \<Rightarrow> (nat \<Rightarrow> bool) \<Rightarrow> http_req \<Rightarrow> 'u tool \<Rightarrow> esp_err \<times> file_resp" where
  "fs_download_get_handler env sent req t =
     (case resolve_fs env req of
        Inl _ \<Rightarrow> (ESP_FAIL, File_Error 400 ''invalid fs'')
      | Inr v \<Rightarrow>
          let (ok, name) = get_query_value req ''name'' 128 in
          if \<not> ok \<or> \<not> is_valid_name name then (ESP_FAIL, File_Error 400 ''invalid name'')
          else case get_fs t (file_path v name) of
                 None \<Rightarrow> (ESP_FAIL, File_Error 404 ''file not found'')
               | Some contents \<Rightarrow>
                   let (ok, bs) = download_loop sent 0 contents
                   in (if ok then ESP_OK else ESP_FAIL, File_Data ok bs))"

section \<open>Listings\<close>

datatype list_resp = List_Error nat string | Listed string "(string \<times> nat) list"

definition dir_of :: "'u http_env \<Rightarrow> volume \<Rightarrow> string list option" where
  "dir_of env v = (case v of Sdmmc \<Rightarrow> be_sd_dir (he_ble env)
                   | Flash \<Rightarrow> map_option (map fst) (be_flash_dir (he_ble env)))"

text \<open>The files of a directory with their sizes; an entry that is no file is passed over.\<close>

definition files_of :: "fs \<Rightarrow> volume \<Rightarrow> string list \<Rightarrow> (string \<times> nat) list" where
  "files_of fs v ents = List.map_filter (\<lambda>e. map_option (\<lambda>c. (e, length c)) (fs (file_path v e))) ents"

definition fs_list_get_handler :: "'u http_env \<Rightarrow> http_req \<Rightarrow> 'u tool \<Rightarrow> esp_err \<times> list_resp" where
  "fs_list_get_handler env req t =
     (case resolve_fs env req of
        Inl _ \<Rightarrow> (ESP_FAIL, List_Error 400 ''invalid fs'')
      | Inr v \<Rightarrow>
          (case dir_of env v of
             None \<Rightarrow> (ESP_FAIL, List_Error 500 ''open dir failed'')
           | Some ents \<Rightarrow> (ESP_OK, Listed (label_of v) (files_of (get_fs t) v ents))))"

text \<open>The lists for the phone: name, type and size (the card's list has no size and only programs).\<close>

datatype phone_list = Phone_List esp_err "(string \<times> string \<times> nat) list"

definition fat_get_list_get_handler :: "'u http_env \<Rightarrow> 'u tool \<Rightarrow> phone_list" where
  "fat_get_list_get_handler env t =
     (if \<not> be_flash_ready (he_ble env) then Phone_List ESP_ERR_NOT_SUPPORTED []
      else case dir_of env Flash of
             None \<Rightarrow> Phone_List ESP_FAIL []
           | Some ents \<Rightarrow>
               Phone_List ESP_OK (map (\<lambda>(e, n). (get_filename_without_extension 128 e, get_filename_ext e, n))
                                    (files_of (get_fs t) Flash ents)))"

definition sdmmc_fw_get_list_get_handler :: "'u http_env \<Rightarrow> 'u tool \<Rightarrow> phone_list" where
  "sdmmc_fw_get_list_get_handler env t =
     (if \<not> e_sd_ok (he_fw env) then Phone_List ESP_ERR_NOT_SUPPORTED []
      else case dir_of env Sdmmc of
             None \<Rightarrow> Phone_List ESP_FAIL []
           | Some ents \<Rightarrow>
               Phone_List ESP_OK (map (\<lambda>(e, _). (get_filename_without_extension 128 e, get_filename_ext e, 0))
                                    (files_of (get_fs t) Sdmmc (filter sdmmc_is_valid_program_file ents))))"

section \<open>Deleting and formatting for the phone\<close>

definition delete_file :: "volume \<Rightarrow> bool \<Rightarrow> (string \<Rightarrow> jval option) \<Rightarrow> 'u tool \<Rightarrow> esp_err \<times> http_resp \<times> 'u tool" where
  "delete_file v checked root t =
     (case (json_text root ''file_name'', json_text root ''file_type'') of
        (Some name, Some type) \<Rightarrow>
          if checked \<and> \<not> sdmmc_is_valid_type type then fail_500 ''invalid params'' t
          else let (ok, fs) = remove_file (file_path v (name @ ''.'' @ type)) (get_fs t)
               in if ok then (ESP_OK, Sent ''File Delete Success'', set_fs t fs)
                  else fail_500 ''File Delete Error'' (set_fs t fs)
      | _ \<Rightarrow> fail_500 ''invalid params'' t)"

definition delete_sdmmc_post_handler :: "'u http_env \<Rightarrow> http_req \<Rightarrow> 'u tool \<Rightarrow> (esp_err \<times> http_resp \<times> 'u tool) option" where
  "delete_sdmmc_post_handler env req t =
     (if \<not> e_sd_ok (he_fw env) then Some (fail_500 ''sdmmc init fail'' t)
      else case read_json_body env req of
             None \<Rightarrow> None
           | Some (Inl _) \<Rightarrow> Some (fail_500 ''invalid json'' t)
           | Some (Inr root) \<Rightarrow> Some (delete_file Sdmmc True root t))"

definition delete_fat_post_handler :: "'u http_env \<Rightarrow> http_req \<Rightarrow> 'u tool \<Rightarrow> (esp_err \<times> http_resp \<times> 'u tool) option" where
  "delete_fat_post_handler env req t =
     (if \<not> be_flash_ready (he_ble env) then Some (fail_500 ''fatfs init fail'' t)
      else case read_json_body env req of
             None \<Rightarrow> None
           | Some (Inl _) \<Rightarrow> Some (fail_500 ''invalid json'' t)
           | Some (Inr root) \<Rightarrow> Some (delete_file Flash False root t))"

text \<open>Formatting; the first component is the result that the answer carries.\<close>

definition format_volume :: "'u http_env \<Rightarrow> volume \<Rightarrow> bool \<Rightarrow> 'u tool \<Rightarrow> esp_err \<times> 'u tool" where
  "format_volume env v is_ready t =
     (if \<not> is_ready then (ESP_ERR_NOT_SUPPORTED, t)
      else let (ok, fs) = be_format (he_ble env) (mount_of v) (get_fs t)
           in (if ok then ESP_OK else ESP_FAIL, set_fs t fs))"

definition format_sdmmc_get_handler :: "'u http_env \<Rightarrow> 'u tool \<Rightarrow> esp_err \<times> 'u tool" where
  "format_sdmmc_get_handler env t = format_volume env Sdmmc (e_sd_ok (he_fw env)) t"

definition format_fat_get_handler :: "'u http_env \<Rightarrow> 'u tool \<Rightarrow> esp_err \<times> 'u tool" where
  "format_fat_get_handler env t = format_volume env Flash (be_flash_ready (he_ble env)) t"

section \<open>The requests of the server\<close>

datatype http_method = HTTP_GET | HTTP_POST

datatype http_handler =
    H_Upload_Run | H_Upload_Raw | H_Meta | H_Run | H_State | H_Run_Page | H_Card_List | H_Flash_List
  | H_Card_Format | H_Flash_Format | H_Card_Delete | H_Flash_Delete | H_Get_Fdc
  | H_Fs_List | H_Fs_Upload | H_Fs_Delete | H_Fs_Download | H_Root_Page | H_Upload_Page | H_Fs_Page volume

type_synonym route = "string \<times> http_method \<times> http_handler"

definition http_routes :: "route list" where
  "http_routes =
    [(''/fw_upload_run'', HTTP_POST, H_Upload_Run),
     (''/fw_upload_raw'', HTTP_POST, H_Upload_Raw),
     (''/fw_meta'', HTTP_POST, H_Meta),
     (''/fw_run'', HTTP_POST, H_Run),
     (''/fw_state'', HTTP_GET, H_State),
     (''/fw_run_ui'', HTTP_GET, H_Run_Page),
     (''/sdmmc_fw_get_list'', HTTP_GET, H_Card_List),
     (''/fat_get_list'', HTTP_GET, H_Flash_List),
     (''/sdmmc_format'', HTTP_GET, H_Card_Format),
     (''/fat_format'', HTTP_GET, H_Flash_Format),
     (''/sdmmc_file_delete'', HTTP_POST, H_Card_Delete),
     (''/fat_file_delete'', HTTP_POST, H_Flash_Delete),
     (''/get_fdc'', HTTP_GET, H_Get_Fdc),
     (''/fs_list'', HTTP_GET, H_Fs_List),
     (''/fs_upload'', HTTP_POST, H_Fs_Upload),
     (''/fs_delete'', HTTP_POST, H_Fs_Delete),
     (''/fs_download'', HTTP_GET, H_Fs_Download),
     (''/'', HTTP_GET, H_Root_Page),
     (''/upload'', HTTP_GET, H_Upload_Page),
     (''/sdmmc'', HTTP_GET, H_Fs_Page Sdmmc),
     (''/flash'', HTTP_GET, H_Fs_Page Flash)]"

text \<open>Registering a request with the server is a parameter; its result is not looked at.\<close>

definition max_uri_handlers :: nat where
  "max_uri_handlers = 24"

definition http_server_start :: "bool \<Rightarrow> (nat \<Rightarrow> route \<Rightarrow> route list \<Rightarrow> route list) \<Rightarrow> route list option \<Rightarrow>
    esp_err \<times> route list option" where
  "http_server_start httpd_ok register server =
     (if server \<noteq> None then (ESP_ERR_INVALID_STATE, server)
      else if \<not> httpd_ok then (ESP_FAIL, None)
      else (ESP_OK, Some (fold (register max_uri_handlers) http_routes [])))"

text \<open>A server that takes a request while there is a place free and none for the same path serves all.\<close>

lemma all_routes_served:
  assumes "\<And>n r rs. length rs < n \<Longrightarrow> fst r \<notin> set (map fst rs) \<Longrightarrow> register n r rs = rs @ [r]"
  shows "http_server_start True register None = (ESP_OK, Some http_routes)"
  by (simp add: http_server_start_def http_routes_def assms max_uri_handlers_def)

section \<open>What the file browser can reach\<close>

datatype file_request = Upload http_req | Delete http_req

fun file_request_step :: "'u http_env \<Rightarrow> 'u tool \<Rightarrow> file_request \<Rightarrow> 'u tool \<times> http_resp list" where
  "file_request_step env t (Upload req) = (case fs_upload_post_handler env req t of (_, a, t1) \<Rightarrow> (t1, [a]))"
| "file_request_step env t (Delete req) = (case fs_delete_post_handler env req t of (_, a, t1) \<Rightarrow> (t1, [a]))"

definition same_outside :: "fs \<Rightarrow> fs \<Rightarrow> bool" where
  "same_outside fs0 fs \<longleftrightarrow> (\<forall>q. fs q \<noteq> fs0 q \<longrightarrow>
     (\<exists>v name. is_valid_name name \<and> length name < 128 \<and> q = mount_of v @ ''/'' @ name))"

lemma same_outside_upd:
  assumes "same_outside fs0 fs" "is_valid_name name" "length name < 128"
    and "\<forall>q. q \<noteq> file_path v name \<longrightarrow> fs' q = fs q"
  shows "same_outside fs0 fs'"
proof -
  have "file_path v name = mount_of v @ ''/'' @ name"
    unfolding file_path_def using assms(3) by (cases v) (auto intro!: c_copy_id)
  then show ?thesis using assms unfolding same_outside_def by metis
qed

lemma set_fs_fields [simp]: "sy_fs (t_fw (set_fs t fs)) = fs"
  by (simp add: set_fs_def)

lemma recv_file_frame:
  "recv_loop (file_write env p) b n net fs = (e, k, fs') \<Longrightarrow> q \<noteq> p \<Longrightarrow> fs' q = fs q"
proof (induction n arbitrary: net fs rule: less_induct)
  case (less n)
  obtain bs net1 where r: "net_recv (min b n) net = (bs, net1)" by (cases "net_recv (min b n) net")
  have frame: "snd (file_write env p bs k fs) q = fs q" for k
    using less.prems(2) by (simp add: file_write_def fput_def Let_def)
  show ?case
  proof (cases "n = 0 \<or> bs = []")
    case True
    then show ?thesis using less.prems(1) r by (subst (asm) recv_loop.simps) (auto split: if_splits)
  next
    case False
    then have "n - length bs < n" by (cases bs) auto
    moreover have "recv_loop (file_write env p) b (n - length bs) net1 (snd (file_write env p bs (n - length bs) fs)) =
        (e, k, fs')"
      using False less.prems(1) r
      by (subst (asm) recv_loop.simps) (simp add: file_write_def)
    ultimately show ?thesis using less.IH less.prems(2) frame by metis
  qed
qed

lemma query_name_length: "get_query_value req key 128 = (ok, name) \<Longrightarrow> length name < 128"
  by (auto simp: get_query_value_def split: option.splits)

lemma delete_name_length: "length (delete_name env req) < 128"
  by (auto simp: delete_name_def get_query_value_def Let_def split: option.splits sum.splits)

interpretation browser: invariant_machine "file_request_step env" "\<lambda>t. same_outside fs0 (get_fs t)" for env fs0
proof
  fix t :: "'a tool" and r
  assume inv: "same_outside fs0 (get_fs t)"
  show "same_outside fs0 (get_fs (fst (file_request_step env t r)))"
  proof (cases r)
    case (Upload req)
    have "same_outside fs0 (get_fs (snd (snd (fs_upload_post_handler env req t))))"
    proof (cases "resolve_fs env req")
      case (Inr v)
      obtain ok name where n: "get_query_value req ''name'' 128 = (ok, name)"
        by (cases "get_query_value req ''name'' 128")
      obtain e k fs where l: "recv_loop (file_write (he_fw env) (file_path v name)) 1024
          (nat (int_remaining (rq_content_len req))) (rq_net req) ((get_fs t)(file_path v name \<mapsto> [])) = (e, k, fs)"
        by (metis prod_cases3)
      have "same_outside fs0 fs" if "is_valid_name name"
        using same_outside_upd [OF inv that query_name_length [OF n], of v fs] recv_file_frame [OF l] by simp
      then show ?thesis using Inr n l inv
        by (auto simp: fs_upload_post_handler_def fail_400_def fail_500_def Let_def)
    qed (use inv in \<open>simp add: fs_upload_post_handler_def fail_400_def\<close>)
    then show ?thesis using Upload by (simp add: case_prod_beta)
  next
    case (Delete req)
    have "same_outside fs0 (get_fs (snd (snd (fs_delete_post_handler env req t))))"
      using inv same_outside_upd [OF inv _ delete_name_length [of env req]]
      by (auto simp: fs_delete_post_handler_def fail_400_def fail_500_def remove_file_def Let_def
          split: sum.splits)
    then show ?thesis using Delete by (simp add: case_prod_beta)
  qed
qed

text \<open>C39: The file browser stays in its two directories. Whatever upload and delete requests arrive in
  whatever order, a file that differs afterwards is a direct child of \<open>/sdcard\<close> or \<open>/c\<close>: its name
  is not empty, has no slash, no backslash and no two dots in a row in it, and has less than 128
  characters.\<close>

theorem browser_contained:
  assumes "get_fs (fst (run_out (file_request_step env) t reqs)) q \<noteq> get_fs t q"
  shows "\<exists>v name. q = mount_of v @ ''/'' @ name \<and> name \<noteq> [] \<and> CHR ''/'' \<notin> set name \<and>
    CHR 0x5C \<notin> set name \<and> strstr ''..'' name = None \<and> length name < 128"
proof -
  have "same_outside (get_fs t) (get_fs t)" by (simp add: same_outside_def)
  from browser.run_inv [OF this, of env reqs] assms
  obtain v name where "is_valid_name name" "length name < 128" "q = mount_of v @ ''/'' @ name"
    unfolding same_outside_def by blast
  then show ?thesis by (intro exI [of _ v] exI [of _ name]) (auto simp: is_valid_name_def)
qed

interpretation file_body: recv_sink "file_write env p" "\<lambda>d fs. fwrite_works env \<and> fs p = Some d" for env p
  by unfold_locales (simp add: file_write_def fput_def fwrite_works_def Let_def)

lemma download_all: "download_loop (\<lambda>_. True) i contents = (True, contents)"
proof (induction "\<lambda>_ :: nat. True" i contents rule: download_loop.induct)
  case (1 i contents)
  then show ?case by (subst download_loop.simps) auto
qed

lemma fs_upload_done:
  assumes "resolve_fs env req = Inr v" "rq_query req ''name'' = Some name" "length name < 128"
    and "is_valid_name name" "fwrite_works (he_fw env)" "e_can_create (he_fw env) (file_path v name)"
    and "nat (int_remaining (rq_content_len req)) \<le> length (delivered (rq_net req))"
  shows "\<exists>t'. fs_upload_post_handler env req t = (ESP_OK, Sent ''Upload OK'', t') \<and>
    get_fs t' (file_path v name) = Some (take (nat (int_remaining (rq_content_len req))) (delivered (rq_net req)))"
proof -
  let ?p = "file_path v name" and ?n = "nat (int_remaining (rq_content_len req))"
  have "get_query_value req ''name'' 128 = (True, name)"
    using assms(2,3) by (simp add: get_query_value_def c_copy_id)
  moreover have "fwrite_works (he_fw env) \<and> ((get_fs t)(?p \<mapsto> [])) ?p = Some []" using assms(5) by simp
  moreover obtain fs where
    "recv_loop (file_write (he_fw env) ?p) 1024 ?n (rq_net req) ((get_fs t)(?p \<mapsto> [])) = (Recv_Done, 0, fs)"
    "fs ?p = Some (take ?n (delivered (rq_net req)))"
    using file_body.recv_holds [where env = "he_fw env" and p = ?p and s = "(get_fs t)(?p \<mapsto> [])" and d = "[]"
        and b = 1024 and n = ?n and net = "rq_net req"] assms(5,7) by auto
  ultimately show ?thesis
    using assms(1,4,6) by (simp add: fs_upload_post_handler_def Let_def)
qed

lemma fs_download_done:
  assumes "resolve_fs env req = Inr v" "rq_query req ''name'' = Some name" "length name < 128"
    and "is_valid_name name" "get_fs t (file_path v name) = Some contents"
  shows "fs_download_get_handler env (\<lambda>_. True) req t = (ESP_OK, File_Data True contents)"
  using assms download_all
  by (simp add: fs_download_get_handler_def get_query_value_def c_copy_id Let_def)

text \<open>C40: What the browser uploads it downloads again, up to 2 GB. For a valid name of less than 128
  characters on a ready volume that takes all writes, an upload of less than \<open>2 ^ 31\<close> bytes whose
  body arrives whole succeeds, and a download by the same query whose chunks all go through then
  sends exactly that body. A longer upload (the length is a 32-bit \<open>size_t\<close> that the handler puts
  into an \<open>int\<close>) is answered with success as well, but nothing of its body is read and an empty
  file is stored and downloaded.\<close>

theorem browser_roundtrip:
  assumes "resolve_fs env req = Inr v" "rq_query req ''name'' = Some name" "length name < 128"
    and "is_valid_name name" "fwrite_works (he_fw env)" "e_can_create (he_fw env) (file_path v name)"
    and "rq_content_len req < 2 ^ 32" "\<forall>i. sent i"
  shows "\<exists>t'. (rq_content_len req < 2 ^ 31 \<and> rq_content_len req \<le> length (delivered (rq_net req)) \<longrightarrow>
       fs_upload_post_handler env req t = (ESP_OK, Sent ''Upload OK'', t') \<and>
       fs_download_get_handler env sent req t' =
         (ESP_OK, File_Data True (take (rq_content_len req) (delivered (rq_net req))))) \<and>
    (2 ^ 31 \<le> rq_content_len req \<longrightarrow>
       fs_upload_post_handler env req t = (ESP_OK, Sent ''Upload OK'', t') \<and>
       fs_download_get_handler env sent req t' = (ESP_OK, File_Data True []))"
proof -
  have s: "sent = (\<lambda>_. True)" using assms(8) by auto
  show ?thesis
  proof (cases "rq_content_len req < 2 ^ 31")
    case True
    then have n: "nat (int_remaining (rq_content_len req)) = rq_content_len req"
      using int_remaining_small by simp
    show ?thesis
      using fs_upload_done [OF assms(1-6), of t] fs_download_done [OF assms(1-4)] True
      unfolding n s by fastforce
  next
    case False
    then have n: "nat (int_remaining (rq_content_len req)) = 0"
      using int_remaining_large [of "rq_content_len req"] assms(7) by simp
    show ?thesis
      using fs_upload_done [OF assms(1-6), of t] fs_download_done [OF assms(1-4)] False
      unfolding n s by fastforce
  qed
qed

lemma browser_witness_env:
  "resolve_fs (http_env_for fw_meta_zero) \<lparr>rq_content_len = 3, rq_header = Map.empty,
     rq_query = [''fs'' \<mapsto> ''sdmmc'', ''name'' \<mapsto> ''a.txt''], rq_net = [[1, 2], [3]]\<rparr> = Inr Sdmmc"
  "is_valid_name ''a.txt''" "fwrite_works (he_fw (http_env_for fw_meta_zero))"
  "e_can_create (he_fw (http_env_for fw_meta_zero)) p"
  by (simp_all add: resolve_fs_def get_query_value_def c_copy_def is_valid_name_def http_env_for_def
      example_ble_env_def env_for_def example_env_def fwrite_works_def)

lemma browser_roundtrip_witness:
  "\<exists>t'. fs_download_get_handler (http_env_for fw_meta_zero) (\<lambda>_. True) \<lparr>rq_content_len = 3, rq_header = Map.empty,
     rq_query = [''fs'' \<mapsto> ''sdmmc'', ''name'' \<mapsto> ''a.txt''], rq_net = [[1, 2], [3]]\<rparr> t' =
     (ESP_OK, File_Data True [1, 2, 3])"
  using browser_roundtrip [OF browser_witness_env(1) _ _ browser_witness_env(2-4) _, of "\<lambda>_. True" example_tool]
  by (auto simp: delivered_def)

lemma browser_contained_witness:
  "\<exists>v name. ''/sdcard/a.txt'' = mount_of v @ ''/'' @ name \<and> name \<noteq> [] \<and> CHR ''/'' \<notin> set name \<and>
     CHR 0x5C \<notin> set name \<and> strstr ''..'' name = None \<and> length name < 128"
proof (rule browser_contained)
  let ?r = "\<lparr>rq_content_len = 0, rq_header = Map.empty,
     rq_query = [''fs'' \<mapsto> ''sdmmc'', ''name'' \<mapsto> ''a.txt''], rq_net = []\<rparr>"
  let ?env = "http_env_for fw_meta_zero"
  have r: "resolve_fs ?env ?r = Inr Sdmmc" using browser_witness_env(1) by (simp add: resolve_fs_def get_query_value_def)
  have z: "int_remaining 0 = 0" by (simp add: int_remaining_def)
  have l: "recv_loop w b 0 [] fs = (Recv_Done, 0, fs)" for w b and fs :: fs by (subst recv_loop.simps) simp
  show "get_fs (fst (run_out (file_request_step ?env) example_tool [Upload ?r])) ''/sdcard/a.txt'' \<noteq>
      get_fs example_tool ''/sdcard/a.txt''"
    using r l z browser_witness_env(2,4)
    by (simp add: fs_upload_post_handler_def get_query_value_def c_copy_def file_path_def
        example_tool_def example_sys_def)
qed

end
