(* ===== verification/Spec2Isabelle.thy ===== *)
theory Spec2Isabelle
  imports Packet Intel_Hex Storage Packaging Fw_Manager Ble_Cmd Stm32_Boot Can_Tms Uuencode Part_Desc Isp_Spec Probe_Link Uart_Isp Ota_Update Update_Worker Http_Files
begin

text \<open>
  The ESP32 service tool for lift controllers: a phone talks to it over BLE (or a browser over
  HTTP), it emulates the hand-held terminal of a controller (HHT), stores firmware files on an SD
  card, and programs them into itself or into a target. This library models its core logic, in C
  under \<open>src/main\<close>, and proves what makes it correct, and where it is not.

  \<^bold>\<open>How the parts interact.\<close> Bytes written by the phone are cut into packets (\<open>packet.c\<close>); each
  packet is a command (\<open>protocol/ble_cmd_parser.c\<close>) that asks the role dispatcher
  (\<open>core/role_dispatcher.c\<close>) for a role, presses a key of the terminal, or stores and runs
  firmware. The terminal role runs the HHT task (\<open>core/hht\<close>): a handshake or a session opens the
  link, rows of the display go to the phone, keys to the controller. The upload manager
  (\<open>core/firmware_upload/fw_upload_manager.c\<close>) writes files and their meta data with the storage
  layer (plain or encrypted), and puts jobs into a queue; the worker (\<open>fw_update_worker.c\<close>) takes
  them, converts HEX to binary where needed, and calls the updater of the target: the tool itself
  (OTA), CAN, the NXP and STM32 boot loaders, or a debug probe.

  \<^bold>\<open>Theories and sources.\<close>
  \<^item> \<open>Prelude\<close>: bytes, C strings and numbers in text; the interfaces as locales (invariant and partial
    state machines, message codecs, byte readers, sinks), each interpreted in the theory of the
    component that provides it.
  \<^item> \<open>Packet\<close>: \<open>packet.c\<close>, the GATT receive path of \<open>ble_gatt_server.c\<close>. Receiver state machine, sender.
  \<^item> \<open>Intel_Hex\<close>: \<open>utils/ihex_read.c\<close>, \<open>utils/ihex2bin.c\<close>. Reader of records, conversion in memory and
    to a sink; the records have a reference meaning.
  \<^item> \<open>Fw_Types\<close>, \<open>Storage\<close>, \<open>Packaging\<close>, \<open>Fw_Manager\<close>: \<open>fw_upload_types.c\<close>, \<open>_registry.c\<close>,
    \<open>_meta_defaults.c\<close>, \<open>_state.c\<close>, \<open>fw_ble_legacy_context.c\<close>; \<open>_storage.c\<close>, \<open>_crypto.c\<close>;
    \<open>_packaging.c\<close> (BIN, HEX, COFF, ELF); \<open>_manager.c\<close> with the queue of \<open>fw_update_worker.c\<close>.
    A file system is a map from paths to bytes, the cipher a parameter.
  \<^item> \<open>Hht_Keys\<close>, \<open>Hht_Display\<close>, \<open>Hht_Handshake\<close>, \<open>Hht_Link\<close>: \<open>hht_keys.c\<close>, \<open>hht_display.c\<close>, the codes of
    \<open>hht_wb100.c\<close>, and \<open>hht_uart.c\<close>, \<open>hht_3000.c\<close>, \<open>hht_session.c\<close>, \<open>hht_main.c\<close>, \<open>hht_task.c\<close>.
  \<^item> \<open>Ble_Cmd\<close>: \<open>ble_cmd_parser.c\<close>, \<open>ble_protocol.c\<close>, \<open>role_dispatcher.c\<close>, \<open>task_manager.c\<close>: one function
    from a command and its payload to the state of the whole tool.
  \<^item> \<open>Serial_Io\<close>: a serial line as a script of reads and a log of writes, for all boot loaders.
  \<^item> \<open>Stm32_Boot\<close>: \<open>stm32_update.c\<close>. \<open>Can_Tms\<close>: \<open>can_fw_update.c\<close>, \<open>incan.c\<close>. \<open>Probe_Link\<close>:
    \<open>probe_link_update.c\<close>, \<open>probe_link/\<close>. \<open>Ota_Update\<close>: \<open>esp32_update.c\<close>, \<open>cli_ota_view.c\<close>.
  \<^item> \<open>Uuencode\<close>, \<open>Part_Desc\<close>, \<open>Isp_Cmd\<close>, \<open>Isp_Flash\<close>, \<open>Isp_Spec\<close>, \<open>Uart_Isp\<close>: \<open>uuencode.c\<close>, \<open>nxp_partdesc.c\<close>,
    \<open>isp.c\<close>, \<open>isp_uart.c\<close> and \<open>uart_isp_*.c\<close>, from the encoding of a line to the whole update.
  \<^item> \<open>Update_Worker\<close>: the rest of \<open>fw_update_worker.c\<close>: the worker with all its updaters.
  \<^item> \<open>Net_Upload\<close>: receiving over the network (the loop all uploads share, as a locale) and the TCP
    server (\<open>net/tcp/tcp_server.c\<close>). \<open>Json_Cut\<close>: searching quoted keys in a text. \<open>Http_Upload\<close>: the
    handlers that store and run firmware (\<open>net/http/sub/rest_sdmmc_fw_*.c\<close>, \<open>rest_fw_state.c\<close>). Their
    properties say that what a client sends is what is read back from the card. \<open>Http_Files\<close>: the file
    browser, lists, deleting and formatting, and the table of requests of the server; it stays in its
    two directories, and downloads what was uploaded.

  \<^bold>\<open>State and effects.\<close> A module's static variables are a record with the names of the source, passed
  explicitly; what it sends is a log in the record. Errors are the source's codes, in a pair or a sum.
  \<^const>\<open>None\<close> of an option is behaviour C leaves undefined (an access behind a buffer, a division by
  0), a program stop, or a loop that never ends; where the code can do this on real input a theorem
  or a finding says so. Machine integers are words of their width. What the tool does not implement is a
  parameter: drivers (\<open>uart_drv\<close>, \<open>can_env\<close>, \<open>write_result\<close>), the SD card and AES (\<open>fw_env\<close>), JSON
  (\<open>e_json_parse\<close>), the OTA interface (\<open>ota_env\<close>). Assumptions on them are named predicates
  (\<open>aes_works\<close>, \<open>fwrite_works\<close>, \<open>json_works\<close>, \<open>meta_fits\<close>, \<open>bus_ok\<close>) and hold for the instances of the witnesses.

  \<^bold>\<open>What is shown.\<close>
  \<^item> Round trips: packets through sender and receiver, files through encryption and back, meta data
    through JSON, UU encoding, packets to the debug probe through its response reader.
  \<^item> Refinement and functional correctness: the image of a HEX file, ELF and HEX packaging, the
    terminal shown in the app, blocks in the RAM of an NXP part, STM32 and CAN updates end to end,
    key presses, the handshake against Modbus CRC.
  \<^item> Invariants, by machine interpretation: keys, link, the whole tool under any command, the queue
    of the worker, and the devices after any round of the worker with any updater.
  \<^item> Errors and bounds: corrupted packets and HEX records, the receive buffer, the size limits of
    the updaters, the outcome of an OTA or NXP update, what is lost on the line to a probe.
  \<^item> Termination: the update over the probe returns; other loops are total functions, end with the
    data that drives them, or are shown not to return.

  \<^bold>\<open>Bounds and fuel.\<close> No definition takes fuel. A loop over input is a function with a measure (bytes
  left in the script, size left of the file); a loop that may not end is a \<^theory_text>\<open>partial_function\<close>, and
  theorems about it state that it returns. Scripts of a serial line are finite and end with reads
  that time out, which is how an absent target behaves.

  \<^bold>\<open>Not modelled.\<close> The start of radio, network and file systems, FreeRTOS tasks and drivers (calls of
  ESP-IDF without logic of their own); the text user interface of the console; the HTML
  pages; report printing; \<open>lpc_isp.c\<close>, which is not built. The list of
  components in the manifest names each of them.
\<close>

end
